(* ===== verification/Prelude.thy ===== *)
theory Prelude
  imports Main "HOL-Library.Word" "HOL-Library.Monad_Syntax"
begin

unbundle bit_operations_syntax

text \<open>
  Shared vocabulary of the development: the Go machine types, big-endian codecs
  (\<^verbatim>\<open>encoding/binary\<close>), slices and in-place writes on byte slices, checked indexing for code
  whose panics matter, and the collections of rewrite rules the component theories use.

  A Go \<^verbatim>\<open>[]byte\<close> is a \<open>byte list\<close>. A function that mutates its argument slice returns the
  new contents. Go's \<^verbatim>\<open>int\<close> is \<open>nat\<close> where the code only ever holds lengths and offsets,
  and \<open>int\<close> where it may be negative.
\<close>

section \<open>Machine types and collections of facts\<close>

type_synonym byte = "8 word"
type_synonym u16 = "16 word"
type_synonym u32 = "32 word"

text \<open>
  \<open>writes\<close> collects facts that say which bytes an operation may change, \<open>reads\<close> the facts
  that say which bytes an accessor depends on, \<open>lens\<close> the length equations.
\<close>

named_theorems writes
named_theorems reads
named_theorems lens

section \<open>Big-endian integers\<close>

text \<open>\<^verbatim>\<open>binary.BigEndian.Uint16\<close> / \<^verbatim>\<open>Uint32\<close> on the bytes of a slice, and the bytes written by
  \<^verbatim>\<open>PutUint16\<close> / \<^verbatim>\<open>PutUint32\<close>.\<close>

definition be16 :: "byte \<Rightarrow> byte \<Rightarrow> u16" where
  "be16 a b = ucast b OR push_bit 8 (ucast a)"

definition be32 :: "byte \<Rightarrow> byte \<Rightarrow> byte \<Rightarrow> byte \<Rightarrow> u32" where
  "be32 a b c d =
     ucast d OR push_bit 8 (ucast c) OR push_bit 16 (ucast b) OR push_bit 24 (ucast a)"

definition put16 :: "u16 \<Rightarrow> byte list" where
  "put16 v = [ucast (drop_bit 8 v), ucast v]"

definition put32 :: "u32 \<Rightarrow> byte list" where
  "put32 v = [ucast (drop_bit 24 v), ucast (drop_bit 16 v), ucast (drop_bit 8 v), ucast v]"

lemma bit_byte_lt: "bit (b :: byte) n \<Longrightarrow> n < 8"
  by (drule bit_imp_le_length) simp

lemma length_put16 [simp, lens]: "length (put16 v) = 2"
  by (simp add: put16_def)

lemma length_put32 [simp, lens]: "length (put32 v) = 4"
  by (simp add: put32_def)

lemma be16_put16 [simp]: "be16 (ucast (drop_bit 8 v)) (ucast v) = v"
  unfolding be16_def by (rule bit_word_eqI) (auto simp: bit_simps)

lemma put16_be16 [simp]: "put16 (be16 a b) = [a, b]"
  unfolding be16_def put16_def
  by (auto intro!: bit_word_eqI simp: bit_simps dest: bit_byte_lt)

lemma be32_put32 [simp]:
  "be32 (ucast (drop_bit 24 v)) (ucast (drop_bit 16 v)) (ucast (drop_bit 8 v)) (ucast v) = v"
proof (rule bit_word_eqI)
  fix n
  assume "n < LENGTH(32)"
  then consider "n < 8" | "8 \<le> n \<and> n < 16" | "16 \<le> n \<and> n < 24" | "24 \<le> n \<and> n < 32"
    by force
  then show "bit (be32 (ucast (drop_bit 24 v)) (ucast (drop_bit 16 v))
      (ucast (drop_bit 8 v)) (ucast v)) n = bit v n"
    unfolding be32_def by cases (auto simp: bit_simps)
qed

lemma be16_put16_nth [simp]: "be16 (put16 v ! 0) (put16 v ! Suc 0) = v"
  by (simp add: put16_def)

lemma unat_byte_less [simp]: "unat (b :: byte) < 256"
  using unsigned_less [of b] by simp

lemma unat_u16_less [simp]: "unat (w :: u16) < 65536"
  using unsigned_less [of w] by simp

lemma unat_ucast16: "unat (ucast (b :: byte) :: u16) = unat b"
  by (simp add: unsigned_ucast_eq take_bit_nat_eq_self_iff less_trans [OF unat_byte_less])

lemma unat_be16: "unat (be16 a b) = unat a * 256 + unat b"
proof -
  have "be16 a b = ucast b + push_bit 8 (ucast a)"
    unfolding be16_def
    by (rule disjunctive_add [symmetric]) (auto simp: bit_simps dest: bit_byte_lt)
  moreover have "unat (push_bit 8 (ucast a) :: u16) = unat a * 256"
    by (simp add: push_bit_eq_mult unat_word_ariths unat_ucast16)
  moreover have "unat b + unat a * 256 < 65536"
    using unat_byte_less [of a] unat_byte_less [of b] by linarith
  ultimately show ?thesis
    by (simp add: unat_word_ariths unat_ucast16)
qed

section \<open>Slices\<close>

text \<open>\<open>subslice xs i j\<close> is \<^verbatim>\<open>xs[i:j]\<close>; \<open>write_at off bs xs\<close> is \<open>xs\<close> after
  \<^verbatim>\<open>copy(xs[off:], bs)\<close> when \<open>bs\<close> fits.\<close>

definition subslice :: "'a list \<Rightarrow> nat \<Rightarrow> nat \<Rightarrow> 'a list" where
  "subslice xs i j = take (j - i) (drop i xs)"

definition write_at :: "nat \<Rightarrow> 'a list \<Rightarrow> 'a list \<Rightarrow> 'a list" where
  "write_at off bs xs = take off xs @ bs @ drop (off + length bs) xs"

lemma length_subslice [simp, lens]: "length (subslice xs i j) = min (j - i) (length xs - i)"
  by (simp add: subslice_def)

lemma nth_subslice [simp]:
  "i \<le> length xs \<Longrightarrow> k < j - i \<Longrightarrow> subslice xs i j ! k = xs ! (i + k)"
  by (simp add: subslice_def)

lemma length_write_at [simp, lens]:
  "off + length bs \<le> length xs \<Longrightarrow> length (write_at off bs xs) = length xs"
  by (simp add: write_at_def)

lemma nth_write_at:
  assumes "off + length bs \<le> length xs"
  shows "write_at off bs xs ! i =
    (if off \<le> i \<and> i < off + length bs then bs ! (i - off) else xs ! i)"
  using assms by (auto simp: write_at_def nth_append)

lemma subslice_write_at [simp]:
  "off + length bs \<le> length xs \<Longrightarrow> subslice (write_at off bs xs) off (off + length bs) = bs"
  by (simp add: subslice_def write_at_def)

lemma subslice_full [simp]: "subslice xs 0 (length xs) = xs"
  by (simp add: subslice_def)

lemma subslice_append_mid:
  "length xs = i \<Longrightarrow> length ys = j - i \<Longrightarrow> subslice (xs @ ys @ zs) i j = ys"
  by (simp add: subslice_def)

lemma take_subslice_drop:
  "i \<le> j \<Longrightarrow> j \<le> length xs \<Longrightarrow> take i xs @ subslice xs i j @ drop j xs = xs"
  using append_take_drop_id [of "j - i" "drop i xs"] by (simp add: subslice_def)

lemma subslice_join:
  "i \<le> j \<Longrightarrow> j \<le> k \<Longrightarrow> subslice xs i j @ subslice xs j k = subslice xs i k"
  using take_add [of "j - i" "k - j" "drop i xs"] by (simp add: subslice_def)

lemma subslice_subslice:
  "p + e \<le> q \<Longrightarrow> subslice (subslice xs p q) s e = subslice xs (p + s) (p + e)"
  by (simp add: subslice_def drop_take min_def add.commute)

lemma subslice_append_left: "j \<le> length xs \<Longrightarrow> subslice (xs @ ys) i j = subslice xs i j"
  by (cases "i \<le> length xs") (simp_all add: subslice_def)

lemma subslice_append_shift:
  "n = length xs \<Longrightarrow> subslice (xs @ ys) (n + i) (n + j) = subslice ys i j"
  by (simp add: subslice_def)

section \<open>Agreement outside a set of positions\<close>

text \<open>The frame condition of an in-place write: same length, same bytes outside \<open>A\<close>.\<close>

definition agree_except :: "nat set \<Rightarrow> 'a list \<Rightarrow> 'a list \<Rightarrow> bool" where
  "agree_except A xs ys \<longleftrightarrow>
     length xs = length ys \<and> (\<forall>i < length xs. i \<notin> A \<longrightarrow> xs ! i = ys ! i)"

lemma agree_except_refl [simp, intro]: "agree_except A xs xs"
  by (simp add: agree_except_def)

lemma agree_except_length: "agree_except A xs ys \<Longrightarrow> length ys = length xs"
  by (simp add: agree_except_def)

lemma agree_except_trans:
  "agree_except A xs ys \<Longrightarrow> agree_except B ys zs \<Longrightarrow> agree_except (A \<union> B) xs zs"
  by (auto simp: agree_except_def)

lemma agree_except_mono: "agree_except A xs ys \<Longrightarrow> A \<subseteq> B \<Longrightarrow> agree_except B xs ys"
  by (auto simp: agree_except_def)

lemma agree_except_nth:
  "agree_except A xs ys \<Longrightarrow> i \<notin> A \<Longrightarrow> i < length xs \<Longrightarrow> ys ! i = xs ! i"
  by (simp add: agree_except_def)

lemma agree_except_nth_in:
  "agree_except A xs ys \<Longrightarrow> A \<inter> {a ..< b} = {} \<Longrightarrow> a \<le> i \<Longrightarrow> i < b \<Longrightarrow> i < length xs \<Longrightarrow>
    ys ! i = xs ! i"
  by (rule agree_except_nth) auto

lemma agree_except_write_at [writes]:
  "off + length bs \<le> length xs \<Longrightarrow>
    agree_except {off ..< off + length bs} xs (write_at off bs xs)"
  by (auto simp: agree_except_def nth_write_at)

lemma agree_except_list_update [writes]: "agree_except {i} xs (xs[i := v])"
  by (auto simp: agree_except_def)

lemma agree_except_subslice:
  assumes "agree_except A xs ys" and "A \<inter> {i ..< j} = {}"
  shows "subslice ys i j = subslice xs i j"
proof (rule nth_equalityI)
  show "length (subslice ys i j) = length (subslice xs i j)"
    using assms(1) by (simp add: agree_except_def)
next
  fix k
  assume k: "k < length (subslice ys i j)"
  then have "i + k \<notin> A" using assms(2) by (auto simp: disjoint_iff)
  with k show "subslice ys i j ! k = subslice xs i j ! k"
    using assms(1) by (auto simp: agree_except_def)
qed

lemma agree_except_drop:
  assumes "agree_except A xs ys" and "A \<inter> {i ..} = {}"
  shows "drop i ys = drop i xs"
proof (rule nth_equalityI)
  show "length (drop i ys) = length (drop i xs)"
    using assms(1) by (simp add: agree_except_def)
next
  fix k
  assume k: "k < length (drop i ys)"
  moreover have "i + k \<notin> A" using assms(2) by (auto simp: disjoint_iff)
  ultimately show "drop i ys ! k = drop i xs ! k"
    using assms(1) by (auto simp: agree_except_def)
qed

section \<open>Checked access: \<open>None\<close> is a run-time panic\<close>

text \<open>For code whose freedom from index and slice panics is itself a property, indexing and
  slicing are checked: \<open>None\<close> is the Go run-time panic.\<close>

definition go_index :: "'a list \<Rightarrow> nat \<Rightarrow> 'a option" where
  "go_index xs i = (if i < length xs then Some (xs ! i) else None)"

definition go_slice :: "'a list \<Rightarrow> nat \<Rightarrow> nat \<Rightarrow> 'a list option" where
  "go_slice xs i j = (if i \<le> j \<and> j \<le> length xs then Some (subslice xs i j) else None)"

definition go_uint16 :: "byte list \<Rightarrow> nat option" where
  "go_uint16 xs = (if 2 \<le> length xs then Some (unat (be16 (xs ! 0) (xs ! 1))) else None)"

lemma go_index_Some [simp]: "i < length xs \<Longrightarrow> go_index xs i = Some (xs ! i)"
  by (simp add: go_index_def)

lemma go_slice_Some [simp]: "i \<le> j \<Longrightarrow> j \<le> length xs \<Longrightarrow> go_slice xs i j = Some (subslice xs i j)"
  by (simp add: go_slice_def)

lemma go_uint16_Some [simp]:
  "2 \<le> length xs \<Longrightarrow> go_uint16 xs = Some (unat (be16 (xs ! 0) (xs ! 1)))"
  by (simp add: go_uint16_def)

section \<open>Decimal formatting\<close>

text \<open>\<^verbatim>\<open>fmt.Sprintf("%d", n)\<close> and \<^verbatim>\<open>strconv.Itoa\<close> on non-negative integers.\<close>

fun decimal :: "nat \<Rightarrow> string" where
  "decimal n = (if n < 10 then [char_of (48 + n)] else decimal (n div 10) @ [char_of (48 + n mod 10)])"

declare decimal.simps [simp del]

definition decimal_int :: "int \<Rightarrow> string" where
  "decimal_int i = (if i < 0 then CHR ''-'' # decimal (nat (- i)) else decimal (nat i))"

fun undecimal :: "string \<Rightarrow> nat" where
  "undecimal cs = foldl (\<lambda>acc c. acc * 10 + (of_char c - 48)) 0 cs"

lemma undecimal_decimal: "undecimal (decimal n) = n"
proof (induction n rule: decimal.induct)
  case (1 n)
  then show ?case
    by (subst decimal.simps) auto
qed

lemma decimal_inject [simp]: "decimal m = decimal n \<longleftrightarrow> m = n"
  by (metis undecimal_decimal)

lemma decimal_nonempty [simp]: "decimal n \<noteq> []"
  by (subst decimal.simps) simp

lemma decimal_digits: "c \<in> set (decimal n) \<Longrightarrow> (48 :: nat) \<le> of_char c \<and> of_char c \<le> (57 :: nat)"
proof (induction n rule: decimal.induct)
  case (1 n)
  then show ?case
    by (subst (asm) decimal.simps) (auto split: if_splits)
qed

end
