(* ===== verification/Packet.thy ===== *)
theory Packet
  imports Prelude
begin

text \<open>
  Model of \<^verbatim>\<open>packet/tcp.go\<close>: accessors and in-place setters on raw IPv4/TCP packets.
  Each Go function is one definition of the same name. Setters return the new contents of
  the slice they mutate; \<open>SetTCPPayload\<close>, which allocates, returns \<open>None\<close> for \<^verbatim>\<open>nil\<close>.
  Every index is below the length checked in the same function, so no definition reads
  outside its list. The lemmas give, for every setter, the bytes it may touch (\<open>writes\<close>) and,
  for every accessor, the bytes it depends on (\<open>reads\<close>).
\<close>

section \<open>Accessors and setters\<close>

record TCPFlags =
  SYN :: bool
  ACK :: bool
  RST :: bool
  FIN :: bool
  PSH :: bool
  URG :: bool

definition IPVersion :: "byte list \<Rightarrow> nat" where
  "IPVersion raw = (if length raw = 0 then 0 else unat (drop_bit 4 (raw ! 0)))"

definition IPHeaderLen :: "byte list \<Rightarrow> nat" where
  "IPHeaderLen raw = (if length raw = 0 then 0 else unat (raw ! 0 AND 0x0F) * 4)"

definition tcpOffset :: "byte list \<Rightarrow> nat" where
  "tcpOffset raw = IPHeaderLen raw"

definition IPv4SrcAddr :: "byte list \<Rightarrow> byte list option" where
  "IPv4SrcAddr raw = (if length raw < 16 then None else Some (subslice raw 12 16))"

definition IPv4DstAddr :: "byte list \<Rightarrow> byte list option" where
  "IPv4DstAddr raw = (if length raw < 20 then None else Some (subslice raw 16 20))"

definition IPv4TotalLen :: "byte list \<Rightarrow> u16" where
  "IPv4TotalLen raw = (if length raw < 4 then 0 else be16 (raw ! 2) (raw ! 3))"

definition SetIPv4TotalLen :: "byte list \<Rightarrow> u16 \<Rightarrow> byte list" where
  "SetIPv4TotalLen raw len = (if length raw < 4 then raw else write_at 2 (put16 len) raw)"

definition IPv4Ident :: "byte list \<Rightarrow> u16" where
  "IPv4Ident raw = (if length raw < 6 then 0 else be16 (raw ! 4) (raw ! 5))"

definition SetIPv4Ident :: "byte list \<Rightarrow> u16 \<Rightarrow> byte list" where
  "SetIPv4Ident raw ident = (if length raw < 6 then raw else write_at 4 (put16 ident) raw)"

definition ClearIPv4DontFragment :: "byte list \<Rightarrow> byte list" where
  "ClearIPv4DontFragment raw =
     (if length raw < 7 \<or> IPVersion raw \<noteq> 4 then raw
      else raw[6 := raw ! 6 AND NOT 0x40])"

definition TCPSrcPort :: "byte list \<Rightarrow> u16" where
  "TCPSrcPort raw =
     (let off = tcpOffset raw in
      if length raw < off + 4 then 0 else be16 (raw ! off) (raw ! (off + 1)))"

definition TCPDstPort :: "byte list \<Rightarrow> u16" where
  "TCPDstPort raw =
     (let off = tcpOffset raw in
      if length raw < off + 4 then 0 else be16 (raw ! (off + 2)) (raw ! (off + 3)))"

definition TCPSeqNum :: "byte list \<Rightarrow> u32" where
  "TCPSeqNum raw =
     (let off = tcpOffset raw in
      if length raw < off + 8 then 0
      else be32 (raw ! (off + 4)) (raw ! (off + 5)) (raw ! (off + 6)) (raw ! (off + 7)))"

definition SetTCPSeqNum :: "byte list \<Rightarrow> u32 \<Rightarrow> byte list" where
  "SetTCPSeqNum raw seq =
     (let off = tcpOffset raw in
      if length raw < off + 8 then raw else write_at (off + 4) (put32 seq) raw)"

definition TCPAckNum :: "byte list \<Rightarrow> u32" where
  "TCPAckNum raw =
     (let off = tcpOffset raw in
      if length raw < off + 12 then 0
      else be32 (raw ! (off + 8)) (raw ! (off + 9)) (raw ! (off + 10)) (raw ! (off + 11)))"

definition SetTCPAckNum :: "byte list \<Rightarrow> u32 \<Rightarrow> byte list" where
  "SetTCPAckNum raw ack =
     (let off = tcpOffset raw in
      if length raw < off + 12 then raw else write_at (off + 8) (put32 ack) raw)"

definition TCPDataOffset :: "byte list \<Rightarrow> nat" where
  "TCPDataOffset raw =
     (let off = tcpOffset raw in
      if length raw < off + 13 then 0 else unat (drop_bit 4 (raw ! (off + 12))) * 4)"

definition noTCPFlags :: TCPFlags where
  "noTCPFlags = \<lparr>SYN = False, ACK = False, RST = False, FIN = False, PSH = False, URG = False\<rparr>"

definition GetTCPFlags :: "byte list \<Rightarrow> TCPFlags" where
  "GetTCPFlags raw =
     (let off = tcpOffset raw in
      if length raw < off + 14 then noTCPFlags
      else let flags = raw ! (off + 13) in
        \<lparr>SYN = (flags AND 0x02 \<noteq> 0),
         ACK = (flags AND 0x10 \<noteq> 0),
         RST = (flags AND 0x04 \<noteq> 0),
         FIN = (flags AND 0x01 \<noteq> 0),
         PSH = (flags AND 0x08 \<noteq> 0),
         URG = (flags AND 0x20 \<noteq> 0)\<rparr>)"

definition flagMask :: "string \<Rightarrow> byte" where
  "flagMask flag =
     (if flag = ''fin'' then 0x01
      else if flag = ''syn'' then 0x02
      else if flag = ''rst'' then 0x04
      else if flag = ''psh'' then 0x08
      else if flag = ''ack'' then 0x10
      else if flag = ''urg'' then 0x20
      else 0)"

definition SetTCPFlag :: "byte list \<Rightarrow> string \<Rightarrow> bool \<Rightarrow> byte list" where
  "SetTCPFlag raw flag v =
     (let off = tcpOffset raw in
      if length raw < off + 14 then raw
      else if v then raw[off + 13 := raw ! (off + 13) OR flagMask flag]
      else raw[off + 13 := raw ! (off + 13) AND NOT (flagMask flag)])"

definition TCPPayload :: "byte list \<Rightarrow> byte list option" where
  "TCPPayload raw =
     (let payloadStart = IPHeaderLen raw + TCPDataOffset raw in
      if payloadStart \<ge> length raw then None else Some (drop payloadStart raw))"

definition TCPPayloadLen :: "byte list \<Rightarrow> nat" where
  "TCPPayloadLen raw = (case TCPPayload raw of None \<Rightarrow> 0 | Some p \<Rightarrow> length p)"

definition SetTCPPayload :: "byte list \<Rightarrow> byte list \<Rightarrow> byte list option" where
  "SetTCPPayload raw payload =
     (if length raw < 20 then None
      else let ipHdrLen = IPHeaderLen raw in
      if ipHdrLen < 20 \<or> ipHdrLen > 60 \<or> length raw < ipHdrLen then None
      else let tcpHdrLen = TCPDataOffset raw in
      if tcpHdrLen < 20 \<or> tcpHdrLen > 60 then None
      else let headerTotal = ipHdrLen + tcpHdrLen in
      if headerTotal > length raw \<or> headerTotal < ipHdrLen + 20 then None
      else let newRaw = take headerTotal raw @ payload in
        Some (SetIPv4TotalLen newRaw (of_nat (length newRaw))))"

text \<open>\<^verbatim>\<open>net.IP.String\<close> on the two shapes the accessors return, and the one-line packet
  description; the arrow of the format string is three UTF-8 bytes.\<close>

definition IP_String :: "byte list option \<Rightarrow> string" where
  "IP_String ip = (case ip of
     Some [a, b, c, d] \<Rightarrow> decimal (unat a) @ ''.'' @ decimal (unat b) @ ''.'' @
       decimal (unat c) @ ''.'' @ decimal (unat d)
   | _ \<Rightarrow> ''<nil>'')"

definition PacketSummary :: "byte list \<Rightarrow> string" where
  "PacketSummary raw =
     (if length raw < 40 then ''<packet too short: '' @ decimal (length raw) @ '' bytes>''
      else let flags = GetTCPFlags raw;
        flagStr =
          (if SYN flags then ''SYN '' else []) @ (if ACK flags then ''ACK '' else []) @
          (if RST flags then ''RST '' else []) @ (if FIN flags then ''FIN '' else []) @
          (if PSH flags then ''PSH '' else [])
      in IP_String (IPv4SrcAddr raw) @ '':'' @ decimal (unat (TCPSrcPort raw)) @
         '' '' @ [CHR 0xE2, CHR 0x86, CHR 0x92] @ '' '' @
         IP_String (IPv4DstAddr raw) @ '':'' @ decimal (unat (TCPDstPort raw)) @
         '' ['' @ flagStr @ ''] seq='' @ decimal (unat (TCPSeqNum raw)) @
         '' ack='' @ decimal (unat (TCPAckNum raw)) @
         '' payload='' @ decimal (TCPPayloadLen raw))"

section \<open>Shape of the header fields\<close>

lemma IPHeaderLen_le_60: "IPHeaderLen raw \<le> 60"
proof -
  have "unat (raw ! 0 AND 0x0F) \<le> unat (0x0F :: byte)"
    by (rule word_and_le1 [THEN word_le_nat_alt [THEN iffD1]])
  then show ?thesis by (simp add: IPHeaderLen_def)
qed

lemma TCPDataOffset_le_60: "TCPDataOffset raw \<le> 60"
proof -
  have "unat (drop_bit 4 b) < 16" for b :: byte
    using less_mult_imp_div_less [of "unat b" 16 16] by (simp add: drop_bit_eq_div unat_div)
  then show ?thesis by (simp add: TCPDataOffset_def Let_def Suc_le_eq [symmetric] less_Suc_eq_le)
qed

text \<open>A packet whose IPv4 and TCP headers are complete: the condition under which the
  setters of the injection path all take effect.\<close>

definition valid_headers :: "byte list \<Rightarrow> bool" where
  "valid_headers raw \<longleftrightarrow>
     20 \<le> IPHeaderLen raw \<and> 20 \<le> TCPDataOffset raw \<and>
     IPHeaderLen raw + TCPDataOffset raw \<le> length raw"

lemma SetTCPPayload_eq:
  "SetTCPPayload raw payload =
    (if valid_headers raw
     then Some (write_at 2 (put16 (of_nat (IPHeaderLen raw + TCPDataOffset raw + length payload)))
                 (take (IPHeaderLen raw + TCPDataOffset raw) raw @ payload))
     else None)"
  using IPHeaderLen_le_60 [of raw] TCPDataOffset_le_60 [of raw]
  by (auto simp: SetTCPPayload_def valid_headers_def Let_def SetIPv4TotalLen_def min_def)

section \<open>What the setters write\<close>

lemma SetIPv4TotalLen_writes [writes]: "agree_except {2, 3} raw (SetIPv4TotalLen raw v)"
  using agree_except_write_at [of 2 "put16 v" raw]
  by (auto simp: SetIPv4TotalLen_def elim!: agree_except_mono)

lemma SetIPv4Ident_writes [writes]: "agree_except {4, 5} raw (SetIPv4Ident raw v)"
  using agree_except_write_at [of 4 "put16 v" raw]
  by (auto simp: SetIPv4Ident_def elim!: agree_except_mono)

lemma ClearIPv4DontFragment_writes [writes]: "agree_except {6} raw (ClearIPv4DontFragment raw)"
  by (auto simp: ClearIPv4DontFragment_def intro: agree_except_list_update)

lemma SetTCPSeqNum_writes [writes]:
  "agree_except {IPHeaderLen raw + 4 ..< IPHeaderLen raw + 8} raw (SetTCPSeqNum raw v)"
  using agree_except_write_at [of "IPHeaderLen raw + 4" "put32 v" raw]
  by (auto simp: SetTCPSeqNum_def tcpOffset_def Let_def elim!: agree_except_mono)

lemma SetTCPAckNum_writes [writes]:
  "agree_except {IPHeaderLen raw + 8 ..< IPHeaderLen raw + 12} raw (SetTCPAckNum raw v)"
  using agree_except_write_at [of "IPHeaderLen raw + 8" "put32 v" raw]
  by (auto simp: SetTCPAckNum_def tcpOffset_def Let_def elim!: agree_except_mono)

lemma SetTCPFlag_writes [writes]:
  "agree_except {IPHeaderLen raw + 13} raw (SetTCPFlag raw flag v)"
  by (auto simp: SetTCPFlag_def tcpOffset_def Let_def intro: agree_except_list_update)

section \<open>What the accessors read\<close>

lemma IPVersion_reads [reads]: "agree_except A xs ys \<Longrightarrow> 0 \<notin> A \<Longrightarrow> IPVersion ys = IPVersion xs"
  by (auto simp: IPVersion_def agree_except_def)

lemma IPHeaderLen_reads [reads]: "agree_except A xs ys \<Longrightarrow> 0 \<notin> A \<Longrightarrow> IPHeaderLen ys = IPHeaderLen xs"
  by (auto simp: IPHeaderLen_def agree_except_def)

lemma IPv4SrcAddr_reads [reads]:
  "agree_except A xs ys \<Longrightarrow> A \<inter> {12 ..< 16} = {} \<Longrightarrow> IPv4SrcAddr ys = IPv4SrcAddr xs"
  by (simp add: IPv4SrcAddr_def agree_except_length agree_except_subslice)

lemma IPv4DstAddr_reads [reads]:
  "agree_except A xs ys \<Longrightarrow> A \<inter> {16 ..< 20} = {} \<Longrightarrow> IPv4DstAddr ys = IPv4DstAddr xs"
  by (simp add: IPv4DstAddr_def agree_except_length agree_except_subslice)

lemma IPv4TotalLen_reads [reads]:
  "agree_except A xs ys \<Longrightarrow> 2 \<notin> A \<Longrightarrow> 3 \<notin> A \<Longrightarrow> IPv4TotalLen ys = IPv4TotalLen xs"
  by (simp add: IPv4TotalLen_def agree_except_def)

lemma IPv4Ident_reads [reads]:
  "agree_except A xs ys \<Longrightarrow> 4 \<notin> A \<Longrightarrow> 5 \<notin> A \<Longrightarrow> IPv4Ident ys = IPv4Ident xs"
  by (simp add: IPv4Ident_def agree_except_def)

lemma TCPSrcPort_reads [reads]:
  assumes a: "agree_except A xs ys" and z: "0 \<notin> A"
    and d: "A \<inter> {IPHeaderLen xs ..< IPHeaderLen xs + 2} = {}"
  shows "TCPSrcPort ys = TCPSrcPort xs"
  using agree_except_nth_in [OF a d]
  by (simp add: TCPSrcPort_def tcpOffset_def Let_def IPHeaderLen_reads [OF a z] agree_except_length [OF a])

lemma TCPDstPort_reads [reads]:
  assumes a: "agree_except A xs ys" and z: "0 \<notin> A"
    and d: "A \<inter> {IPHeaderLen xs + 2 ..< IPHeaderLen xs + 4} = {}"
  shows "TCPDstPort ys = TCPDstPort xs"
  using agree_except_nth_in [OF a d]
  by (simp add: TCPDstPort_def tcpOffset_def Let_def IPHeaderLen_reads [OF a z] agree_except_length [OF a])

lemma TCPSeqNum_reads [reads]:
  assumes a: "agree_except A xs ys" and z: "0 \<notin> A"
    and d: "A \<inter> {IPHeaderLen xs + 4 ..< IPHeaderLen xs + 8} = {}"
  shows "TCPSeqNum ys = TCPSeqNum xs"
  using agree_except_nth_in [OF a d]
  by (simp add: TCPSeqNum_def tcpOffset_def Let_def IPHeaderLen_reads [OF a z] agree_except_length [OF a])

lemma TCPAckNum_reads [reads]:
  assumes a: "agree_except A xs ys" and z: "0 \<notin> A"
    and d: "A \<inter> {IPHeaderLen xs + 8 ..< IPHeaderLen xs + 12} = {}"
  shows "TCPAckNum ys = TCPAckNum xs"
  using agree_except_nth_in [OF a d]
  by (simp add: TCPAckNum_def tcpOffset_def Let_def IPHeaderLen_reads [OF a z] agree_except_length [OF a])

lemma TCPDataOffset_reads [reads]:
  "agree_except A xs ys \<Longrightarrow> 0 \<notin> A \<Longrightarrow> IPHeaderLen xs + 12 \<notin> A \<Longrightarrow>
    TCPDataOffset ys = TCPDataOffset xs"
  by (simp add: TCPDataOffset_def tcpOffset_def Let_def IPHeaderLen_reads agree_except_length)
    (auto simp: agree_except_def)

lemma GetTCPFlags_reads [reads]:
  "agree_except A xs ys \<Longrightarrow> 0 \<notin> A \<Longrightarrow> IPHeaderLen xs + 13 \<notin> A \<Longrightarrow>
    GetTCPFlags ys = GetTCPFlags xs"
  by (simp add: GetTCPFlags_def tcpOffset_def Let_def IPHeaderLen_reads agree_except_length)
    (auto simp: agree_except_def)

lemma TCPPayload_reads [reads]:
  assumes "agree_except A xs ys" and "0 \<notin> A" and "IPHeaderLen xs + 12 \<notin> A"
    and "A \<inter> {IPHeaderLen xs + TCPDataOffset xs ..} = {}"
  shows "TCPPayload ys = TCPPayload xs"
  using assms
  by (simp add: TCPPayload_def Let_def IPHeaderLen_reads TCPDataOffset_reads
      agree_except_length agree_except_drop)

lemma valid_headers_reads [reads]:
  "agree_except A xs ys \<Longrightarrow> 0 \<notin> A \<Longrightarrow> IPHeaderLen xs + 12 \<notin> A \<Longrightarrow>
    valid_headers ys = valid_headers xs"
  by (simp add: valid_headers_def IPHeaderLen_reads TCPDataOffset_reads agree_except_length)

section \<open>Fields: the contract of a getter and its setter\<close>

text \<open>
  A header field is a getter and a setter over the same bytes. \<open>room\<close> is the length guard both
  functions test, \<open>off\<close> the position of the field and \<open>enc\<close> its encoding. The laws below are
  what clients of the packet package rely on; the interpretations discharge them for every
  field of \<^verbatim>\<open>packet/tcp.go\<close> that has a setter.
\<close>

locale header_field =
  fixes get :: "byte list \<Rightarrow> 'v"
    and put :: "byte list \<Rightarrow> 'v \<Rightarrow> byte list"
    and enc :: "'v \<Rightarrow> byte list"
    and off :: "byte list \<Rightarrow> nat"
    and room :: "byte list \<Rightarrow> bool"
    and width :: nat
  assumes enc_width: "length (enc v) = width"
    and put_room: "room raw \<Longrightarrow> put raw v = write_at (off raw) (enc v) raw"
    and put_short: "\<not> room raw \<Longrightarrow> put raw v = raw"
    and room_fits: "room raw \<Longrightarrow> off raw + width \<le> length raw"
    and get_enc: "room raw \<Longrightarrow> subslice raw (off raw) (off raw + width) = enc v \<Longrightarrow> get raw = v"
    and off_put: "off (put raw v) = off raw"
    and room_put: "room (put raw v) = room raw"
begin

lemma length_put: "length (put raw v) = length raw"
  by (cases "room raw") (simp_all add: put_room put_short room_fits enc_width)

lemma get_put:
  assumes "room raw"
  shows "get (put raw v) = v"
proof (rule get_enc)
  show "room (put raw v)" using assms by (simp add: room_put)
  show "subslice (put raw v) (off (put raw v)) (off (put raw v) + width) = enc v"
    unfolding off_put using assms subslice_write_at [of "off raw" "enc v" raw]
    by (simp add: put_room room_fits enc_width)
qed

lemma put_put: "put (put raw v) w = put raw w"
proof (cases "room raw")
  case True
  then have "put (put raw v) w = write_at (off raw) (enc w) (write_at (off raw) (enc v) raw)"
    by (metis off_put put_room room_put)
  then show ?thesis
    using True room_fits [OF True] by (simp add: put_room enc_width write_at_def)
next
  case False
  then show ?thesis by (simp add: put_short)
qed

lemma put_frame: "agree_except {off raw ..< off raw + width} raw (put raw v)"
  using agree_except_write_at [of "off raw" "enc v" raw]
  by (cases "room raw") (simp_all add: put_room put_short room_fits enc_width)

end

lemma be16_of_subslice:
  assumes "i + 2 \<le> length raw" and "subslice raw i (i + 2) = put16 v"
  shows "be16 (raw ! i) (raw ! (i + 1)) = v"
proof -
  have "raw ! i = put16 v ! 0" "raw ! (i + 1) = put16 v ! 1"
    using assms(1) by (simp_all flip: assms(2))
  then show ?thesis by (simp add: put16_def)
qed

lemma be32_of_subslice:
  assumes "i + 4 \<le> length raw" and "subslice raw i (i + 4) = put32 v"
  shows "be32 (raw ! i) (raw ! (i + 1)) (raw ! (i + 2)) (raw ! (i + 3)) = v"
proof -
  have "raw ! i = put32 v ! 0" "raw ! (i + 1) = put32 v ! 1"
    "raw ! (i + 2) = put32 v ! 2" "raw ! (i + 3) = put32 v ! 3"
    using assms(1) by (simp_all flip: assms(2))
  then show ?thesis by (simp add: put32_def)
qed

lemma IPHeaderLen_SetTCPSeqNum [simp]: "IPHeaderLen (SetTCPSeqNum raw v) = IPHeaderLen raw"
  by (rule IPHeaderLen_reads [OF SetTCPSeqNum_writes]) simp

lemma IPHeaderLen_SetTCPAckNum [simp]: "IPHeaderLen (SetTCPAckNum raw v) = IPHeaderLen raw"
  by (rule IPHeaderLen_reads [OF SetTCPAckNum_writes]) simp

interpretation total_len: header_field IPv4TotalLen SetIPv4TotalLen put16 "\<lambda>_. 2"
  "\<lambda>raw. 4 \<le> length raw" 2
  using be16_of_subslice [of 2]
  by unfold_locales (auto simp: IPv4TotalLen_def SetIPv4TotalLen_def)

interpretation ident: header_field IPv4Ident SetIPv4Ident put16 "\<lambda>_. 4"
  "\<lambda>raw. 6 \<le> length raw" 2
  using be16_of_subslice [of 4]
  by unfold_locales (auto simp: IPv4Ident_def SetIPv4Ident_def)

interpretation seq_num: header_field TCPSeqNum SetTCPSeqNum put32 "\<lambda>raw. IPHeaderLen raw + 4"
  "\<lambda>raw. IPHeaderLen raw + 8 \<le> length raw" 4
proof
  fix raw :: "byte list" and v :: u32
  show "(IPHeaderLen (SetTCPSeqNum raw v) + 8 \<le> length (SetTCPSeqNum raw v)) =
      (IPHeaderLen raw + 8 \<le> length raw)"
    using agree_except_length [OF SetTCPSeqNum_writes, of raw v] by simp
  show "TCPSeqNum raw = v" if "IPHeaderLen raw + 8 \<le> length raw"
    and "subslice raw (IPHeaderLen raw + 4) (IPHeaderLen raw + 4 + 4) = put32 v"
    using that be32_of_subslice [of "IPHeaderLen raw + 4" raw v]
    by (simp add: TCPSeqNum_def tcpOffset_def Let_def ac_simps)
qed (simp_all, simp_all add: SetTCPSeqNum_def tcpOffset_def)

interpretation ack_num: header_field TCPAckNum SetTCPAckNum put32 "\<lambda>raw. IPHeaderLen raw + 8"
  "\<lambda>raw. IPHeaderLen raw + 12 \<le> length raw" 4
proof
  fix raw :: "byte list" and v :: u32
  show "(IPHeaderLen (SetTCPAckNum raw v) + 12 \<le> length (SetTCPAckNum raw v)) =
      (IPHeaderLen raw + 12 \<le> length raw)"
    using agree_except_length [OF SetTCPAckNum_writes, of raw v] by simp
  show "TCPAckNum raw = v" if "IPHeaderLen raw + 12 \<le> length raw"
    and "subslice raw (IPHeaderLen raw + 8) (IPHeaderLen raw + 8 + 4) = put32 v"
    using that be32_of_subslice [of "IPHeaderLen raw + 8" raw v]
    by (simp add: TCPAckNum_def tcpOffset_def Let_def ac_simps)
qed (simp_all, simp_all add: SetTCPAckNum_def tcpOffset_def)

section \<open>Flags\<close>

text \<open>What \<open>SetTCPFlag\<close> promises, on the decoded flags.\<close>

definition with_flag :: "string \<Rightarrow> bool \<Rightarrow> TCPFlags \<Rightarrow> TCPFlags" where
  "with_flag flag v f =
     (if flag = ''fin'' then f\<lparr>FIN := v\<rparr>
      else if flag = ''syn'' then f\<lparr>SYN := v\<rparr>
      else if flag = ''rst'' then f\<lparr>RST := v\<rparr>
      else if flag = ''psh'' then f\<lparr>PSH := v\<rparr>
      else if flag = ''ack'' then f\<lparr>ACK := v\<rparr>
      else if flag = ''urg'' then f\<lparr>URG := v\<rparr>
      else f)"

lemma flag_bits:
  "(b :: byte) AND 0x01 = 0 \<longleftrightarrow> \<not> bit b 0" "b AND 0x02 = 0 \<longleftrightarrow> \<not> bit b 1"
  "b AND 0x04 = 0 \<longleftrightarrow> \<not> bit b 2" "b AND 0x08 = 0 \<longleftrightarrow> \<not> bit b 3"
  "b AND 0x10 = 0 \<longleftrightarrow> \<not> bit b 4" "b AND 0x20 = 0 \<longleftrightarrow> \<not> bit b 5" "b AND 0x40 = 0 \<longleftrightarrow> \<not> bit b 6"
  using and_exp_eq_0_iff_not_bit [of b 0] and_exp_eq_0_iff_not_bit [of b 1]
    and_exp_eq_0_iff_not_bit [of b 2] and_exp_eq_0_iff_not_bit [of b 3]
    and_exp_eq_0_iff_not_bit [of b 4] and_exp_eq_0_iff_not_bit [of b 5]
    and_exp_eq_0_iff_not_bit [of b 6]
  by simp_all

lemma bit_exp_byte: "k < 8 \<Longrightarrow> bit (2 ^ k :: byte) n \<longleftrightarrow> n = k"
  by (auto simp: bit_exp_iff)

lemma mask_bits:
  "bit (0x01 :: byte) n \<longleftrightarrow> n = 0" "bit (0x02 :: byte) n \<longleftrightarrow> n = 1"
  "bit (0x04 :: byte) n \<longleftrightarrow> n = 2" "bit (0x08 :: byte) n \<longleftrightarrow> n = 3"
  "bit (0x10 :: byte) n \<longleftrightarrow> n = 4" "bit (0x20 :: byte) n \<longleftrightarrow> n = 5" "bit (0x40 :: byte) n \<longleftrightarrow> n = 6"
  using bit_exp_byte [of 0] bit_exp_byte [of 1] bit_exp_byte [of 2] bit_exp_byte [of 3]
    bit_exp_byte [of 4] bit_exp_byte [of 5] bit_exp_byte [of 6]
  by simp_all

lemma IPHeaderLen_SetTCPFlag [simp]: "IPHeaderLen (SetTCPFlag raw flag v) = IPHeaderLen raw"
  by (rule IPHeaderLen_reads [OF SetTCPFlag_writes]) simp

lemma SetTCPFlag_get:
  assumes "IPHeaderLen raw + 14 \<le> length raw"
  shows "GetTCPFlags (SetTCPFlag raw flag v) = with_flag flag v (GetTCPFlags raw)"
proof -
  have len: "length (SetTCPFlag raw flag v) = length raw"
    by (rule agree_except_length [OF SetTCPFlag_writes])
  have byte: "SetTCPFlag raw flag v ! (IPHeaderLen raw + 13) =
    (if v then raw ! (IPHeaderLen raw + 13) OR flagMask flag
     else raw ! (IPHeaderLen raw + 13) AND NOT (flagMask flag))"
    using assms by (simp add: SetTCPFlag_def tcpOffset_def Let_def)
  show ?thesis
    using assms
    by (simp add: GetTCPFlags_def tcpOffset_def Let_def len byte flag_bits bit_simps
        flagMask_def with_flag_def mask_bits)
qed

section \<open>Payload replacement\<close>

lemma SetTCPPayload_SomeD:
  assumes "SetTCPPayload raw payload = Some pkt"
  defines "h \<equiv> IPHeaderLen raw + TCPDataOffset raw"
  shows "valid_headers raw" and "length pkt = h + length payload"
    and "agree_except {2, 3} (take h raw @ payload) pkt"
    and "drop h pkt = payload"
    and "IPv4TotalLen pkt = of_nat (length pkt)"
    and "IPHeaderLen pkt = IPHeaderLen raw" and "TCPDataOffset pkt = TCPDataOffset raw"
proof -
  let ?new = "take h raw @ payload"
  from assms have v: "valid_headers raw"
    and pkt: "pkt = SetIPv4TotalLen ?new (of_nat (length ?new))"
    by (auto simp: SetTCPPayload_eq SetIPv4TotalLen_def valid_headers_def split: if_splits)
  show "valid_headers raw" by (fact v)
  from v have h: "h \<le> length raw" "40 \<le> h" "IPHeaderLen raw + 20 \<le> h"
    by (auto simp: valid_headers_def h_def)
  show w: "agree_except {2, 3} ?new pkt"
    unfolding pkt by (rule SetIPv4TotalLen_writes)
  show len: "length pkt = h + length payload"
    using agree_except_length [OF w] h by simp
  show "drop h pkt = payload"
    using agree_except_drop [OF w, of h] h by simp
  show "IPv4TotalLen pkt = of_nat (length pkt)"
    using h unfolding len by (simp add: pkt total_len.get_put)
  have hdr: "IPHeaderLen ?new = IPHeaderLen raw"
    using h by (auto simp: IPHeaderLen_def nth_append)
  show ip: "IPHeaderLen pkt = IPHeaderLen raw"
    using IPHeaderLen_reads [OF w] hdr by simp
  have "TCPDataOffset ?new = TCPDataOffset raw"
    using h by (simp add: TCPDataOffset_def tcpOffset_def hdr Let_def nth_append)
  then show "TCPDataOffset pkt = TCPDataOffset raw"
    using TCPDataOffset_reads [OF w] hdr v by (simp add: valid_headers_def)
qed

text \<open>A concrete packet for the witnesses: the third handshake ACK of
  \<^verbatim>\<open>10.0.0.2:50000\<close> to \<^verbatim>\<open>104.19.229.21:443\<close>, sequence number 1001, acknowledging 5001.\<close>

definition sample_ack :: "byte list" where
  "sample_ack =
    [0x45, 0, 0, 40, 0x12, 0x34, 0x40, 0, 64, 6, 0, 0, 10, 0, 0, 2, 104, 19, 229, 21,
     0xC3, 0x50, 1, 0xBB, 0, 0, 3, 0xE9, 0, 0, 0x13, 0x89, 0x50, 0x10, 0xFF, 0xFF, 0, 0, 0, 0]"

text \<open>
  \<open>SetTCPPayload\<close> returns \<^verbatim>\<open>nil\<close> exactly when the IPv4 or TCP header of its argument is
  invalid; otherwise the result carries the old headers with only the IPv4 total length
  rewritten, then exactly the new payload, and the total length field is the packet's length
  (modulo \<open>2 ^ 16\<close>).
\<close>

lemma SetTCPPayload_correct:
  "case SetTCPPayload raw payload of
     None \<Rightarrow> \<not> valid_headers raw
   | Some pkt \<Rightarrow>
       valid_headers raw \<and>
       agree_except {2, 3} (take (IPHeaderLen raw + TCPDataOffset raw) raw @ payload) pkt \<and>
       drop (IPHeaderLen pkt + TCPDataOffset pkt) pkt = payload \<and>
       IPv4TotalLen pkt = of_nat (length pkt) \<and>
       IPHeaderLen pkt = IPHeaderLen raw \<and> TCPDataOffset pkt = TCPDataOffset raw"
proof (cases "SetTCPPayload raw payload")
  case None
  then show ?thesis by (simp add: SetTCPPayload_eq split: if_splits)
next
  case (Some pkt)
  then show ?thesis using SetTCPPayload_SomeD [OF Some] by simp
qed

text \<open>
  Setting a TCP flag changes exactly that flag: reading the flags back gives the old flags
  with the named one replaced, and no byte but the flag byte of the TCP header changes.
\<close>

lemma SetTCPFlag_correct:
  assumes "IPHeaderLen raw + 14 \<le> length raw"
  shows "GetTCPFlags (SetTCPFlag raw flag v) = with_flag flag v (GetTCPFlags raw) \<and>
    agree_except {IPHeaderLen raw + 13} raw (SetTCPFlag raw flag v)"
  using SetTCPFlag_get [OF assms] SetTCPFlag_writes by blast

end
