(* ===== verification/Checksum.thy ===== *)
theory Checksum
  imports Packet
begin

text \<open>
  Model of \<^verbatim>\<open>packet/checksum_ipv4.go\<close>: the Internet checksum (RFC 1071) with deferred carries
  in a 32-bit accumulator, and its use for the IPv4 header and the TCP segment with its
  pseudo header. The lemmas relate the machine arithmetic to the sum of the 16-bit words as
  a natural number (\<open>sum16\<close>) and to the reference definition of RFC 1071, one's complement
  addition word by word (\<open>rfc1071\<close>).
\<close>

section \<open>The code\<close>

text \<open>The summing loop \<^verbatim>\<open>for i := 0; i < len(data)-1; i += 2\<close>.\<close>

function sumLoop :: "byte list \<Rightarrow> nat \<Rightarrow> u32 \<Rightarrow> u32" where
  "sumLoop data i acc =
     (if i + 1 < length data
      then sumLoop data (i + 2) (acc + ucast (be16 (data ! i) (data ! (i + 1))))
      else acc)"
  by pat_completeness auto
termination
  by (relation "measure (\<lambda>(data, i, _). length data - i)") auto

declare sumLoop.simps [simp del]

text \<open>The carry loop \<^verbatim>\<open>for sum > 0xffff\<close>; it stops because the value decreases.\<close>

lemma carry_less:
  fixes s :: u32
  assumes "s > 0xffff"
  shows "unat (drop_bit 16 s + (s AND 0xffff)) = unat s div 65536 + unat s mod 65536"
    and "unat (drop_bit 16 s + (s AND 0xffff)) < unat s"
proof -
  have u: "unat s < 2 ^ 32" using unsigned_less [of s] by simp
  have hi: "unat (drop_bit 16 s) = unat s div 65536"
    by (simp add: drop_bit_eq_div unat_div)
  have "s AND 0xffff = take_bit 16 s"
    by (simp add: take_bit_eq_mask mask_eq_exp_minus_1)
  then have lo: "unat (s AND 0xffff) = unat s mod 65536"
    by (simp add: take_bit_eq_mod unat_mod)
  have q: "unat s div 65536 < 65536" using u by (simp add: less_mult_imp_div_less)
  have r: "unat s mod 65536 < 65536" by simp
  have "unat s div 65536 + unat s mod 65536 < 2 ^ 32" using q r by simp
  then show eq: "unat (drop_bit 16 s + (s AND 0xffff)) = unat s div 65536 + unat s mod 65536"
    by (simp add: unat_word_ariths hi lo)
  have "65536 \<le> unat s" using assms by (simp add: word_less_nat_alt)
  then have "0 < unat s div 65536" by (simp add: div_greater_zero_iff)
  moreover have "unat s = 65536 * (unat s div 65536) + unat s mod 65536" by simp
  ultimately show "unat (drop_bit 16 s + (s AND 0xffff)) < unat s"
    unfolding eq by linarith
qed

function foldCarry :: "u32 \<Rightarrow> u32" where
  "foldCarry acc = (if acc > 0xffff then foldCarry (drop_bit 16 acc + (acc AND 0xffff)) else acc)"
  by pat_completeness auto
termination
  by (relation "measure unat") (simp, simp add: carry_less(2))

declare foldCarry.simps [simp del]

definition checksumRFC1071 :: "byte list \<Rightarrow> u16" where
  "checksumRFC1071 data =
     (let acc = sumLoop data 0 0;
          acc = (if length data mod 2 = 1
                 then acc + push_bit 8 (ucast (data ! (length data - 1))) else acc)
      in NOT (ucast (foldCarry acc)))"

definition ipv4HeaderChecksum :: "byte list \<Rightarrow> byte list" where
  "ipv4HeaderChecksum raw =
     (let ipHdrLen = IPHeaderLen raw in
      if ipHdrLen < 20 \<or> length raw < ipHdrLen then raw
      else let raw = raw[10 := 0, 11 := 0];
               acc = checksumRFC1071 (take ipHdrLen raw)
           in write_at 10 (put16 acc) raw)"

text \<open>\<^verbatim>\<open>net.IP.To4\<close>: a 4-byte address is itself, a 16-byte one must be IPv4-mapped.\<close>

definition IP_To4 :: "byte list \<Rightarrow> byte list option" where
  "IP_To4 ip =
     (if length ip = 4 then Some ip
      else if length ip = 16 \<and> take 12 ip = replicate 10 0 @ [0xff, 0xff] then Some (drop 12 ip)
      else None)"

definition tcpPseudo :: "byte list \<Rightarrow> byte list \<Rightarrow> nat \<Rightarrow> byte list" where
  "tcpPseudo srcIP dstIP tcpLen = srcIP @ dstIP @ [0, 6] @ put16 (of_nat tcpLen)"

definition tcpChecksumIPv4 :: "byte list \<Rightarrow> byte list" where
  "tcpChecksumIPv4 raw =
     (let ipHdrLen = IPHeaderLen raw in
      if ipHdrLen < 20 \<or> length raw < ipHdrLen + 20 then raw
      else (case (IP_To4 (subslice raw 12 16), IP_To4 (subslice raw 16 20)) of
        (Some srcIP, Some dstIP) \<Rightarrow>
          let tcpSegment = drop ipHdrLen raw in
          if length tcpSegment < 20 then raw
          else let tcpLen = length tcpSegment;
                   tcpSegment = tcpSegment[16 := 0, 17 := 0];
                   data = tcpPseudo srcIP dstIP tcpLen @ tcpSegment;
                   acc = checksumRFC1071 data
               in take ipHdrLen raw @ write_at 16 (put16 acc) tcpSegment
      | _ \<Rightarrow> raw))"

definition RecalculateIPv4AndTCPChecksums :: "byte list \<Rightarrow> byte list" where
  "RecalculateIPv4AndTCPChecksums raw = tcpChecksumIPv4 (ipv4HeaderChecksum raw)"

section \<open>The sum of the 16-bit words\<close>

fun sum16 :: "byte list \<Rightarrow> nat" where
  "sum16 [] = 0"
| "sum16 [a] = unat a * 256"
| "sum16 (a # b # xs) = unat a * 256 + unat b + sum16 xs"

lemma sum16_append: "even (length xs) \<Longrightarrow> sum16 (xs @ ys) = sum16 xs + sum16 ys"
  by (induction xs rule: sum16.induct) auto

lemma sum16_bound: "sum16 xs \<le> 65535 * ((length xs + 1) div 2)"
proof (induction xs rule: sum16.induct)
  case (2 a)
  have "unat a \<le> 255" using unat_byte_less [of a] by linarith
  then show ?case by simp
next
  case (3 a b xs)
  have "unat a \<le> 255" "unat b \<le> 255"
    using unat_byte_less [of a] unat_byte_less [of b] by linarith+
  with 3 show ?case by simp
qed simp

lemma sum16_lt: "length xs \<le> 131070 \<Longrightarrow> sum16 xs + 65535 < 2 ^ 32"
  using sum16_bound [of xs] by (simp add: mult_le_mono2 order_le_less_trans)

lemma sum16_write16:
  assumes "even k" and "k + 2 \<le> length xs"
  shows "sum16 (write_at k (put16 v) xs) = sum16 (write_at k [0, 0] xs) + unat v"
proof -
  have v: "unat v = unat (ucast (drop_bit 8 v) :: byte) * 256 + unat (ucast v :: byte)"
    using unat_be16 [of "ucast (drop_bit 8 v)" "ucast v"] by simp
  have "even (length (take k xs))" using assms by simp
  then show ?thesis
    by (simp add: write_at_def sum16_append put16_def v)
qed

lemma ucast_be16: "(ucast (be16 a b) :: u32) = ucast a * 256 + ucast b"
proof -
  have "(ucast (be16 a b) :: u32) = of_nat (unat (be16 a b))" by simp
  also have "\<dots> = of_nat (unat a * 256 + unat b)" by (simp only: unat_be16)
  finally show ?thesis by simp
qed

lemma sumLoop_drop:
  "even i \<Longrightarrow> i \<le> length data \<Longrightarrow>
    (let s = sumLoop data i acc in
     if length data mod 2 = 1 then s + push_bit 8 (ucast (data ! (length data - 1))) else s)
    = acc + of_nat (sum16 (drop i data))"
  for acc :: u32
proof (induction data i acc rule: sumLoop.induct)
  case (1 data i acc)
  show ?case
  proof (cases "i + 1 < length data")
    case True
    then have d: "drop i data = data ! i # data ! (i + 1) # drop (i + 2) data"
      by (simp add: Cons_nth_drop_Suc [symmetric])
    show ?thesis
      using 1 True unfolding d by (simp add: sumLoop.simps [of data i acc] ucast_be16 add.assoc)
  next
    case False
    with 1(2,3) have "i = length data \<or> i + 1 = length data" by linarith
    then show ?thesis
    proof
      assume i: "i + 1 = length data"
      then have "drop i data = [data ! i]" "length data - 1 = i"
        by (auto simp: Cons_nth_drop_Suc [symmetric])
      moreover have "length data mod 2 = 1" using 1(2) by (simp flip: i) presburger
      moreover have "(push_bit 8 (ucast (data ! i)) :: u32) = of_nat (unat (data ! i) * 256)"
        by (simp add: push_bit_eq_mult mult.commute)
      ultimately show ?thesis
        using False by (simp add: sumLoop.simps [of data i acc])
    qed (use 1(2) in \<open>simp add: sumLoop.simps [of data "length data" acc] mod2_eq_if\<close>)
  qed
qed

section \<open>One's complement arithmetic\<close>

text \<open>The residue in \<open>1..65535\<close> that end-around carries leave; 0 only for the sum 0.\<close>

definition ones_fold :: "nat \<Rightarrow> nat" where
  "ones_fold n = (if n = 0 then 0 else (n - 1) mod 65535 + 1)"

lemma ones_fold_le: "ones_fold n \<le> 65535"
  using mod_less_divisor [of 65535 "n - 1"] by (auto simp: ones_fold_def)

lemma ones_fold_small: "n \<le> 65535 \<Longrightarrow> ones_fold n = n"
  by (auto simp: ones_fold_def)

lemma ones_fold_carry: "ones_fold (q * 65536 + r) = ones_fold (q + r)"
proof (cases "q = 0")
  case False
  then have "q * 65536 + r - 1 = (q + r - 1) + q * 65535" by simp
  then have "(q * 65536 + r - 1) mod 65535 = (q + r - 1) mod 65535"
    by (simp only: mod_mult_self1)
  with False show ?thesis by (simp add: ones_fold_def)
qed simp

lemma unat_foldCarry: "unat (foldCarry s) = ones_fold (unat s)"
proof (induction s rule: foldCarry.induct)
  case (1 s)
  show ?case
  proof (cases "s > 0xffff")
    case True
    have "unat (foldCarry s) = ones_fold (unat s div 65536 + unat s mod 65536)"
      using 1 [OF True] True carry_less(1) [OF True] by (simp add: foldCarry.simps [of s])
    then show ?thesis
      using ones_fold_carry [of "unat s div 65536" "unat s mod 65536"] by simp
  next
    case False
    then have "unat s \<le> 65535" by (simp add: word_less_nat_alt not_less)
    with False show ?thesis by (simp add: foldCarry.simps [of s] ones_fold_small)
  qed
qed

lemma unat_not_u16: "unat (NOT (w :: u16)) = 65535 - unat w"
proof -
  have "NOT w = 0xffff - w" using not_eq_complement [of w] by simp
  moreover have "w \<le> 0xffff"
    using unat_u16_less [of w] by (simp add: word_le_nat_alt less_Suc_eq_le [symmetric] del: unat_u16_less)
  ultimately show ?thesis by (simp add: unat_sub)
qed

lemma unat_checksumRFC1071:
  assumes "sum16 data < 2 ^ 32"
  shows "unat (checksumRFC1071 data) = 65535 - ones_fold (sum16 data)"
proof -
  let ?s = "of_nat (sum16 data) :: u32"
  have "checksumRFC1071 data = NOT (ucast (foldCarry ?s))"
    using sumLoop_drop [of 0 data 0] by (simp add: checksumRFC1071_def Let_def)
  moreover have "unat ?s = sum16 data" using assms by (simp add: unsigned_of_nat take_bit_nat_eq_self_iff)
  then have "unat (foldCarry ?s) = ones_fold (sum16 data)" by (simp add: unat_foldCarry)
  moreover have "unat (ucast (foldCarry ?s) :: u16) = unat (foldCarry ?s)"
    using calculation(2) ones_fold_le [of "sum16 data"]
    by (simp add: unsigned_ucast_eq take_bit_nat_eq_self_iff)
  ultimately show ?thesis by (simp add: unat_not_u16)
qed

lemma ones_fold_complete: "ones_fold (s + (65535 - ones_fold s)) = 65535"
proof (cases "s = 0")
  case False
  define q r where "q = (s - 1) div 65535" and "r = (s - 1) mod 65535"
  have s: "s = q * 65535 + r + 1" using False by (simp add: q_def r_def)
  have "ones_fold s = r + 1" using False by (simp add: ones_fold_def r_def)
  moreover have "r < 65535" by (simp add: r_def)
  ultimately have "s + (65535 - ones_fold s) = q * 65535 + 65534 + 1" by (simp add: s)
  then show ?thesis by (simp add: ones_fold_def)
qed (simp add: ones_fold_def)

text \<open>The property a receiver tests: with the checksum stored at an even offset, the checksum
  of the whole block is 0.\<close>

lemma checksum_verifies:
  assumes "even k" and "k + 2 \<le> length data" and "length data \<le> 131070"
    and "data' = write_at k (put16 (checksumRFC1071 (write_at k [0, 0] data))) data"
  shows "checksumRFC1071 data' = 0"
proof -
  let ?z = "write_at k [0, 0] data"
  have z: "sum16 ?z + 65535 < 2 ^ 32" using assms by (intro sum16_lt) simp
  have "sum16 data' = sum16 ?z + (65535 - ones_fold (sum16 ?z))"
    using assms z by (simp add: sum16_write16 unat_checksumRFC1071)
  moreover from this z have "sum16 data' < 2 ^ 32" by simp
  ultimately have "unat (checksumRFC1071 data') = 0"
    by (simp add: unat_checksumRFC1071 ones_fold_complete)
  then show ?thesis by (simp add: unat_eq_0)
qed

lemma list_update_zero_write:
  "k + 2 \<le> length xs \<Longrightarrow> xs[k := a, Suc k := b] = write_at k [a, b] xs"
  by (rule nth_equalityI) (auto simp: nth_write_at nth_list_update nth_Cons split: nat.splits)

lemma write_at_write_at:
  "length as = length bs \<Longrightarrow> k + length bs \<le> length xs \<Longrightarrow>
    write_at k as (write_at k bs xs) = write_at k as xs"
  by (simp add: write_at_def)

lemma take_write_at: "k + length bs \<le> n \<Longrightarrow> n \<le> length xs \<Longrightarrow>
    take n (write_at k bs xs) = write_at k bs (take n xs)"
  by (cases "n = k") (auto simp: write_at_def min_def drop_take)

lemma append_write_at: "k + length bs \<le> length ys \<Longrightarrow>
    xs @ write_at k bs ys = write_at (length xs + k) bs (xs @ ys)"
  by (simp add: write_at_def)

section \<open>Correctness of the checksum code\<close>

text \<open>RFC 1071's definition: add the 16-bit words (the last byte padded with a zero) in one's
  complement, carrying around after each addition, and complement the result.\<close>

definition oc_add :: "nat \<Rightarrow> nat \<Rightarrow> nat" where
  "oc_add a b = (if a + b < 65536 then a + b else a + b - 65535)"

fun rfc1071_sum :: "nat \<Rightarrow> byte list \<Rightarrow> nat" where
  "rfc1071_sum acc [] = acc"
| "rfc1071_sum acc [a] = oc_add acc (unat a * 256)"
| "rfc1071_sum acc (a # b # xs) = rfc1071_sum (oc_add acc (unat a * 256 + unat b)) xs"

definition rfc1071 :: "byte list \<Rightarrow> u16" where
  "rfc1071 data = NOT (of_nat (rfc1071_sum 0 data))"

lemma ones_fold_oc_add:
  assumes "w \<le> 65535"
  shows "oc_add (ones_fold n) w = ones_fold (n + w)"
proof (cases "n = 0")
  case False
  define q r where "q = (n - 1) div 65535" and "r = (n - 1) mod 65535"
  have n: "n = q * 65535 + r + 1"
    using False by (simp add: q_def r_def)
  have r: "r < 65535" by (simp add: r_def)
  have fold: "ones_fold (k * 65535 + m + 1) = m + 1" if "m < 65535" for k m
    using that by (simp add: ones_fold_def)
  have f: "ones_fold n = r + 1" unfolding n using r by (rule fold)
  show ?thesis
  proof (cases "r + w < 65535")
    case True
    have "ones_fold (n + w) = r + w + 1" unfolding n using fold [OF True, of q] by (simp add: ac_simps)
    with True show ?thesis by (simp add: f oc_add_def)
  next
    case c: False
    then have e: "n + w = (q + 1) * 65535 + (r + w - 65535) + 1" unfolding n by simp
    have "ones_fold (n + w) = r + w - 65535 + 1"
      unfolding e by (rule fold) (use r assms in linarith)
    with c show ?thesis by (simp add: f oc_add_def)
  qed
qed (use assms in \<open>simp add: oc_add_def ones_fold_def\<close>)

lemma rfc1071_sum_eq: "rfc1071_sum (ones_fold n) data = ones_fold (n + sum16 data)"
proof (induction data arbitrary: n rule: sum16.induct)
  case (2 a)
  have "unat a * 256 \<le> 65535" using unat_byte_less [of a] by linarith
  then show ?case by (simp add: ones_fold_oc_add)
next
  case (3 a b xs)
  have "unat a * 256 + unat b \<le> 65535"
    using unat_byte_less [of a] unat_byte_less [of b] by linarith
  with 3 show ?case by (simp add: ones_fold_oc_add add.assoc)
qed simp

text \<open>
  C18. The deferred-carry routine computes the RFC 1071 checksum: on every input of at most
  131070 bytes (any IPv4 packet with its pseudo header) the 32-bit accumulator does not
  overflow and the result is the word-by-word one's complement sum, complemented.
\<close>

theorem checksumRFC1071_reference:
  assumes "length data \<le> 131070"
  shows "checksumRFC1071 data = rfc1071 data"
proof -
  have "unat (checksumRFC1071 data) = 65535 - ones_fold (sum16 data)"
    using sum16_lt [OF assms] by (intro unat_checksumRFC1071) simp
  moreover have "rfc1071_sum 0 data = ones_fold (sum16 data)"
    using rfc1071_sum_eq [of 0 data] by (simp add: ones_fold_def)
  then have "unat (rfc1071 data) = 65535 - ones_fold (sum16 data)"
    using take_bit_nat_eq_self_iff [of 16 "ones_fold (sum16 data)"] ones_fold_le [of "sum16 data"]
    by (simp add: rfc1071_def unat_not_u16 unsigned_of_nat)
  ultimately show ?thesis by (simp add: word_unat_eq_iff)
qed

lemma checksumRFC1071_reference_witness:
  "length [0x45, 0x00, 0x00 :: byte] \<le> 131070 \<and>
   checksumRFC1071 [0x45, 0x00, 0x00] = rfc1071 [0x45, 0x00, 0x00]"
  using checksumRFC1071_reference [of "[0x45, 0x00, 0x00]"] by simp

lemma ipv4HeaderChecksum_writes [writes]: "agree_except {10, 11} raw (ipv4HeaderChecksum raw)"
proof -
  have "agree_except {10, 11} raw (write_at 10 (put16 v) (raw[10 := 0, 11 := 0]))"
    if "20 \<le> length raw" for v
    using that by (auto simp: agree_except_def nth_write_at)
  then show ?thesis
    by (auto simp: ipv4HeaderChecksum_def Let_def)
qed

lemma ipv4HeaderChecksum_ok:
  assumes "20 \<le> IPHeaderLen raw" and "IPHeaderLen raw \<le> length raw"
  shows "checksumRFC1071 (take (IPHeaderLen raw) (ipv4HeaderChecksum raw)) = 0 \<and>
    agree_except {10, 11} raw (ipv4HeaderChecksum raw)"
proof -
  let ?h = "take (IPHeaderLen raw) raw"
  have "take (IPHeaderLen raw) (ipv4HeaderChecksum raw) =
      write_at 10 (put16 (checksumRFC1071 (write_at 10 [0, 0] ?h))) ?h"
    using assms list_update_zero_write [of 10 raw 0 0]
    by (simp add: ipv4HeaderChecksum_def Let_def write_at_write_at take_write_at)
  then have "checksumRFC1071 (take (IPHeaderLen raw) (ipv4HeaderChecksum raw)) = 0"
    using assms IPHeaderLen_le_60 [of raw] by (intro checksum_verifies [of 10 ?h]) auto
  then show ?thesis by (simp add: ipv4HeaderChecksum_writes)
qed

text \<open>The block a TCP receiver sums: pseudo header and segment.\<close>

definition tcp_block :: "byte list \<Rightarrow> byte list" where
  "tcp_block raw =
     tcpPseudo (subslice raw 12 16) (subslice raw 16 20) (length raw - IPHeaderLen raw) @
     drop (IPHeaderLen raw) raw"

lemma tcpChecksumIPv4_eq:
  assumes "20 \<le> IPHeaderLen raw" and "IPHeaderLen raw + 20 \<le> length raw"
  defines "seg \<equiv> drop (IPHeaderLen raw) raw"
  shows "tcpChecksumIPv4 raw =
    take (IPHeaderLen raw) raw @
    write_at 16 (put16 (checksumRFC1071
      (tcpPseudo (subslice raw 12 16) (subslice raw 16 20) (length seg) @ write_at 16 [0, 0] seg))) seg"
proof -
  have len: "length (subslice raw 12 16) = 4" "length (subslice raw 16 20) = 4" "20 \<le> length seg"
    using assms by auto
  then have "seg[16 := 0, 17 := 0] = write_at 16 [0, 0] seg"
    using list_update_zero_write [of 16 seg 0 0] by simp
  with len show ?thesis
    using assms by (simp add: tcpChecksumIPv4_def Let_def IP_To4_def write_at_write_at)
qed

lemma tcpChecksumIPv4_writes [writes]:
  "agree_except {IPHeaderLen raw + 16, IPHeaderLen raw + 17} raw (tcpChecksumIPv4 raw)"
proof (cases "20 \<le> IPHeaderLen raw \<and> IPHeaderLen raw + 20 \<le> length raw")
  case True
  let ?h = "take (IPHeaderLen raw) raw"
  obtain v where "tcpChecksumIPv4 raw = ?h @ write_at 16 (put16 v) (drop (IPHeaderLen raw) raw)"
    using True tcpChecksumIPv4_eq by blast
  then have "tcpChecksumIPv4 raw = write_at (IPHeaderLen raw + 16) (put16 v) raw"
    using True append_write_at [of 16 "put16 v" "drop (IPHeaderLen raw) raw" ?h]
    by (simp add: le_diff_conv2)
  then show ?thesis
    using True agree_except_write_at [of "IPHeaderLen raw + 16" "put16 v" raw]
    by (auto elim!: agree_except_mono)
next
  case False
  then show ?thesis by (auto simp: tcpChecksumIPv4_def Let_def)
qed

lemma tcpChecksumIPv4_ok:
  assumes "20 \<le> IPHeaderLen raw" and "IPHeaderLen raw + 20 \<le> length raw" and "length raw \<le> 65535"
  shows "checksumRFC1071 (tcp_block (tcpChecksumIPv4 raw)) = 0 \<and>
    agree_except {IPHeaderLen raw + 16, IPHeaderLen raw + 17} raw (tcpChecksumIPv4 raw)"
proof -
  let ?r = "tcpChecksumIPv4 raw"
  let ?seg = "drop (IPHeaderLen raw) raw"
  let ?ps = "tcpPseudo (subslice raw 12 16) (subslice raw 16 20) (length ?seg)"
  have w: "agree_except {IPHeaderLen raw + 16, IPHeaderLen raw + 17} raw ?r"
    by (rule tcpChecksumIPv4_writes)
  have h: "IPHeaderLen ?r = IPHeaderLen raw" by (rule IPHeaderLen_reads [OF w]) simp
  have len: "length ?r = length raw" by (rule agree_except_length [OF w])
  have a: "subslice ?r 12 16 = subslice raw 12 16" "subslice ?r 16 20 = subslice raw 16 20"
    using assms(1) by (auto intro!: agree_except_subslice [OF w])
  have ps: "length ?ps = 12" using assms by (auto simp: tcpPseudo_def)
  have "drop (IPHeaderLen raw) ?r = write_at 16 (put16 (checksumRFC1071 (?ps @ write_at 16 [0, 0] ?seg))) ?seg"
    using assms tcpChecksumIPv4_eq [of raw] by simp
  then have "tcp_block ?r = write_at 28 (put16 (checksumRFC1071 (write_at 28 [0, 0] (?ps @ ?seg)))) (?ps @ ?seg)"
    using assms ps by (simp add: tcp_block_def h len a append_write_at)
  then have "checksumRFC1071 (tcp_block ?r) = 0"
    using assms ps by (intro checksum_verifies [of 28 "?ps @ ?seg"]) auto
  with w show ?thesis by simp
qed

lemma Recalculate_writes [writes]:
  "20 \<le> IPHeaderLen raw \<Longrightarrow>
   agree_except {10, 11, IPHeaderLen raw + 16, IPHeaderLen raw + 17} raw
     (RecalculateIPv4AndTCPChecksums raw)"
  using agree_except_trans [OF ipv4HeaderChecksum_writes tcpChecksumIPv4_writes, of raw]
    IPHeaderLen_reads [OF ipv4HeaderChecksum_writes, of raw]
  by (auto simp: RecalculateIPv4AndTCPChecksums_def elim!: agree_except_mono)

text \<open>
  C19. After \<open>RecalculateIPv4AndTCPChecksums\<close> both checksums of any IPv4 packet with complete headers and at
  most 65535 bytes verify: the RFC 1071 checksum of its IPv4 header, and that of pseudo header and TCP
  segment, are 0; and only the four checksum bytes have changed.
\<close>

theorem Recalculate_valid:
  assumes "20 \<le> IPHeaderLen raw" and "IPHeaderLen raw + 20 \<le> length raw" and "length raw \<le> 65535"
  shows "checksumRFC1071 (take (IPHeaderLen raw) (RecalculateIPv4AndTCPChecksums raw)) = 0 \<and>
    checksumRFC1071 (tcp_block (RecalculateIPv4AndTCPChecksums raw)) = 0 \<and>
    agree_except {10, 11, IPHeaderLen raw + 16, IPHeaderLen raw + 17} raw (RecalculateIPv4AndTCPChecksums raw)"
proof -
  let ?ip = "ipv4HeaderChecksum raw"
  have ip: "checksumRFC1071 (take (IPHeaderLen raw) ?ip) = 0" "agree_except {10, 11} raw ?ip"
    using ipv4HeaderChecksum_ok [OF assms(1)] assms(2) by simp_all
  have len: "IPHeaderLen ?ip = IPHeaderLen raw" "length ?ip = length raw"
    using IPHeaderLen_reads [OF ip(2)] agree_except_length [OF ip(2)] by simp_all
  have tcp: "checksumRFC1071 (tcp_block (tcpChecksumIPv4 ?ip)) = 0"
    "agree_except {IPHeaderLen raw + 16, IPHeaderLen raw + 17} ?ip (tcpChecksumIPv4 ?ip)"
    using tcpChecksumIPv4_ok [of ?ip] assms by (simp_all add: len)
  have "take (IPHeaderLen raw) (tcpChecksumIPv4 ?ip) = take (IPHeaderLen raw) ?ip"
    using agree_except_subslice [OF tcp(2), of 0 "IPHeaderLen raw"] by (simp add: subslice_def)
  then show ?thesis
    using ip(1) tcp(1) Recalculate_writes [OF assms(1)] by (simp add: RecalculateIPv4AndTCPChecksums_def)
qed

lemma Recalculate_valid_witness:
  "20 \<le> IPHeaderLen sample_ack \<and> IPHeaderLen sample_ack + 20 \<le> length sample_ack \<and> length sample_ack \<le> 65535 \<and>
   checksumRFC1071 (tcp_block (RecalculateIPv4AndTCPChecksums sample_ack)) = 0"
proof -
  have h: "20 \<le> IPHeaderLen sample_ack" "IPHeaderLen sample_ack + 20 \<le> length sample_ack"
    by code_simp+
  moreover have "length sample_ack \<le> 65535" by (simp add: sample_ack_def)
  ultimately show ?thesis using Recalculate_valid [of sample_ack] by simp
qed

end
