(* ===== verification/CH_Fragment.thy ===== *)
theory CH_Fragment
  imports Prelude "HOL-Library.Sublist"
begin

text \<open>
  Model of \<^verbatim>\<open>packet/ch_fragment.go\<close>: reading the first TLS record of the client, locating the
  host name inside a ClientHello, splitting the record around it and writing the pieces.

  The parser is written with checked indexing (\<open>go_index\<close>, \<open>go_slice\<close>): its result type is an
  \<open>option\<close> whose \<open>None\<close> is a Go run-time panic, so that the absence of panics is a theorem.
  The three results \<^verbatim>\<open>(start, end, ok)\<close> are \<open>Some (start, end)\<close>, or \<open>None\<close> when \<^verbatim>\<open>ok\<close> is false.
\<close>

section \<open>Reading one TLS record\<close>

datatype read_error = EOF | ErrUnexpectedEOF | OtherReadError string

datatype record_error = ReadFailed read_error | NotHandshake nat | BadRecordLength nat

text \<open>An \<^verbatim>\<open>io.Reader\<close>: the bytes it will still deliver, and the error that follows them.\<close>

record reader =
  pending :: "byte list"
  final_error :: read_error

text \<open>\<^verbatim>\<open>io.ReadFull\<close> with a buffer of \<open>n\<close> bytes.\<close>

definition ReadFull :: "nat \<Rightarrow> reader \<Rightarrow> (read_error + byte list) \<times> reader" where
  "ReadFull n r =
     (if n \<le> length (pending r)
      then (Inr (take n (pending r)), r\<lparr>pending := drop n (pending r)\<rparr>)
      else (Inl (if final_error r = EOF \<and> pending r \<noteq> [] then ErrUnexpectedEOF else final_error r),
            r\<lparr>pending := []\<rparr>))"

definition maxTLSPlaintextRecord :: nat where
  "maxTLSPlaintextRecord = 2 ^ 14 + 2048"

definition ReadFirstTLSRecord :: "reader \<Rightarrow> (record_error + byte list) \<times> reader" where
  "ReadFirstTLSRecord r =
     (case ReadFull 5 r of
        (Inl e, r) \<Rightarrow> (Inl (ReadFailed e), r)
      | (Inr hdr, r) \<Rightarrow>
          if hdr ! 0 \<noteq> 22 then (Inl (NotHandshake (unat (hdr ! 0))), r)
          else let n = unat (be16 (hdr ! 3) (hdr ! 4)) in
          if n \<le> 0 \<or> n > maxTLSPlaintextRecord then (Inl (BadRecordLength n), r)
          else (case ReadFull n r of
             (Inl e, r) \<Rightarrow> (Inl (ReadFailed e), r)
           | (Inr body, r) \<Rightarrow> (Inr (hdr @ body), r)))"

section \<open>Locating the host name\<close>

text \<open>The loop over the server name list, from \<open>pos\<close> to \<open>listEnd\<close>.\<close>

function nameLoop :: "byte list \<Rightarrow> nat \<Rightarrow> nat \<Rightarrow> (nat \<times> nat) option option" where
  "nameLoop ext listEnd pos =
     (if pos + 3 \<le> listEnd then do {
        nameType \<leftarrow> go_index ext pos;
        lenBytes \<leftarrow> go_slice ext (pos + 1) (pos + 3);
        nameLen \<leftarrow> go_uint16 lenBytes;
        let nameStart = pos + 3;
        let nameEnd = nameStart + nameLen;
        if nameEnd > listEnd then Some None
        else if nameType = 0 \<and> nameLen > 0 then Some (Some (nameStart, nameEnd))
        else nameLoop ext listEnd nameEnd
      } else Some None)"
  by pat_completeness auto
termination
  by (relation "measure (\<lambda>(ext, listEnd, pos). listEnd - pos)") auto

declare nameLoop.simps [simp del]

definition sniNameRangeInExtension :: "byte list \<Rightarrow> (nat \<times> nat) option option" where
  "sniNameRangeInExtension ext =
     (if length ext < 2 then Some None
      else do {
        lenBytes \<leftarrow> go_slice ext 0 2;
        listLen \<leftarrow> go_uint16 lenBytes;
        let pos = 2;
        if listLen \<le> 0 \<or> length ext < pos + listLen then Some None
        else nameLoop ext (pos + listLen) pos
      })"

text \<open>The loop over the extensions, from \<open>pos\<close> to \<open>extensionsEnd\<close>.\<close>

function extLoop :: "byte list \<Rightarrow> nat \<Rightarrow> nat \<Rightarrow> (nat \<times> nat) option option" where
  "extLoop body extensionsEnd pos =
     (if pos + 4 \<le> extensionsEnd then do {
        typeBytes \<leftarrow> go_slice body pos (pos + 2);
        extType \<leftarrow> go_uint16 typeBytes;
        lenBytes \<leftarrow> go_slice body (pos + 2) (pos + 4);
        extLen \<leftarrow> go_uint16 lenBytes;
        let extDataStart = pos + 4;
        let extDataEnd = extDataStart + extLen;
        if extDataEnd > extensionsEnd then Some None
        else if extType = 0 then do {
          ext \<leftarrow> go_slice body extDataStart extDataEnd;
          r \<leftarrow> sniNameRangeInExtension ext;
          case r of
            None \<Rightarrow> Some None
          | Some (s, e) \<Rightarrow> let abs = 5 + 4 + extDataStart in Some (Some (abs + s, abs + e))
        }
        else extLoop body extensionsEnd extDataEnd
      } else Some None)"
  by pat_completeness auto
termination
  by (relation "measure (\<lambda>(body, extensionsEnd, pos). extensionsEnd - pos)") auto

declare extLoop.simps [simp del]

text \<open>\<^verbatim>\<open>int(hs[1])<<16 | int(hs[2])<<8 | int(hs[3])\<close>.\<close>

definition be24 :: "byte \<Rightarrow> byte \<Rightarrow> byte \<Rightarrow> nat" where
  "be24 a b c = push_bit 16 (unat a) OR push_bit 8 (unat b) OR unat c"

text \<open>The ClientHello body: version and random, session id, cipher suites, compression
  methods, then the extensions.\<close>

definition bodyNameRange :: "byte list \<Rightarrow> (nat \<times> nat) option option" where
  "bodyNameRange body = do {
     let pos = 2 + 32;
     if length body < pos + 1 then Some None else do {
     sessionLen \<leftarrow> map_option unat (go_index body pos);
     let pos = pos + 1;
     if length body < pos + sessionLen + 2 then Some None else do {
     let pos = pos + sessionLen;
     cipherBytes \<leftarrow> go_slice body pos (pos + 2);
     cipherLen \<leftarrow> go_uint16 cipherBytes;
     let pos = pos + 2;
     if length body < pos + cipherLen + 1 then Some None else do {
     let pos = pos + cipherLen;
     compressionLen \<leftarrow> map_option unat (go_index body pos);
     let pos = pos + 1;
     if length body < pos + compressionLen then Some None else do {
     let pos = pos + compressionLen;
     if length body = pos then Some None
     else if length body < pos + 2 then Some None else do {
     extBytes \<leftarrow> go_slice body pos (pos + 2);
     extensionsLen \<leftarrow> go_uint16 extBytes;
     let pos = pos + 2;
     if length body < pos + extensionsLen then Some None
     else extLoop body (pos + extensionsLen) pos
     }}}}}}"

definition sniValueRange :: "byte list \<Rightarrow> (nat \<times> nat) option option" where
  "sniValueRange rec =
     (if length rec < 5 then Some None else do {
     recordType \<leftarrow> go_index rec 0;
     if recordType \<noteq> 22 then Some None else do {
     lenBytes \<leftarrow> go_slice rec 3 5;
     recordLen \<leftarrow> go_uint16 lenBytes;
     if recordLen \<le> 0 \<or> length rec < 5 + recordLen then Some None else do {
     hs \<leftarrow> go_slice rec 5 (5 + recordLen);
     if length hs < 4 then Some None else do {
     hsType \<leftarrow> go_index hs 0;
     if hsType \<noteq> 1 then Some None else do {
     h1 \<leftarrow> go_index hs 1;
     h2 \<leftarrow> go_index hs 2;
     h3 \<leftarrow> go_index hs 3;
     let hsLen = be24 h1 h2 h3;
     if hsLen \<le> 0 \<or> length hs < 4 + hsLen then Some None else do {
     body \<leftarrow> go_slice hs 4 (4 + hsLen);
     bodyNameRange body
     }}}}}})"

section \<open>Splitting the record\<close>

text \<open>Go's 64-bit \<^verbatim>\<open>int\<close> addition.\<close>

definition wrap64 :: "int \<Rightarrow> int" where
  "wrap64 x = (x + 2 ^ 63) mod 2 ^ 64 - 2 ^ 63"

text \<open>The loop \<^verbatim>\<open>for i := s; i < e; i += sniChunkBytes\<close>, entered with a positive chunk size
  only; \<open>None\<close> is a slice-bounds panic.\<close>

function chunkLoop :: "byte list \<Rightarrow> nat \<Rightarrow> int \<Rightarrow> nat \<Rightarrow> byte list list option" where
  "chunkLoop rec e chunk i =
     (if i < e \<and> 0 < chunk then
        let j = wrap64 (int i + chunk);
            j = (if j > int e then int e else j)
        in if j < 0 then None
           else do {
             p \<leftarrow> go_slice rec i (nat j);
             ps \<leftarrow> chunkLoop rec e chunk (i + nat chunk);
             Some (p # ps)
           }
      else Some [])"
  by pat_completeness auto
termination
  by (relation "measure (\<lambda>(rec, e, chunk, i). e - i)") auto

declare chunkLoop.simps [simp del]

definition SplitClientHelloRecord :: "byte list \<Rightarrow> int \<Rightarrow> byte list list option" where
  "SplitClientHelloRecord rec sniChunkBytes =
     (let sniChunkBytes = (if sniChunkBytes < 0 then 0 else sniChunkBytes) in
      if length rec = 0 then Some []
      else do {
        r \<leftarrow> sniValueRange rec;
        case r of
          None \<Rightarrow> Some [rec]
        | Some (s, e) \<Rightarrow>
            if e \<le> s then Some [rec]
            else do {
              pre \<leftarrow> (if s > 0 then map_option (\<lambda>p. [p]) (go_slice rec 0 s) else Some []);
              mid \<leftarrow> (if sniChunkBytes \<le> 0 then map_option (\<lambda>p. [p]) (go_slice rec s e)
                      else chunkLoop rec e sniChunkBytes s);
              post \<leftarrow> (if e < length rec then map_option (\<lambda>p. [p]) (go_slice rec e (length rec))
                      else Some []);
              let out = pre @ mid @ post;
              if length out = 0 then Some [rec] else Some out
            }
      })"

section \<open>Writing the pieces\<close>

text \<open>
  The connection is a state \<open>'w\<close>: \<open>write p w\<close> is \<^verbatim>\<open>w.Write(p)\<close> with its error, \<open>sleep\<close> is
  \<^verbatim>\<open>time.Sleep\<close>, \<open>noDelay\<close> the optional \<^verbatim>\<open>SetNoDelay\<close> (its error is dropped by the code) and
  \<open>logf\<close> the log line of a fragment.
\<close>

fun writeLoop ::
  "(byte list \<Rightarrow> 'w \<Rightarrow> 'e option \<times> 'w) \<Rightarrow> (int \<Rightarrow> 'w \<Rightarrow> 'w) \<Rightarrow> (nat \<Rightarrow> nat \<Rightarrow> nat \<Rightarrow> 'w \<Rightarrow> 'w) \<Rightarrow>
   int \<Rightarrow> bool \<Rightarrow> nat \<Rightarrow> nat \<Rightarrow> byte list list \<Rightarrow> 'w \<Rightarrow> 'e option \<times> 'w" where
  "writeLoop write sleep logf delay logEach nFrag sent [] w = (None, w)"
| "writeLoop write sleep logf delay logEach nFrag sent (p # ps) w =
     (if length p = 0 then writeLoop write sleep logf delay logEach nFrag sent ps w
      else let w = (if sent > 0 \<and> delay > 0 then sleep delay w else w);
               sent = sent + 1
           in case write p w of
                (Some err, w) \<Rightarrow> (Some err, w)
              | (None, w) \<Rightarrow>
                  let w = (if logEach then logf sent nFrag (length p) w else w)
                  in writeLoop write sleep logf delay logEach nFrag sent ps w)"

definition WriteClientHelloFragments ::
  "(byte list \<Rightarrow> 'w \<Rightarrow> 'e option \<times> 'w) \<Rightarrow> (int \<Rightarrow> 'w \<Rightarrow> 'w) \<Rightarrow> (nat \<Rightarrow> nat \<Rightarrow> nat \<Rightarrow> 'w \<Rightarrow> 'w) \<Rightarrow>
   byte list list \<Rightarrow> int \<Rightarrow> (bool \<Rightarrow> 'w \<Rightarrow> 'w) option \<Rightarrow> bool \<Rightarrow> 'w \<Rightarrow> 'e option \<times> 'w" where
  "WriteClientHelloFragments write sleep logf frags delay tcp logEach w =
     (let w = (case tcp of None \<Rightarrow> w | Some noDelay \<Rightarrow> noDelay True w);
          nFrag = length (filter (\<lambda>p. length p > 0) frags);
          (err, w) = writeLoop write sleep logf delay logEach nFrag 0 frags w
      in (err, case tcp of None \<Rightarrow> w | Some noDelay \<Rightarrow> noDelay False w))"

section \<open>The parser never panics and stays in range\<close>

fun range_in :: "nat \<Rightarrow> nat \<Rightarrow> (nat \<times> nat) option option \<Rightarrow> bool" where
  "range_in lo hi None = False"
| "range_in lo hi (Some None) = True"
| "range_in lo hi (Some (Some (s, e))) = (lo \<le> s \<and> s < e \<and> e \<le> hi)"

lemma range_in_mono: "range_in lo hi r \<Longrightarrow> lo' \<le> lo \<Longrightarrow> hi \<le> hi' \<Longrightarrow> range_in lo' hi' r"
  by (cases "(lo, hi, r)" rule: range_in.cases) auto

text \<open>One round of each loop, with the checked accesses discharged.\<close>

lemma nameLoop_step:
  assumes "pos + 3 \<le> listEnd" and "listEnd \<le> length ext"
  shows "nameLoop ext listEnd pos =
    (let k = unat (be16 (ext ! (pos + 1)) (ext ! (pos + 2))) in
     if pos + 3 + k > listEnd then Some None
     else if ext ! pos = 0 \<and> k > 0 then Some (Some (pos + 3, pos + 3 + k))
     else nameLoop ext listEnd (pos + 3 + k))"
  using assms by (simp add: nameLoop.simps [of ext listEnd pos] Let_def)

lemma nameLoop_end: "\<not> pos + 3 \<le> listEnd \<Longrightarrow> nameLoop ext listEnd pos = Some None"
  by (simp add: nameLoop.simps [of ext listEnd pos])

lemma extLoop_step:
  assumes "pos + 4 \<le> extEnd" and "extEnd \<le> length body"
  shows "extLoop body extEnd pos =
    (let t = unat (be16 (body ! pos) (body ! (pos + 1)));
         k = unat (be16 (body ! (pos + 2)) (body ! (pos + 3))) in
     if pos + 4 + k > extEnd then Some None
     else if t = 0 then
       map_option (map_option (\<lambda>(s, e). (13 + pos + s, 13 + pos + e)))
         (sniNameRangeInExtension (subslice body (pos + 4) (pos + 4 + k)))
     else extLoop body extEnd (pos + 4 + k))"
  using assms
  by (simp add: extLoop.simps [of body extEnd pos] Let_def numeral_3_eq_3)
    (auto simp: ac_simps split: Option.bind_split option.split)

lemma extLoop_end: "\<not> pos + 4 \<le> extEnd \<Longrightarrow> extLoop body extEnd pos = Some None"
  by (simp add: extLoop.simps [of body extEnd pos])

lemma nameLoop_range: "listEnd \<le> length ext \<Longrightarrow> range_in pos listEnd (nameLoop ext listEnd pos)"
proof (induction "listEnd - pos" arbitrary: pos rule: less_induct)
  case less
  show ?case
  proof (cases "pos + 3 \<le> listEnd")
    case True
    have "range_in pos listEnd (nameLoop ext listEnd (pos + 3 + k))" if "pos + 3 + k \<le> listEnd" for k
      by (rule range_in_mono [OF less.hyps]) (use that less.prems in linarith)+
    with True less.prems show ?thesis by (simp add: nameLoop_step Let_def)
  qed (simp add: nameLoop_end)
qed

lemma sniNameRangeInExtension_range: "range_in 2 (length ext) (sniNameRangeInExtension ext)"
  by (auto simp: sniNameRangeInExtension_def Let_def intro!: range_in_mono [OF nameLoop_range])

lemma extLoop_range: "extEnd \<le> length body \<Longrightarrow> range_in (9 + pos) (9 + extEnd) (extLoop body extEnd pos)"
proof (induction "extEnd - pos" arbitrary: pos rule: less_induct)
  case less
  show ?case
  proof (cases "pos + 4 \<le> extEnd")
    case True
    let ?b = "\<lambda>k. subslice body (pos + 4) (pos + 4 + k)"
    have "range_in (9 + pos) (9 + extEnd) (extLoop body extEnd (pos + 4 + k))" if "pos + 4 + k \<le> extEnd" for k
      by (rule range_in_mono [OF less.hyps]) (use that less.prems in linarith)+
    moreover have "range_in (9 + pos) (9 + extEnd)
        (map_option (map_option (\<lambda>(s, e). (13 + pos + s, 13 + pos + e))) (sniNameRangeInExtension (?b k)))"
      if "pos + 4 + k \<le> extEnd" for k
      using sniNameRangeInExtension_range [of "?b k"] that less.prems
      by (cases "(2 :: nat, length (?b k), sniNameRangeInExtension (?b k))" rule: range_in.cases) auto
    ultimately show ?thesis
      using True less.prems by (simp add: extLoop_step Let_def)
  qed (simp add: extLoop_end)
qed

lemma bodyNameRange_range: "range_in 9 (9 + length body) (bodyNameRange body)"
  by (auto simp: bodyNameRange_def Let_def intro!: range_in_mono [OF extLoop_range])

lemma sniValueRange_range: "range_in 9 (length rec) (sniValueRange rec)"
proof (cases "length rec < 5")
  case False
  then have "rec \<noteq> []" by auto
  with False show ?thesis
    by (auto simp: sniValueRange_def Let_def intro!: range_in_mono [OF bodyNameRange_range])
qed (simp add: sniValueRange_def)

section \<open>Splitting loses nothing\<close>

lemma wrap64_id: "- (2 ^ 63) \<le> x \<Longrightarrow> x < 2 ^ 63 \<Longrightarrow> wrap64 x = x"
  by (simp add: wrap64_def)

lemma wrap64_over:
  assumes "2 ^ 63 \<le> x" and "x < 2 ^ 64"
  shows "wrap64 x = x - 2 ^ 64"
proof -
  have "(x + 2 ^ 63) mod 2 ^ 64 = ((x - 2 ^ 63) + 1 * 2 ^ 64) mod 2 ^ 64"
    by (simp add: add.commute)
  also have "\<dots> = (x - 2 ^ 63) mod 2 ^ 64" by (rule mod_mult_self1)
  also have "\<dots> = x - 2 ^ 63" using assms by (intro mod_pos_pos_trivial) simp_all
  finally show ?thesis by (simp add: wrap64_def)
qed

lemma chunkLoop_correct:
  assumes "0 < chunk" and "e \<le> length rec" and "int e + chunk < 2 ^ 63"
  shows "\<exists>ps. chunkLoop rec e chunk i = Some ps \<and> concat ps = subslice rec i e \<and>
    (\<forall>p \<in> set ps. p \<noteq> [] \<and> int (length p) \<le> chunk)"
proof (induction "e - i" arbitrary: i rule: less_induct)
  case less
  show ?case
  proof (cases "i < e")
    case True
    let ?j = "min e (i + nat chunk)"
    have w: "wrap64 (int i + chunk) = int i + chunk" using True assms by (intro wrap64_id) auto
    have j: "(if int i + chunk > int e then int e else int i + chunk) = int ?j"
      using assms(1) by (auto simp: min_def)
    have "e - (i + nat chunk) < e - i" using True assms(1) by simp
    from less [OF this] obtain ps where ps: "chunkLoop rec e chunk (i + nat chunk) = Some ps"
      "concat ps = subslice rec (i + nat chunk) e"
      "\<forall>p \<in> set ps. p \<noteq> [] \<and> int (length p) \<le> chunk" by blast
    have "chunkLoop rec e chunk i = Some (subslice rec i ?j # ps)"
      using True assms ps(1) by (simp add: chunkLoop.simps [of rec e chunk i] w j Let_def)
    moreover have "subslice rec i ?j @ subslice rec (i + nat chunk) e = subslice rec i e"
      using True subslice_join [of i "i + nat chunk" e rec]
      by (cases "i + nat chunk \<le> e") (auto simp: min_def subslice_def)
    moreover have "subslice rec i ?j \<noteq> []" "int (length (subslice rec i ?j)) \<le> chunk"
      using True assms by (auto simp flip: length_greater_0_conv)
    ultimately show ?thesis using ps by auto
  next
    case False
    then show ?thesis by (simp add: chunkLoop.simps [of rec e chunk i] subslice_def)
  qed
qed

lemma sniValueRange_cases:
  obtains "sniValueRange rec = Some None"
  | s e where "sniValueRange rec = Some (Some (s, e))" "9 \<le> s" "s < e" "e \<le> length rec"
  using sniValueRange_range [of rec]
  by (cases "(9 :: nat, length rec, sniValueRange rec)" rule: range_in.cases) auto

lemma SplitClientHelloRecord_range:
  assumes "sniValueRange rec = Some (Some (s, e))" and "int (length rec) + chunk < 2 ^ 63"
  shows "\<exists>mid post. SplitClientHelloRecord rec chunk = Some (take s rec # mid @ post) \<and>
    concat mid = subslice rec s e \<and> concat post = drop e rec \<and>
    (\<forall>p \<in> set mid. p \<noteq> [] \<and> (0 < chunk \<longrightarrow> int (length p) \<le> chunk)) \<and> (\<forall>p \<in> set post. p \<noteq> [])"
proof -
  from assms(1) have r: "9 \<le> s" "s < e" "e \<le> length rec" "rec \<noteq> []"
    using sniValueRange_range [of rec] by auto
  let ?post = "if e < length rec then [drop e rec] else []"
  have pre: "subslice rec 0 s = take s rec" "subslice rec e (length rec) = drop e rec"
    by (simp_all add: subslice_def)
  have "\<exists>mid. SplitClientHelloRecord rec chunk = Some (take s rec # mid @ ?post) \<and>
    concat mid = subslice rec s e \<and>
    (\<forall>p \<in> set mid. p \<noteq> [] \<and> (0 < chunk \<longrightarrow> int (length p) \<le> chunk))"
  proof (cases "0 < chunk")
    case True
    then obtain mid where "chunkLoop rec e chunk s = Some mid" "concat mid = subslice rec s e"
      "\<forall>p \<in> set mid. p \<noteq> [] \<and> int (length p) \<le> chunk"
      using chunkLoop_correct [of chunk e rec s] r assms(2) by auto
    with True r assms(1) pre show ?thesis
      by (intro exI [of _ mid]) (simp add: SplitClientHelloRecord_def)
  next
    case False
    moreover have "subslice rec s e \<noteq> []" using r by (simp flip: length_greater_0_conv)
    ultimately show ?thesis
      using r assms(1) pre
      by (intro exI [of _ "[subslice rec s e]"]) (simp add: SplitClientHelloRecord_def)
  qed
  then obtain mid where "SplitClientHelloRecord rec chunk = Some (take s rec # mid @ ?post) \<and>
    concat mid = subslice rec s e \<and>
    (\<forall>p \<in> set mid. p \<noteq> [] \<and> (0 < chunk \<longrightarrow> int (length p) \<le> chunk))" ..
  moreover have "concat ?post = drop e rec" "\<forall>p \<in> set ?post. p \<noteq> []" by simp_all
  ultimately show ?thesis by blast
qed

lemma Split_lossless:
  assumes "int (length rec) + chunk < 2 ^ 63"
  shows "\<exists>frags. SplitClientHelloRecord rec chunk = Some frags \<and> concat frags = rec \<and> [] \<notin> set frags"
proof (cases "rec = []")
  case False
  show ?thesis
  proof (rule sniValueRange_cases [of rec])
    fix s e
    assume r: "sniValueRange rec = Some (Some (s, e))" "9 \<le> s" "s < e" "e \<le> length rec"
    from SplitClientHelloRecord_range [OF r(1) assms] obtain mid post where
      f: "SplitClientHelloRecord rec chunk = Some (take s rec # mid @ post) \<and>
        concat mid = subslice rec s e \<and> concat post = drop e rec \<and>
        (\<forall>p \<in> set mid. p \<noteq> [] \<and> (0 < chunk \<longrightarrow> int (length p) \<le> chunk)) \<and> (\<forall>p \<in> set post. p \<noteq> [])"
      by blast
    have "concat (take s rec # mid @ post) = rec"
      using take_subslice_drop [of s e rec] r f by simp
    moreover have "take s rec \<noteq> []" using False r by simp
    ultimately show ?thesis using f by auto
  qed (use False in \<open>auto simp: SplitClientHelloRecord_def Let_def\<close>)
qed (simp add: SplitClientHelloRecord_def)

lemma Split_overflow:
  assumes "sniValueRange rec = Some (Some (s, e))"
    and "2 ^ 63 \<le> int s + chunk" and "chunk < 2 ^ 63" and "int s < 2 ^ 63"
  shows "SplitClientHelloRecord rec chunk = None"
proof -
  from assms(1) have r: "9 \<le> s" "s < e" "e \<le> length rec"
    using sniValueRange_range [of rec] by simp_all
  have "0 < chunk" using assms by simp
  moreover have "wrap64 (int s + chunk) < 0" using assms by (subst wrap64_over) auto
  ultimately show ?thesis
    using r assms(1) by (auto simp: SplitClientHelloRecord_def Let_def chunkLoop.simps [of rec e chunk s])
qed

section \<open>The host name of an encoded ClientHello\<close>

definition enc16 :: "nat \<Rightarrow> byte list" where
  "enc16 n = put16 (of_nat n)"

definition enc24 :: "nat \<Rightarrow> byte list" where
  "enc24 n = [of_nat (n div 65536), of_nat (n div 256), of_nat n]"

type_synonym extension = "nat \<times> byte list"
type_synonym server_name = "byte \<times> byte list"

definition enc_ext :: "extension \<Rightarrow> byte list" where
  "enc_ext x = enc16 (fst x) @ enc16 (length (snd x)) @ snd x"

definition enc_name :: "server_name \<Rightarrow> byte list" where
  "enc_name x = fst x # enc16 (length (snd x)) @ snd x"

definition enc_names :: "server_name list \<Rightarrow> byte list" where
  "enc_names ns = enc16 (length (concat (map enc_name ns))) @ concat (map enc_name ns)"

record client_hello =
  ch_fixed :: "byte list"
  ch_session :: "byte list"
  ch_ciphers :: "byte list"
  ch_compression :: "byte list"
  ch_exts :: "extension list"

definition enc_body :: "client_hello \<Rightarrow> byte list" where
  "enc_body ch = ch_fixed ch @ of_nat (length (ch_session ch)) # ch_session ch @
     enc16 (length (ch_ciphers ch)) @ ch_ciphers ch @
     of_nat (length (ch_compression ch)) # ch_compression ch @
     enc16 (length (concat (map enc_ext (ch_exts ch)))) @ concat (map enc_ext (ch_exts ch))"

definition enc_record :: "byte \<Rightarrow> byte \<Rightarrow> client_hello \<Rightarrow> byte list" where
  "enc_record v1 v2 ch =
     [22, v1, v2] @ enc16 (4 + length (enc_body ch)) @ 1 # enc24 (length (enc_body ch)) @ enc_body ch"

definition wf_client_hello :: "client_hello \<Rightarrow> bool" where
  "wf_client_hello ch \<longleftrightarrow>
     length (ch_fixed ch) = 34 \<and> length (ch_session ch) < 256 \<and>
     length (ch_ciphers ch) < 65536 \<and> length (ch_compression ch) < 256 \<and>
     length (enc_body ch) < 65532 \<and> (\<forall>x \<in> set (ch_exts ch). fst x < 65536)"

lemma length_enc16 [simp]: "length (enc16 n) = 2"
  by (simp add: enc16_def)

lemma enc16_nth: "n < 65536 \<Longrightarrow> unat (be16 (enc16 n ! 0) (enc16 n ! 1)) = n"
  by (simp add: enc16_def unsigned_of_nat take_bit_nat_eq_self_iff)

lemma nth_append_len: "(xs @ ys) ! (length xs + k) = ys ! k"
  by (simp add: nth_append)

lemma enc16_at:
  assumes "data = xs @ enc16 n @ ys" and "i = length xs" and "n < 65536"
  shows "unat (be16 (data ! i) (data ! (i + 1))) = n"
  using enc16_nth [OF assms(3)] nth_append_len [of xs "enc16 n @ ys" 0] nth_append_len [of xs "enc16 n @ ys" 1]
  by (simp add: assms nth_append)

text \<open>Where the loops find what they look for, by position.\<close>

fun locate_name :: "nat \<Rightarrow> server_name list \<Rightarrow> (nat \<times> nat) option" where
  "locate_name pos [] = None"
| "locate_name pos (x # xs) =
     (if fst x = 0 \<and> snd x \<noteq> [] then Some (pos + 3, pos + 3 + length (snd x))
      else locate_name (pos + 3 + length (snd x)) xs)"

lemma length_enc_name [simp]: "length (enc_name x) = 3 + length (snd x)"
  by (simp add: enc_name_def)

lemma length_enc_ext [simp]: "length (enc_ext x) = 4 + length (snd x)"
  by (simp add: enc_ext_def)

lemma nameLoop_enc:
  assumes "ext = pre @ concat (map enc_name ns)" and "pos = length pre" and "length ext < 65536"
  shows "nameLoop ext (length ext) pos = Some (locate_name pos ns)"
  using assms
proof (induction ns arbitrary: pre pos)
  case Nil
  then show ?case by (simp add: nameLoop_end)
next
  case (Cons x ns)
  let ?k = "length (snd x)"
  have d: "ext = (pre @ [fst x]) @ enc16 ?k @ snd x @ concat (map enc_name ns)"
    using Cons.prems(1) by (simp add: enc_name_def [of x])
  have k: "unat (be16 (ext ! (pos + 1)) (ext ! (pos + 2))) = ?k"
    using enc16_at [OF d, of "pos + 1"] Cons.prems by simp
  have t: "ext ! pos = fst x" using Cons.prems(1,2) by (simp add: enc_name_def [of x] nth_append)
  have fit: "pos + 3 \<le> length ext" "\<not> pos + 3 + ?k > length ext"
    using Cons.prems(1,2) by simp_all
  have "nameLoop ext (length ext) (pos + 3 + ?k) = Some (locate_name (pos + 3 + ?k) ns)"
    using Cons.prems by (intro Cons.IH [of "pre @ enc_name x"]) simp_all
  then show ?case
    unfolding nameLoop_step [OF fit(1) le_refl] k t Let_def using fit by simp
qed

fun locate_ext :: "nat \<Rightarrow> extension list \<Rightarrow> (nat \<times> byte list) option" where
  "locate_ext pos [] = None"
| "locate_ext pos (x # xs) =
     (if fst x = 0 then Some (pos + 4, snd x) else locate_ext (pos + 4 + length (snd x)) xs)"

lemma extLoop_enc:
  assumes "body = pre @ concat (map enc_ext xs) @ post" and "pos = length pre"
    and "extEnd = length pre + length (concat (map enc_ext xs))" and "length body < 65536"
    and "\<forall>x \<in> set xs. fst x < 65536"
  shows "extLoop body extEnd pos =
    (case locate_ext pos xs of None \<Rightarrow> Some None
     | Some (p, d) \<Rightarrow> map_option (map_option (\<lambda>(s, e). (9 + p + s, 9 + p + e))) (sniNameRangeInExtension d))"
  using assms
proof (induction xs arbitrary: pre pos)
  case Nil
  then show ?case by (simp add: extLoop_end)
next
  case (Cons x xs)
  let ?k = "length (snd x)"
  let ?rest = "concat (map enc_ext xs) @ post"
  have d: "body = pre @ enc16 (fst x) @ enc16 ?k @ snd x @ ?rest"
    "body = (pre @ enc16 (fst x)) @ enc16 ?k @ snd x @ ?rest"
    using Cons.prems(1) by (simp_all add: enc_ext_def [of x])
  have t: "unat (be16 (body ! pos) (body ! (pos + 1))) = fst x"
    using enc16_at [OF d(1), of pos] Cons.prems by simp
  have k: "unat (be16 (body ! (pos + 2)) (body ! (pos + 3))) = ?k"
    using enc16_at [OF d(2), of "pos + 2"] Cons.prems by (simp add: numeral_3_eq_3)
  have fit: "pos + 4 \<le> extEnd" "extEnd \<le> length body" "\<not> pos + 4 + ?k > extEnd"
    using Cons.prems(1-3) by simp_all
  have sub: "subslice body (pos + 4) (pos + 4 + ?k) = snd x"
    using subslice_append_mid [of "pre @ enc16 (fst x) @ enc16 ?k" "pos + 4" "snd x" "pos + 4 + ?k" ?rest]
      d(1) Cons.prems(2) by simp
  have "extLoop body extEnd (pos + 4 + ?k) =
    (case locate_ext (pos + 4 + ?k) xs of None \<Rightarrow> Some None
     | Some (p, d) \<Rightarrow> map_option (map_option (\<lambda>(s, e). (9 + p + s, 9 + p + e))) (sniNameRangeInExtension d))"
    using Cons.prems by (intro Cons.IH [of "pre @ enc_ext x"]) simp_all
  then show ?case
    unfolding extLoop_step [OF fit(1,2)] t k Let_def sub using fit(3) by simp
qed

text \<open>What is at the positions the loops report.\<close>

abbreviation host_entry :: "server_name \<Rightarrow> bool" where
  "host_entry x \<equiv> fst x = 0 \<and> snd x \<noteq> []"

lemma locate_name_find:
  assumes "ext = pre @ concat (map enc_name ns)" and "pos = length pre"
  shows "map_option (\<lambda>(s, e). subslice ext s e) (locate_name pos ns) = map_option snd (find host_entry ns)"
  using assms
proof (induction ns arbitrary: pre pos)
  case (Cons x ns)
  have "ext = (pre @ fst x # enc16 (length (snd x))) @ snd x @ concat (map enc_name ns)"
    using Cons.prems(1) by (simp add: enc_name_def [of x])
  then have "subslice ext (pos + 3) (pos + 3 + length (snd x)) = snd x"
    using Cons.prems(2) by (simp only: ) (rule subslice_append_mid, simp_all)
  moreover have "map_option (\<lambda>(s, e). subslice ext s e) (locate_name (pos + 3 + length (snd x)) ns) =
      map_option snd (find host_entry ns)"
    using Cons.prems by (intro Cons.IH [of "pre @ enc_name x"]) simp_all
  ultimately show ?case by simp
qed simp

lemma locate_ext_find:
  assumes "body = pre @ concat (map enc_ext xs) @ post" and "pos = length pre"
  shows "case locate_ext pos xs of None \<Rightarrow> find (\<lambda>x. fst x = 0) xs = None
     | Some (p, d) \<Rightarrow> find (\<lambda>x. fst x = 0) xs = Some (0, d) \<and> p + length d \<le> length body \<and>
         subslice body p (p + length d) = d"
  using assms
proof (induction xs arbitrary: pre pos)
  case (Cons x xs)
  have "body = (pre @ enc16 (fst x) @ enc16 (length (snd x))) @ snd x @ concat (map enc_ext xs) @ post"
    using Cons.prems(1) by (simp add: enc_ext_def [of x])
  then have "subslice body (pos + 4) (pos + 4 + length (snd x)) = snd x"
    using Cons.prems(2) by (simp only: ) (rule subslice_append_mid, simp_all)
  moreover have "case locate_ext (pos + 4 + length (snd x)) xs of None \<Rightarrow> find (\<lambda>x. fst x = 0) xs = None
     | Some (p, d) \<Rightarrow> find (\<lambda>x. fst x = 0) xs = Some (0, d) \<and> p + length d \<le> length body \<and>
         subslice body p (p + length d) = d"
    using Cons.prems by (intro Cons.IH [of "pre @ enc_ext x"]) simp_all
  ultimately show ?case using Cons.prems by (cases x) (auto split: option.splits)
qed simp

lemma sniNameRangeInExtension_enc:
  assumes "length (enc_names ns) < 65536"
  shows "\<exists>r. sniNameRangeInExtension (enc_names ns) = Some r \<and>
    map_option (\<lambda>(s, e). subslice (enc_names ns) s e) r = map_option snd (find host_entry ns)"
proof (cases "ns = []")
  case True
  have "sniNameRangeInExtension (enc_names []) = Some None" by code_simp
  with True show ?thesis by simp
next
  case False
  define k where "k = length (concat (map enc_name ns))"
  let ?e = "enc_names ns"
  have e: "?e = enc16 k @ concat (map enc_name ns)" by (simp add: enc_names_def k_def)
  have len: "length ?e = 2 + k" by (simp add: e k_def)
  have k: "unat (be16 (?e ! 0) (?e ! 1)) = k"
    using enc16_at [of ?e "[]" k "concat (map enc_name ns)" 0] assms e len by simp
  have "0 < k" using False by (cases ns) (simp_all add: enc_name_def k_def)
  then have "sniNameRangeInExtension ?e = nameLoop ?e (length ?e) 2"
    using k unfolding len by (simp add: sniNameRangeInExtension_def len Let_def)
  also have "\<dots> = Some (locate_name 2 ns)"
    by (rule nameLoop_enc [OF e]) (simp_all add: assms)
  finally show ?thesis using locate_name_find [OF e] by simp
qed

lemma be24_eq: "be24 a b c = unat a * 65536 + unat b * 256 + unat c"
proof -
  have small: "bit (unat (x :: byte)) n \<Longrightarrow> n < 8" for x n
    by (simp add: bit_unsigned_iff bit_byte_lt)
  have "push_bit 8 (unat b) OR unat c = push_bit 8 (unat b) + unat c"
    by (rule disjunctive_add [symmetric]) (auto simp: bit_simps dest: small bit_byte_lt)
  moreover have "push_bit 16 (unat a) OR (push_bit 8 (unat b) OR unat c) =
      push_bit 16 (unat a) + (push_bit 8 (unat b) OR unat c)"
    by (rule disjunctive_add [symmetric]) (auto simp: bit_simps dest: small bit_byte_lt)
  ultimately show ?thesis by (simp add: be24_def push_bit_eq_mult or.assoc)
qed

lemma be24_enc24:
  assumes "n < 2 ^ 24"
  shows "be24 (of_nat (n div 65536)) (of_nat (n div 256)) (of_nat n) = n"
proof -
  have "n div 65536 * 65536 + n div 256 mod 256 * 256 + n mod 256 = n"
  proof -
    have "q * 65536 + r * 256 + t = n" if "q * 256 + r = m" "m * 256 + t = n" for q r t m :: nat
      using that by simp
    from this [OF div_mult_mod_eq div_mult_mod_eq] show ?thesis
      using div_mult2_eq [of n 256 256] by simp
  qed
  then show ?thesis using assms by (simp add: be24_eq unsigned_of_nat take_bit_eq_mod)
qed

lemma bodyNameRange_enc:
  assumes "wf_client_hello ch"
  shows "\<exists>pre. enc_body ch = pre @ concat (map enc_ext (ch_exts ch)) \<and>
    bodyNameRange (enc_body ch) = extLoop (enc_body ch) (length (enc_body ch)) (length pre)"
proof -
  define b s c m x where "b = enc_body ch" and "s = ch_session ch" and "c = ch_ciphers ch"
    and "m = ch_compression ch" and "x = concat (map enc_ext (ch_exts ch))"
  note defs = b_def s_def c_def m_def x_def
  let ?f = "ch_fixed ch"
  have w: "length ?f = 34" "length s < 256" "length c < 65536" "length m < 256" "length b < 65532"
    using assms by (simp_all add: wf_client_hello_def defs)
  have b: "b = ?f @ of_nat (length s) # s @ enc16 (length c) @ c @ of_nat (length m) # m @ enc16 (length x) @ x"
    by (simp add: defs enc_body_def)
  then have len: "length b = 40 + length s + length c + length m + length x" using w(1) by simp
  have s: "unat (b ! 34) = length s"
    using w by (simp add: b nth_append unsigned_of_nat take_bit_nat_eq_self_iff)
  have c: "unat (be16 (b ! (35 + length s)) (b ! (35 + length s + 1))) = length c"
    by (rule enc16_at [of b "?f @ of_nat (length s) # s"]) (use b w in simp_all)
  have m: "unat (b ! (37 + length s + length c)) = length m"
  proof -
    have "b = (?f @ of_nat (length s) # s @ enc16 (length c) @ c) @ of_nat (length m) # m @ enc16 (length x) @ x"
      by (simp add: b)
    moreover have "37 + length s + length c = length (?f @ of_nat (length s) # s @ enc16 (length c) @ c) + 0"
      using w by simp
    ultimately have "b ! (37 + length s + length c) = of_nat (length m)"
      by (simp only: nth_append_len nth_Cons_0)
    then show ?thesis using w by (simp add: unsigned_of_nat take_bit_nat_eq_self_iff)
  qed
  let ?p = "38 + length s + length c + length m"
  have x: "unat (be16 (b ! ?p) (b ! (?p + 1))) = length x"
    by (rule enc16_at [of b "?f @ of_nat (length s) # s @ enc16 (length c) @ c @ of_nat (length m) # m"])
      (use b w len in simp_all)
  have "bodyNameRange b = extLoop b (length b) (?p + 2)"
    using c x m by (simp add: bodyNameRange_def Let_def len s add.assoc)
  moreover define pre where
    "pre = ?f @ of_nat (length s) # s @ enc16 (length c) @ c @ of_nat (length m) # m @ enc16 (length x)"
  moreover have "b = pre @ x" "length pre = ?p + 2" using w by (simp_all add: b pre_def)
  ultimately show ?thesis unfolding defs [symmetric] by (intro exI [of _ pre]) simp
qed

text \<open>The bytes at the range reported for a record, if any.\<close>

definition extracted_name :: "byte list \<Rightarrow> byte list option" where
  "extracted_name rec =
     (case sniValueRange rec of Some (Some (s, e)) \<Rightarrow> Some (subslice rec s e) | _ \<Rightarrow> None)"

lemma sniValueRange_record:
  assumes "length body < 65532" and "0 < length body"
    and "rec = [22, v1, v2] @ enc16 (4 + length body) @ 1 # enc24 (length body) @ body @ rest"
  shows "sniValueRange rec = bodyNameRange body"
proof -
  have l: "unat (be16 (rec ! 3) (rec ! (3 + 1))) = 4 + length body"
    by (rule enc16_at [OF assms(3)]) (use assms in simp_all)
  have hs: "subslice rec 5 (9 + length body) = 1 # enc24 (length body) @ body"
    using subslice_append_mid [of "[22, v1, v2] @ enc16 (4 + length body)" 5
        "1 # enc24 (length body) @ body" "9 + length body" rest]
    by (simp add: assms(3) enc24_def)
  have b: "subslice (1 # enc24 (length body) @ body) 4 (4 + length body) = body"
    by (simp add: subslice_def enc24_def)
  have n: "be24 (enc24 (length body) ! 0) (enc24 (length body) ! 1) (enc24 (length body) ! 2) = length body"
    using be24_enc24 [of "length body"] assms(1) by (simp add: enc24_def)
  have len: "length rec = 9 + length body + length rest" "length (enc24 (length body)) = 3" "rec ! 0 = 22"
    by (simp_all add: assms(3) enc24_def)
  show ?thesis
    using l n assms(2)
    by (simp add: sniValueRange_def len hs b Let_def nth_append numeral_2_eq_2 numeral_3_eq_3)
qed

lemma extracted_name_enc:
  assumes wf: "wf_client_hello ch"
    and names: "\<forall>x \<in> set (ch_exts ch). fst x = 0 \<longrightarrow> snd x = enc_names ns"
  shows "extracted_name (enc_record v1 v2 ch @ rest) =
    (if \<exists>x \<in> set (ch_exts ch). fst x = 0 then map_option snd (find host_entry ns) else None)"
proof -
  let ?b = "enc_body ch" and ?rec = "enc_record v1 v2 ch @ rest"
  obtain pre where b: "?b = pre @ concat (map enc_ext (ch_exts ch)) @ []"
    and loop: "bodyNameRange ?b = extLoop ?b (length ?b) (length pre)"
    using bodyNameRange_enc [OF wf] by auto
  have w: "length ?b < 65532" "0 < length ?b" "\<forall>x \<in> set (ch_exts ch). fst x < 65536"
    using wf by (auto simp: wf_client_hello_def enc_body_def)
  have rec: "?rec = [22, v1, v2] @ enc16 (4 + length ?b) @ 1 # enc24 (length ?b) @ ?b @ rest"
    by (simp add: enc_record_def Let_def enc24_def)
  have r9: "subslice ?rec (9 + i) (9 + j) = subslice ?b i j" if "j \<le> length ?b" for i j
    using that subslice_append_shift [of 9 "[22, v1, v2] @ enc16 (4 + length ?b) @ 1 # enc24 (length ?b)"
        "?b @ rest" i j]
    by (simp add: rec enc24_def subslice_append_left)
  have v: "sniValueRange ?rec = (case locate_ext (length pre) (ch_exts ch) of None \<Rightarrow> Some None
     | Some (p, d) \<Rightarrow> map_option (map_option (\<lambda>(s, e). (9 + p + s, 9 + p + e))) (sniNameRangeInExtension d))"
    unfolding sniValueRange_record [OF w(1,2) rec] loop
    by (rule extLoop_enc [OF b refl]) (use b w in simp_all)
  note f = locate_ext_find [OF b refl]
  show ?thesis
  proof (cases "locate_ext (length pre) (ch_exts ch)")
    case None
    then have "find (\<lambda>x. fst x = 0) (ch_exts ch) = None" using f by simp
    then have "\<not> (\<exists>x \<in> set (ch_exts ch). fst x = 0)" unfolding find_None_iff by blast
    with None v show ?thesis by (auto simp: extracted_name_def)
  next
    case (Some pd)
    obtain p d where [simp]: "pd = (p, d)" by fastforce
    from Some f have d: "find (\<lambda>x. fst x = 0) (ch_exts ch) = Some (0, d)" "p + length d \<le> length ?b"
      "subslice ?b p (p + length d) = d" by simp_all
    from d(1) have m: "(0, d) \<in> set (ch_exts ch)" unfolding find_Some_iff by (metis nth_mem)
    then have ex: "\<exists>x \<in> set (ch_exts ch). fst x = 0" by force
    have "d = enc_names ns" using names m by fastforce
    then obtain r where r: "sniNameRangeInExtension d = Some r"
      "map_option (\<lambda>(s, e). subslice d s e) r = map_option snd (find host_entry ns)"
      using sniNameRangeInExtension_enc [of ns] d(2) w(1) by auto
    have "subslice ?rec (9 + p + s) (9 + p + e) = subslice d s e" if "r = Some (s, e)" for s e
      using sniNameRangeInExtension_range [of d] r(1) that d(2,3)
        subslice_subslice [of p e "p + length d" ?b s] r9 [of "p + e" "p + s"]
      by (simp add: add.assoc)
    with Some v r ex show ?thesis
      by (cases r) (auto simp: extracted_name_def)
  qed
qed

text \<open>A concrete ClientHello for the witnesses: one other extension, then the server name
  \<^verbatim>\<open>a.bc\<close>.\<close>

definition sample_names :: "server_name list" where
  "sample_names = [(1, [120]), (0, [97, 46, 98, 99])]"

definition sample_hello :: client_hello where
  "sample_hello = \<lparr>ch_fixed = replicate 34 0, ch_session = [1, 2], ch_ciphers = [0x13, 1],
     ch_compression = [0], ch_exts = [(10, [0, 0]), (0, enc_names sample_names)]\<rparr>"

lemma sample_hello_wf: "wf_client_hello sample_hello"
  by (simp add: wf_client_hello_def sample_hello_def enc_body_def enc_ext_def enc_names_def
      enc_name_def sample_names_def)

lemma sample_hello_names:
  "\<forall>x \<in> set (ch_exts sample_hello). fst x = 0 \<longrightarrow> snd x = enc_names sample_names"
  by (simp add: sample_hello_def)

lemma sample_range:
  obtains s e where "sniValueRange (enc_record 3 1 sample_hello) = Some (Some (s, e))"
    "9 \<le> s" "s < e" "e \<le> length (enc_record 3 1 sample_hello)"
proof -
  have "extracted_name (enc_record 3 1 sample_hello @ []) \<noteq> None"
    unfolding extracted_name_enc [OF sample_hello_wf sample_hello_names]
    by (simp add: sample_hello_def sample_names_def)
  then show ?thesis
    by (cases rule: sniValueRange_cases [of "enc_record 3 1 sample_hello"])
      (auto simp: extracted_name_def intro: that)
qed

lemma sample_length: "length (enc_record 3 1 sample_hello) = 77"
  by (simp add: enc_record_def enc_body_def sample_hello_def enc_ext_def enc_names_def enc_name_def
      sample_names_def enc24_def)

text \<open>
  C20. \<open>sniValueRange\<close> never panics, whatever bytes it is given, and a range it reports is a non-empty range
  inside the record, behind the record and handshake headers. In the encoding of a ClientHello whose
  server-name extension lists \<open>ns\<close>, with any other extensions before and after it and any bytes after the
  record, it reports exactly the first non-empty \<^verbatim>\<open>host_name\<close> entry of the list, and nothing when there is no
  such extension or entry.
\<close>

theorem sniValueRange_correct:
  assumes wf: "wf_client_hello ch"
    and names: "\<forall>x \<in> set (ch_exts ch). fst x = 0 \<longrightarrow> snd x = enc_names ns"
  shows "range_in 9 (length anything) (sniValueRange anything) \<and>
    extracted_name (enc_record v1 v2 ch @ rest) =
      (if \<exists>x \<in> set (ch_exts ch). fst x = 0 then map_option snd (find host_entry ns) else None)"
  by (rule conjI [OF sniValueRange_range extracted_name_enc [OF assms]])

theorem sniValueRange_correct_witness:
  "wf_client_hello sample_hello \<and>
   extracted_name (enc_record 3 1 sample_hello @ [23]) = Some [97, 46, 98, 99]"
  using sniValueRange_correct [OF sample_hello_wf sample_hello_names, of "[]" 3 1 "[23]"] sample_hello_wf
  by (simp add: sample_names_def) (simp add: sample_hello_def)

section \<open>The contract of the splitter\<close>

text \<open>
  C21. Splitting never panics while \<open>length + chunk\<close> stays below \<open>2 ^ 63\<close>. The fragments are
  non-empty and concatenate to the record. When a host name is found the first fragment ends
  where the name starts, and the name itself is cut into pieces of at most \<open>chunk\<close> bytes (one
  piece when the chunk size is not positive); otherwise the record is sent whole.
\<close>

theorem SplitClientHelloRecord_lossless:
  assumes "int (length rec) + chunk < 2 ^ 63"
  shows "\<exists>frags. SplitClientHelloRecord rec chunk = Some frags \<and> concat frags = rec \<and> [] \<notin> set frags \<and>
    (case sniValueRange rec of
       Some (Some (s, e)) \<Rightarrow> \<exists>mid post. frags = take s rec # mid @ post \<and> concat mid = subslice rec s e \<and>
         (0 < chunk \<longrightarrow> (\<forall>p \<in> set mid. int (length p) \<le> chunk))
     | _ \<Rightarrow> frags = (if rec = [] then [] else [rec]))"
proof (rule sniValueRange_cases [of rec])
  assume "sniValueRange rec = Some None"
  then show ?thesis by (simp add: SplitClientHelloRecord_def Let_def)
next
  fix s e
  assume r: "sniValueRange rec = Some (Some (s, e))"
  from SplitClientHelloRecord_range [OF r assms] obtain mid post where
    f: "SplitClientHelloRecord rec chunk = Some (take s rec # mid @ post) \<and>
      concat mid = subslice rec s e \<and> concat post = drop e rec \<and>
      (\<forall>p \<in> set mid. p \<noteq> [] \<and> (0 < chunk \<longrightarrow> int (length p) \<le> chunk)) \<and> (\<forall>p \<in> set post. p \<noteq> [])"
    by (elim exE)
  with Split_lossless [OF assms] have "concat (take s rec # mid @ post) = rec"
    "[] \<notin> set (take s rec # mid @ post)" by simp_all
  with f r show ?thesis by auto
qed

theorem SplitClientHelloRecord_lossless_witness:
  "int (length (enc_record 3 1 sample_hello)) + 3 < 2 ^ 63 \<and>
   (\<exists>frags. SplitClientHelloRecord (enc_record 3 1 sample_hello) 3 = Some frags \<and>
     concat frags = enc_record 3 1 sample_hello)"
  using SplitClientHelloRecord_lossless [of "enc_record 3 1 sample_hello" 3] sample_length by auto

text \<open>
  C22. A chunk size so large that \<^verbatim>\<open>i + sniChunkBytes\<close> overflows the 64-bit \<^verbatim>\<open>int\<close> makes the
  splitter panic on any record with a host name: the wrapped upper bound is negative.
\<close>

theorem SplitClientHelloRecord_overflow_panics:
  assumes "sniValueRange rec = Some (Some (s, e))"
    and "2 ^ 63 \<le> int s + chunk" and "chunk < 2 ^ 63" and "int s < 2 ^ 63"
  shows "SplitClientHelloRecord rec chunk = None"
  using assms by (rule Split_overflow)

theorem SplitClientHelloRecord_overflow_panics_witness:
  "SplitClientHelloRecord (enc_record 3 1 sample_hello) (2 ^ 63 - 1) = None"
proof (rule sample_range)
  fix s e
  assume "sniValueRange (enc_record 3 1 sample_hello) = Some (Some (s, e))" "9 \<le> s" "s < e"
    "e \<le> length (enc_record 3 1 sample_hello)"
  then show ?thesis
    using SplitClientHelloRecord_overflow_panics [of "enc_record 3 1 sample_hello" s e "2 ^ 63 - 1"]
    by (simp add: sample_length)
qed

section \<open>Reading: exactly one record is consumed\<close>

definition wf_record :: "byte list \<Rightarrow> bool" where
  "wf_record rec \<longleftrightarrow> 5 \<le> length rec \<and> rec ! 0 = 22 \<and>
     (let n = unat (be16 (rec ! 3) (rec ! 4)) in
      0 < n \<and> n \<le> maxTLSPlaintextRecord \<and> length rec = 5 + n)"

lemma wf_record_append:
  "length hdr = 5 \<Longrightarrow> wf_record (hdr @ body) \<longleftrightarrow> hdr ! 0 = 22 \<and>
    (let n = unat (be16 (hdr ! 3) (hdr ! 4)) in 0 < n \<and> n \<le> maxTLSPlaintextRecord \<and> length body = n)"
  by (auto simp: wf_record_def nth_append Let_def)

lemma ReadFull_Inr: "ReadFull n r = (Inr bs, r') \<longleftrightarrow>
    length bs = n \<and> pending r = bs @ pending r' \<and> final_error r' = final_error r"
  by (cases r; cases r') (auto simp: ReadFull_def)

text \<open>
  \<open>ReadFirstTLSRecord\<close> succeeds with \<open>rec\<close> exactly when the stream starts with the
  well-formed handshake record \<open>rec\<close> (type 22, a length between 1 and the limit, all of its
  bytes present), and then exactly the bytes of that record are consumed.
\<close>

lemma ReadFirstTLSRecord_iff:
  "ReadFirstTLSRecord r = (Inr rec, r') \<longleftrightarrow>
    wf_record rec \<and> pending r = rec @ pending r' \<and> final_error r' = final_error r"
proof
  assume "ReadFirstTLSRecord r = (Inr rec, r')"
  then obtain hdr r1 body where h: "ReadFull 5 r = (Inr hdr, r1)"
    and b: "ReadFull (unat (be16 (hdr ! 3) (hdr ! 4))) r1 = (Inr body, r')"
    and g: "hdr ! 0 = 22" "0 < unat (be16 (hdr ! 3) (hdr ! 4))"
      "unat (be16 (hdr ! 3) (hdr ! 4)) \<le> maxTLSPlaintextRecord" "rec = hdr @ body"
    by (auto simp: ReadFirstTLSRecord_def Let_def split: prod.splits sum.splits if_splits)
  then show "wf_record rec \<and> pending r = rec @ pending r' \<and> final_error r' = final_error r"
    by (auto simp: ReadFull_Inr wf_record_append Let_def)
next
  assume a: "wf_record rec \<and> pending r = rec @ pending r' \<and> final_error r' = final_error r"
  define hdr body where "hdr = take 5 rec" and "body = drop 5 rec"
  have rec: "rec = hdr @ body" "length hdr = 5" using a by (auto simp: hdr_def body_def wf_record_def)
  have h: "ReadFull 5 r = (Inr hdr, r'\<lparr>pending := body @ pending r'\<rparr>)"
    using a rec by (simp add: ReadFull_Inr)
  have "ReadFull (length body) (r'\<lparr>pending := body @ pending r'\<rparr>) = (Inr body, r')"
    by (simp add: ReadFull_Inr)
  with a rec h show "ReadFirstTLSRecord r = (Inr rec, r')"
    by (auto simp: ReadFirstTLSRecord_def wf_record_append Let_def)
qed

section \<open>Writing: the contract of the connection\<close>

text \<open>
  What \<open>WriteClientHelloFragments\<close> relies on: a successful write appends the whole piece to the
  outgoing byte stream, a failing one at most a part of it, and sleeping, logging and
  \<^verbatim>\<open>SetNoDelay\<close> send nothing.
\<close>

locale byte_sink =
  fixes wr :: "byte list \<Rightarrow> 'w \<Rightarrow> 'e option \<times> 'w"
    and sleep :: "int \<Rightarrow> 'w \<Rightarrow> 'w"
    and logf :: "nat \<Rightarrow> nat \<Rightarrow> nat \<Rightarrow> 'w \<Rightarrow> 'w"
    and noDelay :: "bool \<Rightarrow> 'w \<Rightarrow> 'w"
    and out :: "'w \<Rightarrow> byte list"
  assumes write_ok: "wr p w = (None, w') \<Longrightarrow> out w' = out w @ p"
    and write_err: "wr p w = (Some e, w') \<Longrightarrow> \<exists>q. prefix q p \<and> out w' = out w @ q"
    and sleep_out: "out (sleep d w) = out w"
    and log_out: "out (logf i n k w) = out w"
    and noDelay_out: "out (noDelay b w) = out w"
begin

lemma writeLoop_out:
  assumes "writeLoop wr sleep logf delay logEach nFrag sent ps w = (err, w')"
  shows "\<exists>q. out w' = out w @ q \<and> prefix q (concat ps) \<and> (err = None \<longrightarrow> q = concat ps)"
  using assms
proof (induction ps arbitrary: sent w)
  case (Cons p ps)
  let ?w = "if sent > 0 \<and> delay > 0 then sleep delay w else w"
  have w: "out ?w = out w" by (simp add: sleep_out)
  show ?case
  proof (cases "p = []")
    case False
    obtain e w1 where w1: "wr p ?w = (e, w1)" by fastforce
    show ?thesis
    proof (cases e)
      case None
      have "out (if logEach then logf (sent + 1) nFrag (length p) w1 else w1) = out w @ p"
        using write_ok [of p ?w w1] w1 None w by (simp add: log_out)
      moreover from Cons.prems False w1 None
      have "writeLoop wr sleep logf delay logEach nFrag (sent + 1) ps
          (if logEach then logf (sent + 1) nFrag (length p) w1 else w1) = (err, w')"
        by (simp add: Let_def split: if_splits)
      note Cons.IH [OF this]
      ultimately show ?thesis by auto
    next
      case (Some x)
      with Cons.prems False w1 have "err = Some x" "w' = w1" by (simp_all add: Let_def)
      with write_err [of p ?w x w1] w1 Some w show ?thesis by auto
    qed
  qed (use Cons in simp)
qed simp

lemma Write_out:
  assumes "WriteClientHelloFragments wr sleep logf frags delay (Some noDelay) logEach w = (err, w')"
  shows "\<exists>q. out w' = out w @ q \<and> prefix q (concat frags) \<and> (err = None \<longrightarrow> q = concat frags)"
  using assms writeLoop_out noDelay_out
  by (fastforce simp: WriteClientHelloFragments_def Let_def split: prod.splits)

end

text \<open>The Go TCP connection as the writer sees it: it takes \<open>room\<close> more bytes before it fails
  (a peer that resets or closes), and records what was done to it.\<close>

datatype sink_event = Wrote "byte list" | Slept int | NoDelay bool | Logged nat nat nat

record tcp_sink =
  sk_room :: nat
  sk_sent :: "byte list"
  sk_events :: "sink_event list"

definition sink_write :: "byte list \<Rightarrow> tcp_sink \<Rightarrow> string option \<times> tcp_sink" where
  "sink_write p k =
     (let q = take (sk_room k) p;
          k = k\<lparr>sk_room := sk_room k - length p, sk_sent := sk_sent k @ q, sk_events := sk_events k @ [Wrote q]\<rparr>
      in (if q = p then None else Some ''connection reset by peer'', k))"

definition sink_event :: "sink_event \<Rightarrow> tcp_sink \<Rightarrow> tcp_sink" where
  "sink_event ev k = k\<lparr>sk_events := sk_events k @ [ev]\<rparr>"

abbreviation "sink_sleep d \<equiv> sink_event (Slept d)"
abbreviation "sink_log i n k \<equiv> sink_event (Logged i n k)"
abbreviation "sink_noDelay b \<equiv> sink_event (NoDelay b)"

interpretation sink: byte_sink sink_write sink_sleep sink_log sink_noDelay sk_sent
  by unfold_locales (auto simp: sink_write_def sink_event_def Let_def take_is_prefix split: if_splits)

text \<open>The schedule of a successful run: the non-empty pieces in order, a pause between two of
  them, a log line after each when asked for.\<close>

fun schedule :: "int \<Rightarrow> bool \<Rightarrow> nat \<Rightarrow> nat \<Rightarrow> byte list list \<Rightarrow> sink_event list" where
  "schedule delay logEach n i [] = []"
| "schedule delay logEach n i (p # ps) =
     (if i > 0 \<and> delay > 0 then [Slept delay] else []) @ [Wrote p] @
     (if logEach then [Logged (i + 1) n (length p)] else []) @ schedule delay logEach n (i + 1) ps"

lemma writeLoop_room:
  assumes "length (concat ps) \<le> sk_room k"
  shows "\<exists>k'. writeLoop sink_write sink_sleep sink_log delay logEach n i ps k = (None, k') \<and>
    sk_events k' = sk_events k @ schedule delay logEach n i (filter (\<lambda>p. p \<noteq> []) ps)"
  using assms
proof (induction ps arbitrary: i k)
  case (Cons p ps)
  show ?case
  proof (cases "p = []")
    case False
    let ?k = "if i > 0 \<and> delay > 0 then sink_sleep delay k else k"
    define k1 where "k1 = snd (sink_write p ?k)"
    have "sk_room ?k = sk_room k" by (simp add: sink_event_def)
    then have k1: "sink_write p ?k = (None, k1)" "sk_room k1 = sk_room k - length p"
      "sk_events k1 = sk_events k @ (if i > 0 \<and> delay > 0 then [Slept delay] else []) @ [Wrote p]"
      using Cons.prems by (auto simp: sink_write_def sink_event_def k1_def Let_def)
    let ?k2 = "if logEach then sink_log (i + 1) n (length p) k1 else k1"
    have "length (concat ps) \<le> sk_room ?k2" using Cons.prems k1(2) by (simp add: sink_event_def)
    from Cons.IH [OF this, of "i + 1"] show ?thesis
      using False k1 by (auto simp: Let_def sink_event_def)
  qed (use Cons in simp)
qed simp

text \<open>
  C23. Writing the fragments to a connection: with room for all the bytes the call succeeds, and
  what happens is exactly \<^verbatim>\<open>SetNoDelay(true)\<close>, the non-empty fragments in order with one pause
  between two of them, \<^verbatim>\<open>SetNoDelay(false)\<close>. In every case, whether or not an error is returned,
  what has been sent is a prefix of the concatenated fragments, and all of it when no error is.
\<close>

theorem WriteClientHelloFragments_correct:
  "case WriteClientHelloFragments sink_write sink_sleep sink_log frags delay (Some sink_noDelay) logEach k of
     (err, k') \<Rightarrow>
       (\<exists>q. sk_sent k' = sk_sent k @ q \<and> prefix q (concat frags) \<and> (q \<noteq> concat frags \<longrightarrow> err \<noteq> None)) \<and>
       (length (concat frags) \<le> sk_room k \<longrightarrow> err = None \<and>
          sk_events k' = sk_events k @ NoDelay True #
            schedule delay logEach (length (filter (\<lambda>p. p \<noteq> []) frags)) 0 (filter (\<lambda>p. p \<noteq> []) frags) @
            [NoDelay False])"
proof -
  obtain err k' where r: "WriteClientHelloFragments sink_write sink_sleep sink_log frags delay
      (Some sink_noDelay) logEach k = (err, k')" by fastforce
  have "\<exists>q. sk_sent k' = sk_sent k @ q \<and> prefix q (concat frags) \<and> (q \<noteq> concat frags \<longrightarrow> err \<noteq> None)"
    using sink.Write_out [OF r] by blast
  moreover have "err = None \<and> sk_events k' = sk_events k @ NoDelay True #
      schedule delay logEach (length (filter (\<lambda>p. p \<noteq> []) frags)) 0 (filter (\<lambda>p. p \<noteq> []) frags) @ [NoDelay False]"
    if "length (concat frags) \<le> sk_room k"
  proof -
    have "length (concat frags) \<le> sk_room (sink_noDelay True k)" using that by (simp add: sink_event_def)
    from writeLoop_room [OF this, of delay logEach "length (filter (\<lambda>p. p \<noteq> []) frags)" 0]
    obtain k1 where "writeLoop sink_write sink_sleep sink_log delay logEach
        (length (filter (\<lambda>p. p \<noteq> []) frags)) 0 frags (sink_noDelay True k) = (None, k1)"
      "sk_events k1 = sk_events (sink_noDelay True k) @
        schedule delay logEach (length (filter (\<lambda>p. p \<noteq> []) frags)) 0 (filter (\<lambda>p. p \<noteq> []) frags)" by blast
    then show ?thesis using r by (auto simp: WriteClientHelloFragments_def Let_def sink_event_def)
  qed
  ultimately show ?thesis by (simp add: r)
qed

theorem WriteClientHelloFragments_correct_witness:
  "sk_events (snd (WriteClientHelloFragments sink_write sink_sleep sink_log [[1, 2], [], [3]] 5
      (Some sink_noDelay) False \<lparr>sk_room = 3, sk_sent = [], sk_events = []\<rparr>)) =
   [NoDelay True, Wrote [1, 2], Slept 5, Wrote [3], NoDelay False]"
  using WriteClientHelloFragments_correct [where frags = "[[1, 2], [], [3]]" and delay = 5 and logEach = False
      and k = "\<lparr>sk_room = 3, sk_sent = [], sk_events = []\<rparr>"]
  by (simp split: prod.splits)
end
