(* ===== verification/NetIP.thy ===== *)
theory NetIP
  imports Checksum
begin

text \<open>
  The part of Go's \<^verbatim>\<open>net\<close> package the program compares addresses with: \<^verbatim>\<open>net.ParseIP\<close> (both
  address families, as \<^verbatim>\<open>net/netip\<close> parses them), \<^verbatim>\<open>IP.Equal\<close>, and \<open>ipv4Equal\<close> of
  \<^verbatim>\<open>injection/tcp_ack.go\<close>. A parsed address is the 16-byte form; \<open>None\<close> is the \<^verbatim>\<open>nil\<close> of a
  string that is not an address.
\<close>

section \<open>Parsing\<close>

abbreviation code :: "char \<Rightarrow> nat" where
  "code c \<equiv> of_char c"

definition is_digit :: "char \<Rightarrow> bool" where
  "is_digit c \<longleftrightarrow> 48 \<le> code c \<and> code c \<le> 57"

text \<open>\<^verbatim>\<open>parseIPv4Fields\<close>: the scan of a dotted quad. \<open>val\<close> and \<open>digLen\<close> describe the field being
  read (\<open>digLen = 0\<close> right after a dot), \<open>done\<close> the finished ones.\<close>

fun parseIPv4Fields :: "nat \<Rightarrow> nat \<Rightarrow> byte list \<Rightarrow> string \<Rightarrow> byte list option" where
  "parseIPv4Fields val digLen done [] =
     (if length done < 3 \<or> digLen = 0 then None else Some (done @ [of_nat val]))"
| "parseIPv4Fields val digLen done (c # cs) =
     (if is_digit c then
        if digLen = 1 \<and> val = 0 then None
        else let val = val * 10 + (code c - 48) in
        if val > 255 then None else parseIPv4Fields val (digLen + 1) done cs
      else if c = CHR ''.'' then
        if digLen = 0 \<or> cs = [] \<or> length done = 3 then None
        else parseIPv4Fields 0 0 (done @ [of_nat val]) cs
      else None)"

definition v4InV6 :: "byte list \<Rightarrow> byte list" where
  "v4InV6 a = replicate 10 0 @ [0xff, 0xff] @ a"

definition hex_value :: "char \<Rightarrow> nat option" where
  "hex_value c =
     (if is_digit c then Some (code c - 48)
      else if 97 \<le> code c \<and> code c \<le> 102 then Some (code c - 87)
      else if 65 \<le> code c \<and> code c \<le> 70 then Some (code c - 55)
      else None)"

text \<open>One group of hexadecimal digits: \<open>None\<close> for a fifth digit, else the value, the number of
  digits and the rest.\<close>

fun hexGroup :: "nat \<Rightarrow> nat \<Rightarrow> string \<Rightarrow> (nat \<times> nat \<times> string) option" where
  "hexGroup acc off [] = Some (acc, off, [])"
| "hexGroup acc off (c # cs) =
     (case hex_value c of
        None \<Rightarrow> Some (acc, off, c # cs)
      | Some d \<Rightarrow> if off > 3 then None else hexGroup (acc * 16 + d) (off + 1) cs)"

lemma hexGroup_length: "hexGroup acc off s = Some (a, n, r) \<Longrightarrow> length r + n = length s + off"
  by (induction acc off s rule: hexGroup.induct) (auto split: option.splits if_splits)

text \<open>The loop of \<^verbatim>\<open>parseIPv6\<close>: \<open>ip\<close> holds the bytes read so far (\<^verbatim>\<open>i = len(ip)\<close>), \<open>ell\<close> the
  position of the ellipsis. The result is the bytes, the ellipsis and the unread rest.\<close>

function v6Loop :: "byte list \<Rightarrow> nat option \<Rightarrow> string \<Rightarrow> (byte list \<times> nat option \<times> string) option" where
  "v6Loop ip ell s =
     (if length ip \<ge> 16 then Some (ip, ell, s)
      else case hexGroup 0 0 s of
        None \<Rightarrow> None
      | Some (acc, off, r) \<Rightarrow>
          if off = 0 then None
          else if r \<noteq> [] \<and> hd r = CHR ''.'' then
            if ell = None \<and> length ip \<noteq> 12 then None
            else if length ip + 4 > 16 then None
            else (case parseIPv4Fields 0 0 [] s of
                    None \<Rightarrow> None
                  | Some q \<Rightarrow> Some (ip @ q, ell, []))
          else let ip = ip @ [of_nat (acc div 256), of_nat acc] in
          if r = [] then Some (ip, ell, [])
          else if hd r \<noteq> CHR '':'' then None
          else if length r = 1 then None
          else let r = tl r in
          if hd r = CHR '':'' then
            if ell \<noteq> None then None
            else if tl r = [] then Some (ip, Some (length ip), [])
            else v6Loop ip (Some (length ip)) (tl r)
          else v6Loop ip ell r)"
  by pat_completeness auto
termination
  by (relation "measure (\<lambda>(ip, ell, s). length s)")
    (auto dest!: hexGroup_length)

declare v6Loop.simps [simp del]

definition parseIPv6 :: "string \<Rightarrow> byte list option" where
  "parseIPv6 s =
     (if CHR ''%'' \<in> set s then None
      else let (ell, s) = (if take 2 s = ''::'' then (Some 0, drop 2 s) else (None, s)) in
      if ell \<noteq> None \<and> s = [] then Some (replicate 16 0)
      else case v6Loop [] ell s of
        None \<Rightarrow> None
      | Some (ip, ell, r) \<Rightarrow>
          if r \<noteq> [] then None
          else if length ip < 16 then
            (case ell of None \<Rightarrow> None
             | Some k \<Rightarrow> Some (take k ip @ replicate (16 - length ip) 0 @ drop k ip))
          else if ell \<noteq> None then None
          else Some ip)"

text \<open>\<^verbatim>\<open>netip.ParseAddr\<close> picks the family by the first dot, colon or percent sign.\<close>

definition ParseIP :: "string \<Rightarrow> byte list option" where
  "ParseIP s =
     (case find (\<lambda>c. c = CHR ''.'' \<or> c = CHR '':'' \<or> c = CHR ''%'') s of
        None \<Rightarrow> None
      | Some c \<Rightarrow>
          if c = CHR ''.'' then map_option v4InV6 (parseIPv4Fields 0 0 [] s)
          else if c = CHR '':'' then parseIPv6 s
          else None)"

definition IP_Equal :: "byte list \<Rightarrow> byte list \<Rightarrow> bool" where
  "IP_Equal ip x =
     (if length ip = length x then ip = x
      else if length ip = 4 \<and> length x = 16 then take 12 x = replicate 10 0 @ [0xff, 0xff] \<and> drop 12 x = ip
      else if length ip = 16 \<and> length x = 4 then take 12 ip = replicate 10 0 @ [0xff, 0xff] \<and> drop 12 ip = x
      else False)"

definition ipv4Equal :: "string \<Rightarrow> string \<Rightarrow> bool" where
  "ipv4Equal a b =
     (case (ParseIP a, ParseIP b) of
        (Some pa, Some pb) \<Rightarrow> IP_Equal pa pb
      | _ \<Rightarrow> a = b)"

section \<open>Printing an IPv4 address and parsing it back\<close>

lemma decimal_small: "n < 10 \<Longrightarrow> decimal n = [char_of (48 + n)]"
  by (subst decimal.simps) simp

lemma is_digit_decimal: "c \<in> set (decimal n) \<Longrightarrow> is_digit c"
  by (drule decimal_digits) (simp add: is_digit_def)

lemma decimal_no_zero: "n \<noteq> 0 \<Longrightarrow> hd (decimal n) \<noteq> CHR ''0''"
proof (induction n rule: decimal.induct)
  case (1 n)
  show ?case
  proof (cases "n < 10")
    case True
    then have "of_char (char_of (48 + n) :: char) \<noteq> (of_char (CHR ''0'') :: nat)" using 1(2) by simp
    then have "(char_of (48 + n) :: char) \<noteq> CHR ''0''" by metis
    with True show ?thesis by (simp add: decimal_small)
  next
    case False
    with 1 show ?thesis by (subst decimal.simps) simp
  qed
qed

text \<open>Scanning the digits of a number without a leading zero.\<close>

lemma parseIPv4Fields_digits:
  assumes "\<forall>c \<in> set ds. is_digit c" and "val \<noteq> 0 \<or> digLen = 0 \<and> (ds \<noteq> [] \<longrightarrow> hd ds \<noteq> CHR ''0'')"
    and "foldl (\<lambda>acc c. acc * 10 + (code c - 48)) val ds \<le> 255"
  shows "parseIPv4Fields val digLen done (ds @ cs) =
    parseIPv4Fields (foldl (\<lambda>acc c. acc * 10 + (code c - 48)) val ds) (digLen + length ds) done cs"
  using assms
proof (induction ds arbitrary: val digLen)
  case (Cons c ds)
  have mono: "v \<le> foldl (\<lambda>acc c. acc * 10 + (code c - 48)) v xs" for v :: nat and xs
  proof (induction xs arbitrary: v)
    case (Cons a xs)
    from Cons [of "v * 10 + (code a - 48)"] show ?case by simp
  qed simp
  let ?v = "val * 10 + (code c - 48)"
  have le: "?v \<le> 255" using mono [of ?v ds] Cons.prems(3) by simp
  have d: "is_digit c" using Cons.prems(1) by simp
  have "?v \<noteq> 0"
  proof (cases "val = 0")
    case True
    then have "c \<noteq> CHR ''0''" using Cons.prems(2) by simp
    then have "code c \<noteq> code (CHR ''0'')" by (simp only: of_char_eq_iff simp_thms)
    with d show ?thesis by (simp add: is_digit_def)
  qed simp
  with Cons.IH [of ?v "digLen + 1"] Cons.prems d le show ?case by (auto simp: Let_def)
qed simp


lemma parseIPv4Fields_decimal:
  assumes "n \<le> 255"
  shows "parseIPv4Fields 0 0 done (decimal n @ cs) = parseIPv4Fields n (length (decimal n)) done cs"
proof (cases "n = 0")
  case True
  then show ?thesis by (simp add: decimal_small is_digit_def)
next
  case False
  then show ?thesis
    using parseIPv4Fields_digits [of "decimal n" 0 0 "done" cs] undecimal_decimal [of n] assms
    by (simp add: is_digit_decimal decimal_no_zero)
qed

lemma parseIPv4Fields_dot:
  "length done < 3 \<Longrightarrow> cs \<noteq> [] \<Longrightarrow> n \<noteq> [] \<Longrightarrow>
    parseIPv4Fields v (length n) done (CHR ''.'' # cs) = parseIPv4Fields 0 0 (done @ [of_nat v]) cs"
  by (simp add: is_digit_def)

lemma unat_byte_le [simp]: "unat (b :: byte) \<le> 255"
  using unat_byte_less [of b] by linarith

lemma ParseIP_String:
  "ParseIP (IP_String (Some [a, b, c, d])) = Some (v4InV6 [a, b, c, d])"
proof -
  let ?s = "\<lambda>x :: byte. decimal (unat x)"
  let ?str = "?s a @ ''.'' @ ?s b @ ''.'' @ ?s c @ ''.'' @ ?s d"
  have nd: "find (\<lambda>c. c = CHR ''.'' \<or> c = CHR '':'' \<or> c = CHR ''%'') (ds @ xs) =
      find (\<lambda>c. c = CHR ''.'' \<or> c = CHR '':'' \<or> c = CHR ''%'') xs"
    if "\<forall>c \<in> set ds. is_digit c" for ds xs
    using that by (induction ds) (auto simp: is_digit_def)
  have "find (\<lambda>c. c = CHR ''.'' \<or> c = CHR '':'' \<or> c = CHR ''%'') ?str = Some (CHR ''.'')"
    by (subst nd) (simp_all add: is_digit_decimal)
  moreover have "parseIPv4Fields 0 0 [] ?str = Some [a, b, c, d]"
    by (simp add: parseIPv4Fields_decimal parseIPv4Fields_dot del: parseIPv4Fields.simps(2))
      (simp add: parseIPv4Fields_decimal [where cs = "[]", simplified])
  ultimately show ?thesis by (simp add: ParseIP_def IP_String_def)
qed



text \<open>
  Printing an IPv4 address and parsing it back gives the address in its 16-byte form, so
  \<open>ipv4Equal\<close> on the printed forms of two packet addresses is equality of the addresses.
\<close>

lemma ipv4Equal_String:
  "ParseIP (IP_String (Some [a, b, c, d])) = Some (v4InV6 [a, b, c, d]) \<and>
   (ipv4Equal (IP_String (Some [a, b, c, d])) (IP_String (Some [e, f, g, h])) \<longleftrightarrow>
     [a, b, c, d] = [e, f, g, h])"
  by (simp add: ipv4Equal_def ParseIP_String IP_Equal_def v4InV6_def)

end
