(* ===== verification/Connection.thy ===== *)
theory Connection
  imports NetIP
begin

text \<open>
  Model of \<^verbatim>\<open>connection/monitor.go\<close>, \<^verbatim>\<open>injection/common.go\<close> and the acknowledgement checks of
  \<^verbatim>\<open>injection/tcp_ack.go\<close>: the state of one monitored connection and the operations every
  injector shares.

  A \<^verbatim>\<open>net.Conn\<close> is an optional handle, the buffered channel \<^verbatim>\<open>T2aChan\<close> the list of the messages
  in it, an atomic boolean a boolean. The int64 sequence numbers hold \<open>-1\<close> or a uint32, so they
  are integers here. What a handler does besides updating the connection is returned as a list
  of effects, in program order.
\<close>

section \<open>The connection\<close>

record ConnID =
  id_SrcIP :: string
  id_SrcPort :: u16
  id_DstIP :: string
  id_DstPort :: u16

record MonitorConnection =
  Monitor :: bool
  SynSeq :: int
  SynAckSeq :: int
  SrcIP :: string
  DstIP :: string
  SrcPort :: u16
  DstPort :: u16
  ID :: ConnID
  Sock :: "nat option"

definition NewMonitorConnection ::
  "nat option \<Rightarrow> string \<Rightarrow> string \<Rightarrow> u16 \<Rightarrow> u16 \<Rightarrow> MonitorConnection" where
  "NewMonitorConnection sock srcIP dstIP srcPort dstPort =
     \<lparr>Monitor = True, SynSeq = -1, SynAckSeq = -1, SrcIP = srcIP, DstIP = dstIP,
      SrcPort = srcPort, DstPort = dstPort,
      ID = \<lparr>id_SrcIP = srcIP, id_SrcPort = srcPort, id_DstIP = dstIP, id_DstPort = dstPort\<rparr>,
      Sock = sock\<rparr>"

record FakeInjectiveConnection = MonitorConnection +
  FakeData :: "byte list"
  FakeSent :: bool
  T2aChan :: "string list"
  BypassMethod :: string
  PeerSock :: "nat option"
  FakeRepeat :: int
  FakeDelay :: int
  FragmentDelay :: int
  FakeInjectInProgress :: bool
  PostFakeAckObserved :: bool

definition NewFakeInjectiveConnection ::
  "nat option \<Rightarrow> string \<Rightarrow> string \<Rightarrow> u16 \<Rightarrow> u16 \<Rightarrow> byte list \<Rightarrow> string \<Rightarrow> nat option \<Rightarrow>
   int \<Rightarrow> int \<Rightarrow> int \<Rightarrow> FakeInjectiveConnection" where
  "NewFakeInjectiveConnection sock srcIP dstIP srcPort dstPort fakeData bypassMethod peerSock
     fakeRepeat fakeDelay fragmentDelay =
     (let fakeRepeat = (if fakeRepeat < 1 then 1 else fakeRepeat) in
      MonitorConnection.extend (NewMonitorConnection sock srcIP dstIP srcPort dstPort)
        (FakeInjectiveConnection.fields fakeData False [] bypassMethod peerSock fakeRepeat
          fakeDelay fragmentDelay False False))"

section \<open>Effects\<close>

text \<open>
  \<open>LogF\<close> is a line of \<^verbatim>\<open>log.Printf\<close>; \<open>CloseConn\<close> closes a socket; \<open>SetVerdict\<close> is nfqueue's
  accept verdict for a packet id; \<open>WdSend\<close> hands a packet to a WinDivert handle; \<open>GoInject\<close> starts
  the injection goroutine on a copy of the packet (on Windows with a copy of its address). The
  WinDivert address is a type parameter.
\<close>

datatype 'a effect =
    LogF string
  | CloseConn nat
  | SetVerdict u32
  | WdSend "byte list" 'a
  | GoInject "byte list"
  | GoInjectAddr "byte list" 'a

type_synonym 'a handled = "FakeInjectiveConnection \<times> 'a effect list"

section \<open>Operations of common.go\<close>

text \<open>\<^verbatim>\<open>select { case ch <- msg: default: }\<close> on the channel made with capacity 2.\<close>

definition T2aCap :: nat where
  "T2aCap = 2"

definition trySend :: "string \<Rightarrow> FakeInjectiveConnection \<Rightarrow> FakeInjectiveConnection" where
  "trySend msg conn =
     (if length (T2aChan conn) < T2aCap then conn\<lparr>T2aChan := T2aChan conn @ [msg]\<rparr> else conn)"

definition closeSocks :: "FakeInjectiveConnection \<Rightarrow> 'a effect list" where
  "closeSocks conn =
     (case Sock conn of None \<Rightarrow> [] | Some s \<Rightarrow> [CloseConn s]) @
     (case PeerSock conn of None \<Rightarrow> [] | Some s \<Rightarrow> [CloseConn s])"

definition AbortUnexpectedCloseLocked :: "FakeInjectiveConnection \<Rightarrow> 'a handled" where
  "AbortUnexpectedCloseLocked conn =
     (trySend ''unexpected_close'' (conn\<lparr>Monitor := False\<rparr>), closeSocks conn)"

definition IsMonitoring :: "FakeInjectiveConnection \<Rightarrow> bool" where
  "IsMonitoring conn = Monitor conn"

section \<open>Acknowledgement checks\<close>

definition tcpSeqInRingIntervalInclusive :: "u32 \<Rightarrow> u32 \<Rightarrow> u32 \<Rightarrow> bool" where
  "tcpSeqInRingIntervalInclusive x a b =
     (if a \<le> b then x \<ge> a \<and> x \<le> b else x \<ge> a \<or> x \<le> b)"

definition ackAcceptsPostFakeInbound :: "u32 \<Rightarrow> int \<Rightarrow> nat \<Rightarrow> bool" where
  "ackAcceptsPostFakeInbound ackNum synSeq fakeLen =
     (let minAck = (of_int synSeq + 1) AND 0xffffffff :: u32 in
      if fakeLen \<le> 0 then ackNum = minAck
      else let maxAck = ucast (ucast (of_int synSeq :: u32) + 1 + of_nat fakeLen :: 64 word) :: u32 in
        tcpSeqInRingIntervalInclusive ackNum minAck maxAck)"

definition postFakeInboundStrictOK :: "u32 \<Rightarrow> u32 \<Rightarrow> FakeInjectiveConnection \<Rightarrow> bool" where
  "postFakeInboundStrictOK seqNum ackNum conn =
     (if SynAckSeq conn = -1 then False
      else let expectedSeq = (of_int (SynAckSeq conn) + 1) AND 0xffffffff :: u32 in
      if expectedSeq \<noteq> seqNum then False
      else ackAcceptsPostFakeInbound ackNum (SynSeq conn) (length (FakeData conn)))"

definition postFakeInboundPermissiveOK :: "TCPFlags \<Rightarrow> bool" where
  "postFakeInboundPermissiveOK f \<longleftrightarrow> ACK f \<and> \<not> SYN f \<and> \<not> RST f"

section \<open>The ring interval\<close>

lemma and_full [simp]: "(w :: u32) AND 0xffffffff = w"
proof -
  have "(0xffffffff :: u32) = - 1" by simp
  then show ?thesis by (simp only: and.right_neutral)
qed

lemma ring_interval:
  "tcpSeqInRingIntervalInclusive x a b \<longleftrightarrow> unat (x - a) \<le> unat (b - a)"
proof -
  have sub: "unat (y - z) = (if z \<le> y then unat y - unat z else 2 ^ 32 + unat y - unat z)" for y z :: u32
    using unat_sub_if_size [of y z] by (auto simp: word_size word_le_nat_alt)
  have u: "unat y < 2 ^ 32" for y :: u32 using unsigned_less [of y] by simp
  show ?thesis
    using u [of x] u [of a] u [of b]
    by (auto simp: tcpSeqInRingIntervalInclusive_def sub word_le_nat_alt)
qed


lemma ucast_64_32: "ucast (ucast (w :: u32) + 1 + of_nat n :: 64 word) = w + 1 + (of_nat n :: u32)"
proof -
  have t: "take_bit k (take_bit k a + b) = take_bit k (a + b)" for k and a b :: int
    by (metis take_bit_add take_bit_take_bit min.idem)
  show ?thesis by transfer (simp only: take_bit_take_bit add.assoc t, simp add: t)
qed

text \<open>
  The acknowledgement check is the ring interval of RFC 793 arithmetic: for a fake shorter
  than \<open>2 ^ 32\<close> bytes it accepts exactly the acknowledgements at most \<open>fakeLen\<close> bytes past
  \<^verbatim>\<open>SynSeq+1\<close>, whether or not the interval wraps around the 32-bit sequence space.
\<close>

lemma ackAcceptsPostFakeInbound_ring:
  assumes "fakeLen < 2 ^ 32"
  shows "ackAcceptsPostFakeInbound ackNum synSeq fakeLen \<longleftrightarrow>
    unat (ackNum - (of_int synSeq + 1)) \<le> fakeLen"
proof -
  have "unat (of_nat fakeLen :: u32) = fakeLen"
    using assms by (simp add: unsigned_of_nat take_bit_nat_eq_self_iff)
  moreover have "w + 1 + v - (w + 1) = v" for w v :: u32 by simp
  ultimately show ?thesis
    using unat_eq_zero [of "ackNum - (of_int synSeq + 1)"]
    by (auto simp: ackAcceptsPostFakeInbound_def Let_def ring_interval ucast_64_32)
qed


section \<open>Invariant of a connection\<close>

text \<open>
  The values the injectors keep: sequence numbers are unset or 32-bit, the channel never
  holds more than its capacity, and a fake has only been sent after both handshake sequence
  numbers were learned.
\<close>

definition seq_ok :: "int \<Rightarrow> bool" where
  "seq_ok s \<longleftrightarrow> s = -1 \<or> 0 \<le> s \<and> s < 2 ^ 32"

definition conn_ok :: "FakeInjectiveConnection \<Rightarrow> bool" where
  "conn_ok conn \<longleftrightarrow> seq_ok (SynSeq conn) \<and> seq_ok (SynAckSeq conn) \<and>
     length (T2aChan conn) \<le> T2aCap \<and> 1 \<le> FakeRepeat conn \<and>
     (FakeSent conn \<or> FakeInjectInProgress conn \<longrightarrow> SynSeq conn \<noteq> -1 \<and> SynAckSeq conn \<noteq> -1)"

lemma seq_ok_uint [simp, intro]: "seq_ok (uint (w :: u32))"
  using uint_lt2p [of w] by (simp add: seq_ok_def)

lemma uint_not_unset [simp]: "uint (w :: u32) \<noteq> -1" "-1 \<noteq> uint w"
  using uint_ge_0 [of w] by linarith+

lemma trySend_simps [simp]:
  "Monitor (trySend m c) = Monitor c" "SynSeq (trySend m c) = SynSeq c"
  "SynAckSeq (trySend m c) = SynAckSeq c" "FakeSent (trySend m c) = FakeSent c"
  "FakeInjectInProgress (trySend m c) = FakeInjectInProgress c" "FakeRepeat (trySend m c) = FakeRepeat c"
  "PostFakeAckObserved (trySend m c) = PostFakeAckObserved c" "FakeData (trySend m c) = FakeData c"
  "Sock (trySend m c) = Sock c" "PeerSock (trySend m c) = PeerSock c"
  by (simp_all add: trySend_def)

lemma conn_ok_trySend: "conn_ok c \<Longrightarrow> conn_ok (trySend m c)"
  by (auto simp: conn_ok_def) (auto simp: trySend_def)

lemma conn_ok_new:
  "conn_ok (NewFakeInjectiveConnection sock srcIP dstIP srcPort dstPort fakeData bypassMethod peerSock
     fakeRepeat fakeDelay fragmentDelay)"
  by (simp add: conn_ok_def NewFakeInjectiveConnection_def Let_def MonitorConnection.defs
      FakeInjectiveConnection.defs NewMonitorConnection_def seq_ok_def)

lemma conn_ok_abort: "conn_ok c \<Longrightarrow> conn_ok (fst (AbortUnexpectedCloseLocked c))"
  unfolding AbortUnexpectedCloseLocked_def fst_conv by (rule conn_ok_trySend) (simp add: conn_ok_def)

end
