(* ===== verification/Handshake.thy ===== *)
theory Handshake
  imports Connection "HOL-Library.Sublist"
begin

text \<open>
  The TCP handshake the injectors follow, stated once: which outcome a segment has in a given
  connection state, what the outcome does to the connection, and the contract
  (\<open>injector_backend\<close>) that ties the five copies of the state machine in \<^verbatim>\<open>injection/\<close> to it.
  This is the specification; the code's handlers are in the backend theories, which interpret
  the contract.
\<close>

section \<open>Segments and outcomes\<close>

record segment =
  sg_flags :: TCPFlags
  sg_len :: nat
  sg_seq :: u32
  sg_ack :: u32

definition seg_of :: "byte list \<Rightarrow> segment" where
  "seg_of raw = \<lparr>sg_flags = GetTCPFlags raw, sg_len = TCPPayloadLen raw,
     sg_seq = TCPSeqNum raw, sg_ack = TCPAckNum raw\<rparr>"

definition pure_syn :: "segment \<Rightarrow> bool" where
  "pure_syn s \<longleftrightarrow> SYN (sg_flags s) \<and> \<not> ACK (sg_flags s) \<and> \<not> RST (sg_flags s) \<and> \<not> FIN (sg_flags s) \<and> sg_len s = 0"

definition pure_synack :: "segment \<Rightarrow> bool" where
  "pure_synack s \<longleftrightarrow> ACK (sg_flags s) \<and> SYN (sg_flags s) \<and> \<not> RST (sg_flags s) \<and> \<not> FIN (sg_flags s) \<and> sg_len s = 0"

definition pure_ack :: "segment \<Rightarrow> bool" where
  "pure_ack s \<longleftrightarrow> ACK (sg_flags s) \<and> \<not> SYN (sg_flags s) \<and> \<not> RST (sg_flags s) \<and> \<not> FIN (sg_flags s) \<and> sg_len s = 0"

definition ack_class :: "segment \<Rightarrow> bool" where
  "ack_class s \<longleftrightarrow> ACK (sg_flags s) \<and> \<not> SYN (sg_flags s) \<and> \<not> RST (sg_flags s)"

datatype outcome =
    Unexpected string
  | LearnSyn u32
  | LearnSynAck u32
  | NoteAck
  | FakeAcked
  | StartInjection
  | PassOn

definition next_seq :: "int \<Rightarrow> u32" where
  "next_seq s = of_int s + 1"

text \<open>The text of the two-number diagnostics.\<close>

definition info2 :: "string \<Rightarrow> u32 \<Rightarrow> int \<Rightarrow> string" where
  "info2 msg a b = msg @ '' '' @ decimal (unat a) @ '' '' @ decimal_int b"

definition inbound :: "segment \<Rightarrow> FakeInjectiveConnection \<Rightarrow> outcome" where
  "inbound s c =
     (if SynSeq c = -1 then Unexpected ''unexpected inbound packet, no syn sent!''
      else if pure_synack s then
        if SynAckSeq c \<noteq> -1 \<and> SynAckSeq c \<noteq> int (unat (sg_seq s))
        then Unexpected (info2 ''unexpected inbound syn-ack, seq change!'' (sg_seq s) (SynAckSeq c))
        else if sg_ack s \<noteq> next_seq (SynSeq c)
        then Unexpected (info2 ''unexpected inbound syn-ack, ack not matched!'' (sg_ack s) (SynSeq c))
        else LearnSynAck (sg_seq s)
      else if ack_class s \<and> FakeInjectInProgress c \<and> \<not> FakeSent c then NoteAck
      else if ack_class s \<and> FakeSent c \<and> SynAckSeq c \<noteq> -1 then FakeAcked
      else Unexpected ''unexpected inbound packet'')"

definition outbound :: "segment \<Rightarrow> FakeInjectiveConnection \<Rightarrow> outcome" where
  "outbound s c =
     (if FakeSent c \<or> FakeInjectInProgress c then PassOn
      else if pure_syn s then
        if sg_ack s \<noteq> 0 then Unexpected ''unexpected outbound syn, ack_num is not zero!''
        else if SynSeq c \<noteq> -1 \<and> SynSeq c \<noteq> int (unat (sg_seq s))
        then Unexpected (info2 ''unexpected outbound syn, seq not matched!'' (sg_seq s) (SynSeq c))
        else LearnSyn (sg_seq s)
      else if pure_ack s then
        if SynSeq c = -1 \<or> next_seq (SynSeq c) \<noteq> sg_seq s
        then Unexpected (info2 ''unexpected outbound ack, seq not matched!'' (sg_seq s) (SynSeq c))
        else if SynAckSeq c = -1 \<or> sg_ack s \<noteq> next_seq (SynAckSeq c)
        then Unexpected (info2 ''unexpected outbound ack, ack not matched!'' (sg_ack s) (SynAckSeq c))
        else StartInjection
      else Unexpected ''unexpected outbound packet'')"

definition apply_outcome :: "outcome \<Rightarrow> FakeInjectiveConnection \<Rightarrow> FakeInjectiveConnection" where
  "apply_outcome out c =
     (case out of
        Unexpected info \<Rightarrow> trySend ''unexpected_close'' (c\<lparr>Monitor := False\<rparr>)
      | LearnSyn q \<Rightarrow> c\<lparr>SynSeq := int (unat q)\<rparr>
      | LearnSynAck q \<Rightarrow> c\<lparr>SynAckSeq := int (unat q)\<rparr>
      | NoteAck \<Rightarrow> c\<lparr>PostFakeAckObserved := True\<rparr>
      | FakeAcked \<Rightarrow> trySend ''fake_data_ack_recv'' (c\<lparr>Monitor := False\<rparr>)
      | StartInjection \<Rightarrow> c\<lparr>FakeInjectInProgress := True\<rparr>
      | PassOn \<Rightarrow> c)"

text \<open>What is done besides: the diagnostics and the closed sockets of an abort, the packet
  itself passed on, the injection goroutine started after that.\<close>

definition outcome_effects ::
  "'a effect list \<Rightarrow> 'a effect list \<Rightarrow> byte list \<Rightarrow> FakeInjectiveConnection \<Rightarrow> outcome \<Rightarrow> 'a effect list" where
  "outcome_effects pass spawn raw c out =
     (case out of
        Unexpected info \<Rightarrow>
          LogF (''injector: '' @ info @ '' '' @ PacketSummary raw) # closeSocks c @ pass
      | StartInjection \<Rightarrow> pass @ spawn
      | _ \<Rightarrow> pass)"

lemmas segment_defs = seg_of_def pure_syn_def pure_synack_def pure_ack_def ack_class_def

text \<open>The diagnostics of the post-fake check.\<close>

definition after_fake_info :: "u32 \<Rightarrow> u32 \<Rightarrow> FakeInjectiveConnection \<Rightarrow> bool \<Rightarrow> string" where
  "after_fake_info seqNum ackNum conn strict =
     ''unexpected inbound after fake seq='' @ decimal (unat seqNum) @ '' ack='' @ decimal (unat ackNum) @
     '' synAck='' @ decimal_int (SynAckSeq conn) @ '' syn='' @ decimal_int (SynSeq conn) @
     '' strict='' @ (if strict then ''true'' else ''false'')"

section \<open>The shape of the code\<close>

text \<open>
  The nested conditionals of the handlers, with an arbitrary function \<open>h\<close> at the leaves, choose the
  leaf the machine prescribes. In particular the strict acknowledgement check is dead code: in the
  branch where it is evaluated the permissive check holds already.
\<close>

lemma inbound_code:
  "(if SynSeq conn = -1 then h (Unexpected ''unexpected inbound packet, no syn sent!'')
    else if ACK (GetTCPFlags raw) \<and> SYN (GetTCPFlags raw) \<and> \<not> RST (GetTCPFlags raw) \<and> \<not> FIN (GetTCPFlags raw) \<and> TCPPayloadLen raw = 0 then
      (if SynAckSeq conn \<noteq> -1 \<and> SynAckSeq conn \<noteq> int (unat (TCPSeqNum raw)) then
         h (Unexpected (info2 ''unexpected inbound syn-ack, seq change!'' (TCPSeqNum raw) (SynAckSeq conn)))
       else if TCPAckNum raw \<noteq> ((of_int (SynSeq conn) + 1) AND 0xffffffff :: u32) then
         h (Unexpected (info2 ''unexpected inbound syn-ack, ack not matched!'' (TCPAckNum raw) (SynSeq conn)))
       else h (LearnSynAck (TCPSeqNum raw)))
    else if ACK (GetTCPFlags raw) \<and> \<not> SYN (GetTCPFlags raw) \<and> \<not> RST (GetTCPFlags raw) \<and> FakeInjectInProgress conn \<and> \<not> FakeSent conn then
      h NoteAck
    else if ACK (GetTCPFlags raw) \<and> \<not> SYN (GetTCPFlags raw) \<and> \<not> RST (GetTCPFlags raw) \<and> FakeSent conn \<and> SynAckSeq conn \<noteq> -1 then
      (if \<not> postFakeInboundStrictOK (TCPSeqNum raw) (TCPAckNum raw) conn \<and> \<not> postFakeInboundPermissiveOK (GetTCPFlags raw) then
         h (Unexpected (after_fake_info (TCPSeqNum raw) (TCPAckNum raw) conn
              (postFakeInboundStrictOK (TCPSeqNum raw) (TCPAckNum raw) conn)))
       else h FakeAcked)
    else h (Unexpected ''unexpected inbound packet'')) = h (inbound (seg_of raw) conn)"
proof -
  have s: "sg_flags (seg_of raw) = GetTCPFlags raw" "sg_len (seg_of raw) = TCPPayloadLen raw"
    "sg_seq (seg_of raw) = TCPSeqNum raw" "sg_ack (seg_of raw) = TCPAckNum raw"
    by (simp_all add: seg_of_def)
  show ?thesis
    unfolding inbound_def pure_synack_def ack_class_def next_seq_def postFakeInboundPermissiveOK_def and_full s
    by (simp only: if_distrib [of h] simp_thms if_False conj_assoc cong: if_cong)
qed

lemma outbound_code:
  "(if FakeSent conn then h PassOn
    else if FakeInjectInProgress conn then h PassOn
    else if SYN (GetTCPFlags raw) \<and> \<not> ACK (GetTCPFlags raw) \<and> \<not> RST (GetTCPFlags raw) \<and> \<not> FIN (GetTCPFlags raw) \<and> TCPPayloadLen raw = 0 then
      (if TCPAckNum raw \<noteq> 0 then h (Unexpected ''unexpected outbound syn, ack_num is not zero!'')
       else if SynSeq conn \<noteq> -1 \<and> SynSeq conn \<noteq> int (unat (TCPSeqNum raw)) then
         h (Unexpected (info2 ''unexpected outbound syn, seq not matched!'' (TCPSeqNum raw) (SynSeq conn)))
       else h (LearnSyn (TCPSeqNum raw)))
    else if ACK (GetTCPFlags raw) \<and> \<not> SYN (GetTCPFlags raw) \<and> \<not> RST (GetTCPFlags raw) \<and> \<not> FIN (GetTCPFlags raw) \<and> TCPPayloadLen raw = 0 then
      (if SynSeq conn = -1 \<or> ((of_int (SynSeq conn) + 1) AND 0xffffffff :: u32) \<noteq> TCPSeqNum raw then
         h (Unexpected (info2 ''unexpected outbound ack, seq not matched!'' (TCPSeqNum raw) (SynSeq conn)))
       else if SynAckSeq conn = -1 \<or> TCPAckNum raw \<noteq> ((of_int (SynAckSeq conn) + 1) AND 0xffffffff :: u32) then
         h (Unexpected (info2 ''unexpected outbound ack, ack not matched!'' (TCPAckNum raw) (SynAckSeq conn)))
       else h StartInjection)
    else h (Unexpected ''unexpected outbound packet'')) = h (outbound (seg_of raw) conn)"
proof -
  have s: "sg_flags (seg_of raw) = GetTCPFlags raw" "sg_len (seg_of raw) = TCPPayloadLen raw"
    "sg_seq (seg_of raw) = TCPSeqNum raw" "sg_ack (seg_of raw) = TCPAckNum raw"
    by (simp_all add: seg_of_def)
  show ?thesis
    unfolding outbound_def pure_syn_def pure_ack_def next_seq_def and_full s
    by (cases "FakeSent conn"; cases "FakeInjectInProgress conn")
      (simp_all only: if_distrib [of h] simp_thms if_True if_False cong: if_cong)
qed

lemma disj_code: "(if a \<or> b then x else y) = (if a then x else if b then x else y)"
  by simp

section \<open>Invariant\<close>

lemma conn_ok_apply:
  assumes "conn_ok c" and "out = StartInjection \<Longrightarrow> SynSeq c \<noteq> -1 \<and> SynAckSeq c \<noteq> -1"
  shows "conn_ok (apply_outcome out c)"
proof -
  have "conn_ok (c\<lparr>Monitor := False\<rparr>)" using assms(1) by (simp add: conn_ok_def)
  then show ?thesis
    using assms by (cases out) (simp_all add: apply_outcome_def conn_ok_trySend, simp_all add: conn_ok_def)
qed

lemma conn_ok_inbound: "conn_ok c \<Longrightarrow> conn_ok (apply_outcome (inbound s c) c)"
  by (erule conn_ok_apply) (simp add: inbound_def split: if_splits)

lemma conn_ok_outbound: "conn_ok c \<Longrightarrow> conn_ok (apply_outcome (outbound s c) c)"
  by (erule conn_ok_apply) (simp add: outbound_def split: if_splits)

text \<open>What no handler ever does: resume monitoring, forget a sequence number, or touch the
  fields the injection goroutine owns.\<close>

definition conn_le :: "FakeInjectiveConnection \<Rightarrow> FakeInjectiveConnection \<Rightarrow> bool" where
  "conn_le c c' \<longleftrightarrow>
     (Monitor c' \<longrightarrow> Monitor c) \<and>
     (SynSeq c \<noteq> -1 \<longrightarrow> SynSeq c' = SynSeq c) \<and> (SynAckSeq c \<noteq> -1 \<longrightarrow> SynAckSeq c' = SynAckSeq c) \<and>
     FakeData c' = FakeData c \<and> FakeSent c' = FakeSent c \<and>
     (FakeInjectInProgress c \<longrightarrow> FakeInjectInProgress c') \<and>
     (PostFakeAckObserved c \<longrightarrow> PostFakeAckObserved c') \<and>
     prefix (T2aChan c) (T2aChan c')"

lemma conn_le_refl [simp]: "conn_le c c"
  by (simp add: conn_le_def)

lemma T2aChan_trySend: "prefix (T2aChan c) (T2aChan (trySend m c))"
  by (simp add: trySend_def)

lemma conn_le_trySend: "conn_le c (trySend m (c\<lparr>Monitor := False\<rparr>))"
  using T2aChan_trySend [of "c\<lparr>Monitor := False\<rparr>" m] by (simp add: conn_le_def)

lemma conn_le_apply:
  assumes "\<And>q. out = LearnSyn q \<Longrightarrow> SynSeq c = -1 \<or> SynSeq c = uint q"
    and "\<And>q. out = LearnSynAck q \<Longrightarrow> SynAckSeq c = -1 \<or> SynAckSeq c = uint q"
  shows "conn_le c (apply_outcome out c)"
  using assms by (cases out) (auto simp: apply_outcome_def conn_le_trySend, auto simp: conn_le_def)

lemma conn_le_inbound: "conn_le c (apply_outcome (inbound s c) c)"
  by (rule conn_le_apply) (simp_all add: inbound_def split: if_splits)

lemma conn_le_outbound: "conn_le c (apply_outcome (outbound s c) c)"
  by (rule conn_le_apply) (simp_all add: outbound_def split: if_splits)

lemma apply_success:
  assumes "T2aChan (apply_outcome out c) = T2aChan c @ [''fake_data_ack_recv'']"
  shows "out = FakeAcked" and "\<not> Monitor (apply_outcome out c)"
proof -
  show "out = FakeAcked"
    using assms by (cases out) (simp_all add: apply_outcome_def trySend_def split: if_splits)
  then show "\<not> Monitor (apply_outcome out c)" by (simp add: apply_outcome_def trySend_def)
qed

text \<open>The success signal is only ever sent for an ACK-class segment after the fake was sent.\<close>

lemma success_signal:
  assumes "T2aChan (apply_outcome out c) = T2aChan c @ [''fake_data_ack_recv'']"
    and "out = inbound s c \<or> out = outbound s c"
  shows "out = FakeAcked \<and> FakeSent c \<and> SynAckSeq c \<noteq> -1 \<and> ack_class s \<and> \<not> Monitor (apply_outcome out c)"
proof -
  have "FakeAcked = inbound s c \<or> FakeAcked = outbound s c" using apply_success(1) [OF assms(1)] assms(2) by metis
  then have "FakeSent c \<and> SynAckSeq c \<noteq> -1 \<and> ack_class s"
    by (elim disjE) (simp_all add: inbound_def outbound_def split: if_splits)
  with apply_success [OF assms(1)] show ?thesis by blast
qed

section \<open>The contract of a backend\<close>

locale injector_backend =
  fixes onInbound :: "'env \<Rightarrow> byte list \<Rightarrow> FakeInjectiveConnection \<Rightarrow> 'a handled"
    and onOutbound :: "'env \<Rightarrow> byte list \<Rightarrow> FakeInjectiveConnection \<Rightarrow> 'a handled"
    and pass :: "'env \<Rightarrow> byte list \<Rightarrow> 'a effect list"
    and spawn :: "'env \<Rightarrow> byte list \<Rightarrow> 'a effect list"
  assumes inbound_refines: "onInbound env raw c =
      (apply_outcome (inbound (seg_of raw) c) c,
       outcome_effects (pass env raw) (spawn env raw) raw c (inbound (seg_of raw) c))"
    and outbound_refines: "onOutbound env raw c =
      (apply_outcome (outbound (seg_of raw) c) c,
       outcome_effects (pass env raw) (spawn env raw) raw c (outbound (seg_of raw) c))"
begin

lemma inbound_ok: "conn_ok c \<Longrightarrow> conn_ok (fst (onInbound env raw c))"
  by (simp add: inbound_refines conn_ok_inbound)

lemma outbound_ok: "conn_ok c \<Longrightarrow> conn_ok (fst (onOutbound env raw c))"
  by (simp add: outbound_refines conn_ok_outbound)

lemma handshake_injects:
  assumes new: "SynSeq c = -1" "SynAckSeq c = -1" "\<not> FakeSent c" "\<not> FakeInjectInProgress c"
    and syn: "pure_syn (seg_of p1)" "TCPAckNum p1 = 0"
    and synack: "pure_synack (seg_of p2)" "TCPAckNum p2 = TCPSeqNum p1 + 1"
    and ack: "pure_ack (seg_of p3)" "TCPSeqNum p3 = TCPSeqNum p1 + 1" "TCPAckNum p3 = TCPSeqNum p2 + 1"
    and run: "onOutbound e1 p1 c = (c1, f1)" "onInbound e2 p2 c1 = (c2, f2)" "onOutbound e3 p3 c2 = (c3, f3)"
  shows "c3 = c\<lparr>SynSeq := int (unat (TCPSeqNum p1)), SynAckSeq := int (unat (TCPSeqNum p2)),
      FakeInjectInProgress := True\<rparr> \<and>
    f1 = pass e1 p1 \<and> f2 = pass e2 p2 \<and> f3 = pass e3 p3 @ spawn e3 p3"
proof -
  have sq: "sg_seq (seg_of p) = TCPSeqNum p" "sg_ack (seg_of p) = TCPAckNum p" for p
    by (simp_all add: seg_of_def)
  have o1: "outbound (seg_of p1) c = LearnSyn (TCPSeqNum p1)"
    using new syn by (simp add: outbound_def sq)
  then have c1: "c1 = c\<lparr>SynSeq := int (unat (TCPSeqNum p1))\<rparr>" "f1 = pass e1 p1"
    using run(1) by (simp_all add: outbound_refines apply_outcome_def outcome_effects_def)
  have o2: "inbound (seg_of p2) c1 = LearnSynAck (TCPSeqNum p2)"
    using new synack by (simp add: inbound_def c1 sq next_seq_def)
  then have c2: "c2 = c1\<lparr>SynAckSeq := int (unat (TCPSeqNum p2))\<rparr>" "f2 = pass e2 p2"
    using run(2) by (simp_all add: inbound_refines apply_outcome_def outcome_effects_def)
  have "\<not> pure_syn (seg_of p3)" using ack(1) by (auto simp: pure_syn_def pure_ack_def)
  then have "outbound (seg_of p3) c2 = StartInjection"
    using new ack by (simp add: outbound_def c1 c2 sq next_seq_def)
  then show ?thesis
    using run(3) c1 c2 by (auto simp: outbound_refines apply_outcome_def outcome_effects_def)
qed

end

end
