(* ===== verification/Flow_Table.thy ===== *)
theory Flow_Table
  imports Handshake
begin

text \<open>
  The tables every injector keeps: registered connections by 4-tuple and by local port
  (\<^verbatim>\<open>sync.Map\<close>s holding pointers, here references into a store of connections), and the contract
  of registration and lookup that the packet handlers rely on.
\<close>

record flow_table =
  Connections :: "ConnID \<rightharpoonup> nat"
  byLocalPort :: "u16 \<rightharpoonup> nat"
  heap :: "nat \<Rightarrow> FakeInjectiveConnection"

definition quad :: "string \<Rightarrow> u16 \<Rightarrow> string \<Rightarrow> u16 \<Rightarrow> ConnID" where
  "quad srcIP srcPort dstIP dstPort =
     \<lparr>id_SrcIP = srcIP, id_SrcPort = srcPort, id_DstIP = dstIP, id_DstPort = dstPort\<rparr>"

definition update_conn :: "nat \<Rightarrow> FakeInjectiveConnection \<Rightarrow> 'x flow_table_scheme \<Rightarrow> 'x flow_table_scheme" where
  "update_conn r c f = f\<lparr>heap := (heap f)(r := c)\<rparr>"

text \<open>The identity of a connection is its addresses and ports.\<close>

definition id_ok :: "FakeInjectiveConnection \<Rightarrow> bool" where
  "id_ok c \<longleftrightarrow> ID c = quad (SrcIP c) (SrcPort c) (DstIP c) (DstPort c)"

lemma quad_inject [simp]: "quad a b c d = quad a' b' c' d' \<longleftrightarrow> a = a' \<and> b = b' \<and> c = c' \<and> d = d'"
  by (auto simp: quad_def)

text \<open>
  What registering and unregistering the connection \<open>r\<close> does to a table, whatever it holds: its packets and,
  unless another flow is entered under exactly the reversed addresses, the replies are found; a lookup that
  has neither its addresses nor its local port gives what it gave before; after unregistering neither
  direction is found, if nothing else stands under the reversed addresses or the server's port; and
  unregistering gives back the table as it was before registering a new flow.
\<close>

definition flow_operations ::
  "(nat \<Rightarrow> 'x flow_table_scheme \<Rightarrow> 'x flow_table_scheme) \<Rightarrow> (nat \<Rightarrow> 'x flow_table_scheme \<Rightarrow> 'x flow_table_scheme) \<Rightarrow>
   ('x flow_table_scheme \<Rightarrow> string \<Rightarrow> u16 \<Rightarrow> string \<Rightarrow> u16 \<Rightarrow> (nat \<times> bool) option \<times> 'x flow_table_scheme) \<Rightarrow>
   'x flow_table_scheme \<Rightarrow> nat \<Rightarrow> bool" where
  "flow_operations register unregister lookup f r \<longleftrightarrow>
     (let c = heap f r; a = SrcIP c; p = SrcPort c; b = DstIP c; q = DstPort c; reverse = quad b q a p in
      lookup (register r f) a p b q = (Some (r, True), register r f) \<and>
      (Connections f reverse = None \<and> reverse \<noteq> ID c \<longrightarrow>
        lookup (register r f) b q a p = (Some (r, False), register r f)) \<and>
      (\<forall>a' p' b' q'. quad a' p' b' q' \<noteq> ID c \<and> quad b' q' a' p' \<noteq> ID c \<and> p' \<noteq> p \<and> q' \<noteq> p \<longrightarrow>
        fst (lookup (register r f) a' p' b' q') = fst (lookup f a' p' b' q') \<and>
        fst (lookup (unregister r f) a' p' b' q') = fst (lookup f a' p' b' q')) \<and>
      (Connections f reverse = None \<and> byLocalPort f q = None \<longrightarrow>
        lookup (unregister r f) a p b q = (None, unregister r f) \<and>
        lookup (unregister r f) b q a p = (None, unregister r f)) \<and>
      (Connections f (ID c) = None \<and> byLocalPort f p = None \<longrightarrow> unregister r (register r f) = f))"

text \<open>
  The contract of the tables: \<open>lookup\<close> returns the reference and whether the packet is outbound,
  and the table as it leaves it.
\<close>

locale flow_lookup =
  fixes register :: "nat \<Rightarrow> 'x flow_table_scheme \<Rightarrow> 'x flow_table_scheme"
    and unregister :: "nat \<Rightarrow> 'x flow_table_scheme \<Rightarrow> 'x flow_table_scheme"
    and lookup :: "'x flow_table_scheme \<Rightarrow> string \<Rightarrow> u16 \<Rightarrow> string \<Rightarrow> u16 \<Rightarrow> (nat \<times> bool) option \<times> 'x flow_table_scheme"
  assumes register_def: "register r f =
      f\<lparr>Connections := (Connections f)(ID (heap f r) \<mapsto> r), byLocalPort := (byLocalPort f)(SrcPort (heap f r) \<mapsto> r)\<rparr>"
    and unregister_def: "unregister r f =
      f\<lparr>Connections := (Connections f)(ID (heap f r) := None), byLocalPort := (byLocalPort f)(SrcPort (heap f r) := None)\<rparr>"
    and lookup_out: "Connections f (quad sip sp dip dp) = Some r \<Longrightarrow> lookup f sip sp dip dp = (Some (r, True), f)"
    and lookup_in: "Connections f (quad sip sp dip dp) = None \<Longrightarrow> Connections f (quad dip dp sip sp) = Some r \<Longrightarrow>
      lookup f sip sp dip dp = (Some (r, False), f)"
    and lookup_port: "Connections f (quad sip sp dip dp) = None \<Longrightarrow> Connections f (quad dip dp sip sp) = None \<Longrightarrow>
      byLocalPort f sp = Some r \<Longrightarrow> ipv4Equal dip (DstIP (heap f r)) \<Longrightarrow> dp = DstPort (heap f r) \<Longrightarrow>
      fst (lookup f sip sp dip dp) = Some (r, True)"
    and lookup_port_in: "Connections f (quad sip sp dip dp) = None \<Longrightarrow> Connections f (quad dip dp sip sp) = None \<Longrightarrow>
      byLocalPort f sp = None \<Longrightarrow> byLocalPort f dp = Some r \<Longrightarrow>
      ipv4Equal sip (DstIP (heap f r)) \<Longrightarrow> sp = DstPort (heap f r) \<Longrightarrow>
      lookup f sip sp dip dp = (Some (r, False), f)"
    and lookup_none: "Connections f (quad sip sp dip dp) = None \<Longrightarrow> Connections f (quad dip dp sip sp) = None \<Longrightarrow>
      byLocalPort f sp = None \<Longrightarrow> byLocalPort f dp = None \<Longrightarrow> lookup f sip sp dip dp = (None, f)"
    and lookup_cong: "Connections f' (quad sip sp dip dp) = Connections f (quad sip sp dip dp) \<Longrightarrow>
      Connections f' (quad dip dp sip sp) = Connections f (quad dip dp sip sp) \<Longrightarrow>
      byLocalPort f' sp = byLocalPort f sp \<Longrightarrow> byLocalPort f' dp = byLocalPort f dp \<Longrightarrow> heap f' = heap f \<Longrightarrow>
      fst (lookup f' sip sp dip dp) = fst (lookup f sip sp dip dp)"
begin

lemma registered_outbound:
  assumes "id_ok (heap f r)"
  shows "lookup (register r f) (SrcIP (heap f r)) (SrcPort (heap f r)) (DstIP (heap f r)) (DstPort (heap f r)) =
    (Some (r, True), register r f)"
  by (rule lookup_out) (use assms in \<open>simp add: register_def id_ok_def\<close>)

lemma registered_inbound:
  assumes "id_ok (heap f r)"
    and "quad (DstIP (heap f r)) (DstPort (heap f r)) (SrcIP (heap f r)) (SrcPort (heap f r)) \<notin> dom (Connections (register r f))"
  shows "lookup (register r f) (DstIP (heap f r)) (DstPort (heap f r)) (SrcIP (heap f r)) (SrcPort (heap f r)) =
    (Some (r, False), register r f)"
proof (rule lookup_in)
  show "Connections (register r f) (quad (DstIP (heap f r)) (DstPort (heap f r)) (SrcIP (heap f r)) (SrcPort (heap f r))) = None"
    using assms(2) by (simp add: domIff)
  show "Connections (register r f) (quad (SrcIP (heap f r)) (SrcPort (heap f r)) (DstIP (heap f r)) (DstPort (heap f r))) = Some r"
    using assms(1) by (simp add: register_def id_ok_def)
qed

text \<open>A packet whose source address is not the one registered is still matched, by its local port.\<close>

lemma registered_by_port:
  assumes "Connections (register r f) (quad sip (SrcPort (heap f r)) dip dp) = None"
    and "Connections (register r f) (quad dip dp sip (SrcPort (heap f r))) = None"
    and "ipv4Equal dip (DstIP (heap f r))" and "dp = DstPort (heap f r)"
  shows "fst (lookup (register r f) sip (SrcPort (heap f r)) dip dp) = Some (r, True)"
  by (rule lookup_port [OF assms(1,2)]) (use assms(3,4) in \<open>simp_all add: register_def\<close>)

text \<open>Other flows are not affected, and unregistering undoes registering.\<close>

lemma others_kept:
  assumes "quad a p b q \<noteq> ID (heap f r)" "quad b q a p \<noteq> ID (heap f r)" "p \<noteq> SrcPort (heap f r)" "q \<noteq> SrcPort (heap f r)"
  shows "fst (lookup (register r f) a p b q) = fst (lookup f a p b q)" "fst (lookup (unregister r f) a p b q) = fst (lookup f a p b q)"
  by (rule lookup_cong; use assms in \<open>simp add: register_def unregister_def\<close>)+

lemma unregister_register:
  "Connections f (ID (heap f r)) = None \<Longrightarrow> byLocalPort f (SrcPort (heap f r)) = None \<Longrightarrow> unregister r (register r f) = f"
  by (simp add: register_def unregister_def fun_upd_idem)

lemma unregistered:
  assumes "id_ok (heap f r)"
    and "Connections f (quad (DstIP (heap f r)) (DstPort (heap f r)) (SrcIP (heap f r)) (SrcPort (heap f r))) = None"
    and "byLocalPort f (DstPort (heap f r)) = None"
  shows "lookup (unregister r f) (SrcIP (heap f r)) (SrcPort (heap f r)) (DstIP (heap f r)) (DstPort (heap f r)) = (None, unregister r f)"
    and "lookup (unregister r f) (DstIP (heap f r)) (DstPort (heap f r)) (SrcIP (heap f r)) (SrcPort (heap f r)) = (None, unregister r f)"
  by (rule lookup_none; use assms in \<open>simp add: unregister_def id_ok_def\<close>)+

lemma flows_kept: "flow_operations register unregister lookup f r" if "id_ok (heap f r)"
proof -
  have "quad b q a p \<notin> dom (Connections (register r f))" if "Connections f (quad b q a p) = None" "quad b q a p \<noteq> ID (heap f r)" for a p b q
    using that by (simp add: register_def domIff)
  then show ?thesis
    using that registered_outbound [of f r] registered_inbound [of f r] unregistered [of f r]
    unfolding flow_operations_def Let_def by (simp add: others_kept unregister_register)
qed

end

end
