(* ===== verification/Wrong_Seq.thy ===== *)
theory Wrong_Seq
  imports Connection "HOL-Library.Sublist"
begin

text \<open>
  Model of \<^verbatim>\<open>injection/mtu.go\<close> and \<^verbatim>\<open>injection/wrong_seq.go\<close>: the segment size, and the loop that
  sends the fake ClientHello with wrong sequence numbers. The callbacks \<^verbatim>\<open>shouldContinue\<close> and
  \<^verbatim>\<open>send\<close>, and \<^verbatim>\<open>time.Sleep\<close>, act on a world \<open>'w\<close>, which the other goroutines may change too.
\<close>

section \<open>Segment size\<close>

definition fallbackTCPPayloadMax :: nat where
  "fallbackTCPPayloadMax = 1000"

text \<open>\<^verbatim>\<open>net.Interfaces\<close> as a value: \<open>None\<close> is its error, an interface whose \<^verbatim>\<open>Addrs\<close> fails has
  address list \<open>None\<close>.\<close>

datatype net_addr = IPNet "byte list" | IPAddr "byte list" | OtherAddr

record net_interface =
  if_Name :: string
  if_Index :: nat
  if_MTU :: int
  if_HardwareAddr :: "byte list"
  if_Addrs :: "net_addr list option"

definition addrMatches :: "byte list \<Rightarrow> net_addr \<Rightarrow> bool" where
  "addrMatches ip4 a =
     (case a of
        IPNet ip \<Rightarrow> (case IP_To4 ip of None \<Rightarrow> False | Some cand \<Rightarrow> IP_Equal cand ip4)
      | IPAddr ip \<Rightarrow> (case IP_To4 ip of None \<Rightarrow> False | Some cand \<Rightarrow> IP_Equal cand ip4)
      | OtherAddr \<Rightarrow> False)"

fun ownerMTU :: "byte list \<Rightarrow> net_interface list \<Rightarrow> int" where
  "ownerMTU ip4 [] = 0"
| "ownerMTU ip4 (iface # rest) =
     (case if_Addrs iface of
        None \<Rightarrow> ownerMTU ip4 rest
      | Some addrs \<Rightarrow>
          if list_ex (addrMatches ip4) addrs then if_MTU iface else ownerMTU ip4 rest)"

definition nicMTUForLocalIPv4 :: "net_interface list option \<Rightarrow> string \<Rightarrow> int" where
  "nicMTUForLocalIPv4 interfaces localIPv4 =
     (case ParseIP localIPv4 of
        None \<Rightarrow> 0
      | Some ip \<Rightarrow> (case IP_To4 ip of
          None \<Rightarrow> 0
        | Some ip4 \<Rightarrow> (case interfaces of
            None \<Rightarrow> 0
          | Some ifaces \<Rightarrow> ownerMTU ip4 ifaces)))"

definition segmentMSS :: "int \<Rightarrow> byte list \<Rightarrow> nat" where
  "segmentMSS nicMTU template =
     (if nicMTU \<le> 0 \<or> IPVersion template \<noteq> 4 then fallbackTCPPayloadMax
      else let ipLen = IPHeaderLen template;
               tcpLen = TCPDataOffset template
      in if ipLen < 20 \<or> tcpLen < 20 then fallbackTCPPayloadMax
      else let overhead = ipLen + tcpLen in
      if nicMTU \<le> int overhead then fallbackTCPPayloadMax
      else let mss = nicMTU - int overhead in
      if mss < 128 then fallbackTCPPayloadMax else nat mss)"

lemma segmentMSS_pos [simp]: "0 < segmentMSS nicMTU template"
  by (auto simp: segmentMSS_def fallbackTCPPayloadMax_def Let_def)

section \<open>Sleeping in steps\<close>

text \<open>\<^verbatim>\<open>shouldContinue\<close> as it is tested: a missing callback counts as true.\<close>

definition continues :: "('w \<Rightarrow> bool \<times> 'w) option \<Rightarrow> 'w \<Rightarrow> bool \<times> 'w" where
  "continues shouldContinue w = (case shouldContinue of None \<Rightarrow> (True, w) | Some f \<Rightarrow> f w)"

definition maxStep :: int where
  "maxStep = 25 * 1000000"

function sleepLoop ::
  "('w \<Rightarrow> bool \<times> 'w) option \<Rightarrow> (int \<Rightarrow> 'w \<Rightarrow> 'w) \<Rightarrow> int \<Rightarrow> 'w \<Rightarrow> bool \<times> 'w" where
  "sleepLoop shouldContinue sleep remaining w =
     (if remaining > 0 then
        (case continues shouldContinue w of
           (False, w) \<Rightarrow> (False, w)
         | (True, w) \<Rightarrow>
             let step = (if remaining > maxStep then maxStep else remaining)
             in sleepLoop shouldContinue sleep (remaining - step) (sleep step w))
      else continues shouldContinue w)"
  by pat_completeness auto
termination
  by (relation "measure (\<lambda>(c, s, remaining, w). nat remaining)") (auto simp: maxStep_def)

declare sleepLoop.simps [simp del]

definition sleepWhileContinue ::
  "int \<Rightarrow> ('w \<Rightarrow> bool \<times> 'w) option \<Rightarrow> (int \<Rightarrow> 'w \<Rightarrow> 'w) \<Rightarrow> 'w \<Rightarrow> bool \<times> 'w" where
  "sleepWhileContinue delay shouldContinue sleep w = sleepLoop shouldContinue sleep delay w"

section \<open>Sending the fake\<close>

datatype 'e inject_error = EmptyFakeData | InjectionCanceled | InvalidTemplate | SendFailed 'e

definition baseWrongSeq :: "FakeInjectiveConnection \<Rightarrow> u32" where
  "baseWrongSeq conn = (of_int (SynSeq conn) + 1 - of_nat (length (FakeData conn))) AND 0xffffffff"

definition baseIdent :: "byte list \<Rightarrow> u16" where
  "baseIdent template = (if IPVersion template = 4 then IPv4Ident template else 0)"

text \<open>The packet of one round: payload, sequence number, PSH on the last one only, IPv4
  identification, DF cleared, checksums; \<open>None\<close> when \<open>SetTCPPayload\<close> returns \<^verbatim>\<open>nil\<close>.\<close>

definition wrongSeqPacket ::
  "byte list \<Rightarrow> FakeInjectiveConnection \<Rightarrow> byte list \<Rightarrow> nat \<Rightarrow> nat \<Rightarrow> bool \<Rightarrow> byte list option" where
  "wrongSeqPacket template conn chunk off chunkIdx isLast =
     (case SetTCPPayload template chunk of
        None \<Rightarrow> None
      | Some pkt \<Rightarrow>
          let pkt = SetTCPSeqNum pkt (baseWrongSeq conn + of_nat off);
              pkt = (if isLast then SetTCPFlag pkt ''psh'' True else SetTCPFlag pkt ''psh'' False);
              pkt = (if IPVersion pkt = 4
                     then ClearIPv4DontFragment
                       (SetIPv4Ident pkt ((baseIdent template + 1 + of_nat chunkIdx) AND 0xffff))
                     else pkt)
          in Some (RecalculateIPv4AndTCPChecksums pkt))"

function injectLoop ::
  "int \<Rightarrow> byte list \<Rightarrow> FakeInjectiveConnection \<Rightarrow> ('w \<Rightarrow> bool \<times> 'w) option \<Rightarrow>
   (byte list \<Rightarrow> 'w \<Rightarrow> 'e option \<times> 'w) \<Rightarrow> (int \<Rightarrow> 'w \<Rightarrow> 'w) \<Rightarrow> nat \<Rightarrow> nat \<Rightarrow> 'w \<Rightarrow>
   'e inject_error option \<times> 'w" where
  "injectLoop nicMTU template conn shouldContinue send sleep off chunkIdx w =
     (let payload = FakeData conn;
          total = length payload;
          mss = segmentMSS nicMTU template
      in if off < total then
           (case continues shouldContinue w of
              (False, w) \<Rightarrow> (Some InjectionCanceled, w)
            | (True, w) \<Rightarrow>
                let stop = (if off + mss > total then total else off + mss);
                    chunk = subslice payload off stop;
                    isLast = (stop = total)
                in case wrongSeqPacket template conn chunk off chunkIdx isLast of
                     None \<Rightarrow> (Some InvalidTemplate, w)
                   | Some pkt \<Rightarrow>
                     (case send pkt w of
                        (Some err, w) \<Rightarrow> (Some (SendFailed err), w)
                      | (None, w) \<Rightarrow>
                          if \<not> isLast \<and> FragmentDelay conn > 0 then
                            (case sleepWhileContinue (FragmentDelay conn) shouldContinue sleep w of
                               (False, w) \<Rightarrow> (Some InjectionCanceled, w)
                             | (True, w) \<Rightarrow>
                                 injectLoop nicMTU template conn shouldContinue send sleep
                                   (off + mss) (chunkIdx + 1) w)
                          else injectLoop nicMTU template conn shouldContinue send sleep
                                 (off + mss) (chunkIdx + 1) w))
         else (None, w))"
  by pat_completeness auto
termination
  by (relation "measure (\<lambda>(mtu, t, conn, c, s, sl, off, i, w). length (FakeData conn) - off)")
    (auto intro: diff_less_mono2)

declare injectLoop.simps [simp del]

definition injectWrongSeqClientHello ::
  "int \<Rightarrow> byte list \<Rightarrow> FakeInjectiveConnection \<Rightarrow> ('w \<Rightarrow> bool \<times> 'w) option \<Rightarrow>
   (byte list \<Rightarrow> 'w \<Rightarrow> 'e option \<times> 'w) \<Rightarrow> (int \<Rightarrow> 'w \<Rightarrow> 'w) \<Rightarrow> 'w \<Rightarrow> 'e inject_error option \<times> 'w" where
  "injectWrongSeqClientHello nicMTU template conn shouldContinue send sleep w =
     (if length (FakeData conn) = 0 then (Some EmptyFakeData, w)
      else injectLoop nicMTU template conn shouldContinue send sleep 0 0 w)"

section \<open>One segment\<close>

text \<open>Every byte of the packet that differs from the template's header with the chunk behind it.\<close>

definition segment_touched :: "nat \<Rightarrow> nat set" where
  "segment_touched h = {2 ..< 7} \<union> {10, 11} \<union> {h + 4 ..< h + 8} \<union> {h + 13, h + 16, h + 17}"

lemma and_16 [simp]: "(w :: u16) AND 0xffff = w"
proof -
  have "(0xffff :: u16) = - 1" by simp
  then show ?thesis by (simp only: and.right_neutral)
qed

lemma valid_headers_h: "valid_headers raw \<Longrightarrow> 20 \<le> IPHeaderLen raw \<and> IPHeaderLen raw + 20 \<le> length raw"
  by (simp add: valid_headers_def)

lemma wrongSeqPacket_None: "wrongSeqPacket template conn chunk off i l = None \<longleftrightarrow> \<not> valid_headers template"
  by (simp add: wrongSeqPacket_def SetTCPPayload_eq Let_def)

text \<open>The steps of \<open>wrongSeqPacket\<close> on an IPv4 template, with what each one writes.\<close>

lemma wrongSeqPacket_steps:
  assumes "wrongSeqPacket template conn chunk off i isLast = Some pkt" and "IPVersion template = 4"
  obtains p0 p1 p2 p3 p4 where
    "SetTCPPayload template chunk = Some p0"
    "p1 = SetTCPSeqNum p0 (baseWrongSeq conn + of_nat off)"
    "p2 = SetTCPFlag p1 ''psh'' isLast"
    "p3 = SetIPv4Ident p2 (IPv4Ident template + 1 + of_nat i)"
    "p4 = ClearIPv4DontFragment p3"
    "pkt = RecalculateIPv4AndTCPChecksums p4"
    "IPVersion p0 = 4" "IPVersion p3 = 4"
proof -
  from assms(1) obtain p0 where p0: "SetTCPPayload template chunk = Some p0"
    by (auto simp: wrongSeqPacket_def split: option.splits)
  note f = SetTCPPayload_SomeD [OF p0]
  have "IPVersion (take (IPHeaderLen template + TCPDataOffset template) template @ chunk) = IPVersion template"
    using f(1) by (auto simp: IPVersion_def nth_append valid_headers_def)
  then have v0: "IPVersion p0 = 4" using IPVersion_reads [OF f(3)] assms(2) by simp
  define p1 p2 p3 where "p1 = SetTCPSeqNum p0 (baseWrongSeq conn + of_nat off)"
    and "p2 = SetTCPFlag p1 ''psh'' isLast" and "p3 = SetIPv4Ident p2 (IPv4Ident template + 1 + of_nat i)"
  have v2: "IPVersion p2 = 4" using v0
    by (simp add: p1_def p2_def IPVersion_reads [OF SetTCPFlag_writes] IPVersion_reads [OF SetTCPSeqNum_writes])
  then have v3: "IPVersion p3 = 4"
    by (simp add: p3_def IPVersion_reads [OF SetIPv4Ident_writes])
  have "pkt = RecalculateIPv4AndTCPChecksums (ClearIPv4DontFragment p3)"
    using assms p0 v2 by (auto simp: wrongSeqPacket_def Let_def p1_def p2_def p3_def baseIdent_def split: if_splits)
  then show ?thesis using that p0 v0 v3 p1_def p2_def p3_def by blast
qed

lemma wrongSeqPacket_fields:
  assumes s: "wrongSeqPacket template conn chunk off i isLast = Some pkt" and v: "IPVersion template = 4"
  defines "h \<equiv> IPHeaderLen template" and "d \<equiv> TCPDataOffset template"
  shows "agree_except (segment_touched h) (take (h + d) template @ chunk) pkt"
    and "TCPSeqNum pkt = baseWrongSeq conn + of_nat off"
    and "GetTCPFlags pkt = with_flag ''psh'' isLast (GetTCPFlags template)"
    and "IPv4Ident pkt = IPv4Ident template + 1 + of_nat i"
    and "pkt ! 6 = template ! 6 AND NOT 0x40"
    and "IPv4TotalLen pkt = of_nat (length pkt)"
    and "checksumRFC1071 (take h pkt) = 0"
    and "length pkt \<le> 65535 \<longrightarrow> checksumRFC1071 (tcp_block pkt) = 0"
proof -
  obtain p0 p1 p2 p3 p4 where p0: "SetTCPPayload template chunk = Some p0" and
    p: "p1 = SetTCPSeqNum p0 (baseWrongSeq conn + of_nat off)" "p2 = SetTCPFlag p1 ''psh'' isLast"
    "p3 = SetIPv4Ident p2 (IPv4Ident template + 1 + of_nat i)" "p4 = ClearIPv4DontFragment p3"
    "pkt = RecalculateIPv4AndTCPChecksums p4" and v3: "IPVersion p3 = 4"
    by (rule wrongSeqPacket_steps [OF s v]) blast
  define p5 where "p5 = ipv4HeaderChecksum p4"
  have pkt: "pkt = tcpChecksumIPv4 p5" by (simp add: p(5) p5_def RecalculateIPv4AndTCPChecksums_def)
  note f = SetTCPPayload_SomeD [OF p0, folded h_def d_def]
  have h: "20 \<le> h" "20 \<le> d" "h + d \<le> length template"
    using f(1) by (simp_all add: valid_headers_def h_def d_def)
  let ?t = "take (h + d) template @ chunk"
  have w1: "agree_except {h + 4 ..< h + 8} p0 p1" using SetTCPSeqNum_writes [of p0] f(6) by (simp add: p)
  have h1: "IPHeaderLen p1 = h" using IPHeaderLen_reads [OF w1] f(6) by simp
  have w2: "agree_except {h + 13} p1 p2" using SetTCPFlag_writes [of p1] h1 by (simp add: p)
  have h2: "IPHeaderLen p2 = h" using IPHeaderLen_reads [OF w2] h1 by simp
  have w3: "agree_except {4, 5} p2 p3" by (simp add: p SetIPv4Ident_writes)
  have h3: "IPHeaderLen p3 = h" using IPHeaderLen_reads [OF w3] h2 by simp
  have w4: "agree_except {6} p3 p4" by (simp add: p ClearIPv4DontFragment_writes)
  have h4: "IPHeaderLen p4 = h" using IPHeaderLen_reads [OF w4] h3 by simp
  have w5: "agree_except {10, 11} p4 p5" by (simp add: p5_def ipv4HeaderChecksum_writes)
  have h5: "IPHeaderLen p5 = h" using IPHeaderLen_reads [OF w5] h4 by simp
  have w6: "agree_except {h + 16, h + 17} p5 pkt" using tcpChecksumIPv4_writes [of p5] h5 by (simp add: pkt)
  have hp: "IPHeaderLen pkt = h" using IPHeaderLen_reads [OF w6] h5 by simp
  have len: "length p0 = h + d + length chunk" "length p1 = length p0" "length p2 = length p0"
    "length p3 = length p0" "length p4 = length p0" "length p5 = length p0" "length pkt = length p0"
    using f(2) agree_except_length [OF w1] agree_except_length [OF w2] agree_except_length [OF w3]
      agree_except_length [OF w4] agree_except_length [OF w5] agree_except_length [OF w6] by simp_all
  note w56 = agree_except_trans [OF w5 w6] note w46 = agree_except_trans [OF w4 w56]
  note w36 = agree_except_trans [OF w3 w46] note w26 = agree_except_trans [OF w2 w36]
  note w16 = agree_except_trans [OF w1 w26] note w06 = agree_except_trans [OF f(3) w16]
  show "agree_except (segment_touched h) ?t pkt"
    by (rule agree_except_mono [OF w06]) (auto simp: segment_touched_def)
  show "TCPSeqNum pkt = baseWrongSeq conn + of_nat off"
    using TCPSeqNum_reads [OF w26] h h1 seq_num.get_put [of p0] len f(6) by (simp add: p)
  have fl: "GetTCPFlags p1 = GetTCPFlags template"
  proof -
    have "GetTCPFlags ?t = GetTCPFlags template"
      using h by (auto simp: GetTCPFlags_def tcpOffset_def Let_def nth_append IPHeaderLen_def h_def)
    then show ?thesis
      using GetTCPFlags_reads [OF agree_except_trans [OF f(3) w1]] h h1 f(6) 
      by (simp add: IPHeaderLen_reads [OF f(3)])
  qed
  show "GetTCPFlags pkt = with_flag ''psh'' isLast (GetTCPFlags template)"
    using GetTCPFlags_reads [OF w36] SetTCPFlag_get [of p1 "''psh''" isLast] h h1 h2 len fl by (simp add: p)
  have "IPv4Ident pkt = IPv4Ident p3"
    using agree_except_nth [OF w46] h len by (auto simp: IPv4Ident_def)
  then show "IPv4Ident pkt = IPv4Ident template + 1 + of_nat i"
    using ident.get_put [of p2] h len by (simp add: p)
  have "p3 ! 6 = template ! 6"
    using agree_except_nth [OF agree_except_trans [OF agree_except_trans [OF agree_except_trans
      [OF f(3) w1] w2] w3], of 6] h by (simp add: nth_append)
  then show "pkt ! 6 = template ! 6 AND NOT 0x40"
    using agree_except_nth [OF w56, of 6] h len v3 by (simp add: p(4) ClearIPv4DontFragment_def)
  show "IPv4TotalLen pkt = of_nat (length pkt)"
    using agree_except_nth [OF w16, of 2] agree_except_nth [OF w16, of 3] h len f(5)
    by (simp add: IPv4TotalLen_def)
  have "take h pkt = take h p5"
    using agree_except_subslice [OF w6, of 0 h] by (simp add: subslice_def)
  then show "checksumRFC1071 (take h pkt) = 0"
    using ipv4HeaderChecksum_ok [of p4] h h4 len by (simp add: p5_def)
  show "length pkt \<le> 65535 \<longrightarrow> checksumRFC1071 (tcp_block pkt) = 0"
    using tcpChecksumIPv4_ok [of p5] h h5 len by (simp add: pkt)
qed

section \<open>The sequence of segments\<close>

text \<open>The specification of what goes on the wire: the payload cut at multiples of the segment
  size, one packet per piece.\<close>

definition segCount :: "int \<Rightarrow> byte list \<Rightarrow> FakeInjectiveConnection \<Rightarrow> nat" where
  "segCount nicMTU template conn =
     (let mss = segmentMSS nicMTU template in (length (FakeData conn) + mss - 1) div mss)"

definition segChunk :: "int \<Rightarrow> byte list \<Rightarrow> FakeInjectiveConnection \<Rightarrow> nat \<Rightarrow> byte list" where
  "segChunk nicMTU template conn k =
     (let mss = segmentMSS nicMTU template in take mss (drop (k * mss) (FakeData conn)))"

definition segmentAt :: "int \<Rightarrow> byte list \<Rightarrow> FakeInjectiveConnection \<Rightarrow> nat \<Rightarrow> byte list option" where
  "segmentAt nicMTU template conn k =
     wrongSeqPacket template conn (segChunk nicMTU template conn k)
       (k * segmentMSS nicMTU template) k (k + 1 = segCount nicMTU template conn)"

definition fakeSegments :: "int \<Rightarrow> byte list \<Rightarrow> FakeInjectiveConnection \<Rightarrow> byte list list" where
  "fakeSegments nicMTU template conn =
     map (\<lambda>k. the (segmentAt nicMTU template conn k)) [0 ..< segCount nicMTU template conn]"

lemma ceil_le:
  assumes "0 < m"
  shows "(t + m - 1) div m \<le> k \<longleftrightarrow> t \<le> k * (m :: nat)"
proof -
  have "(t + m - 1) div m < k + 1 \<longleftrightarrow> t + m - 1 < (k + 1) * m"
    by (rule div_less_iff_less_mult [OF assms])
  then show ?thesis using assms by (auto simp: algebra_simps)
qed

lemma segCount_le: "segCount nicMTU template conn \<le> k \<longleftrightarrow>
    length (FakeData conn) \<le> k * segmentMSS nicMTU template"
  unfolding segCount_def Let_def by (rule ceil_le) simp

lemma segCount_gr: "k < segCount nicMTU template conn \<longleftrightarrow>
    k * segmentMSS nicMTU template < length (FakeData conn)"
  using segCount_le [of nicMTU template conn k] by linarith

lemma concat_chunks:
  assumes "0 < m" and "length xs \<le> n * m"
  shows "concat (map (\<lambda>k. take m (drop (k * m) xs)) [0 ..< n]) = xs"
  using assms(2)
proof (induction n arbitrary: xs)
  case (Suc n)
  have "concat (map (\<lambda>k. take m (drop (k * m) xs)) [0 ..< Suc n]) =
      take m xs @ concat (map (\<lambda>k. take m (drop (k * m) (drop m xs))) [0 ..< n])"
    by (simp add: upt_conv_Cons map_Suc_upt [symmetric] del: upt_Suc) (simp add: comp_def add.commute)
  also have "\<dots> = take m xs @ drop m xs" using Suc.prems by (subst Suc.IH) auto
  finally show ?case by simp
qed simp

lemma concat_segChunk:
  "concat (map (segChunk nicMTU template conn) [0 ..< segCount nicMTU template conn]) = FakeData conn"
  using concat_chunks [of "segmentMSS nicMTU template" "FakeData conn" "segCount nicMTU template conn"]
    segCount_le [of nicMTU template conn "segCount nicMTU template conn"]
  by (simp add: segChunk_def [abs_def] Let_def)

text \<open>One round of the loop, at the offset of segment \<open>k\<close>.\<close>

lemma injectLoop_done:
  "length (FakeData conn) \<le> off \<Longrightarrow>
    injectLoop nicMTU template conn shouldContinue send sleep off i w = (None, w)"
  by (simp add: injectLoop.simps [of _ _ _ _ _ _ off] Let_def)

lemma injectLoop_step:
  fixes nicMTU template conn
  defines "m \<equiv> segmentMSS nicMTU template" and "n \<equiv> segCount nicMTU template conn"
  assumes "k < n"
  shows "injectLoop nicMTU template conn shouldContinue send sleep (k * m) k w =
    (case continues shouldContinue w of
       (False, w) \<Rightarrow> (Some InjectionCanceled, w)
     | (True, w) \<Rightarrow> (case segmentAt nicMTU template conn k of
         None \<Rightarrow> (Some InvalidTemplate, w)
       | Some pkt \<Rightarrow> (case send pkt w of
           (Some err, w) \<Rightarrow> (Some (SendFailed err), w)
         | (None, w) \<Rightarrow>
             (case if k + 1 \<noteq> n \<and> FragmentDelay conn > 0
                   then sleepWhileContinue (FragmentDelay conn) shouldContinue sleep w else (True, w) of
                (False, w) \<Rightarrow> (Some InjectionCanceled, w)
              | (True, w) \<Rightarrow>
                  injectLoop nicMTU template conn shouldContinue send sleep ((k + 1) * m) (k + 1) w))))"
proof -
  have lt: "k * m < length (FakeData conn)" using assms(3) by (simp add: segCount_gr n_def m_def)
  let ?stop = "if k * m + m > length (FakeData conn) then length (FakeData conn) else k * m + m"
  have last: "(?stop = length (FakeData conn)) = (k + 1 = n)"
    using segCount_le [of nicMTU template conn "k + 1"] assms(3) by (auto simp: algebra_simps n_def m_def)
  have chunk: "subslice (FakeData conn) (k * m) ?stop = segChunk nicMTU template conn k"
    using lt by (auto simp: subslice_def segChunk_def Let_def min_def m_def)
  show ?thesis
    unfolding injectLoop.simps [of _ _ _ _ _ _ "k * m"] Let_def m_def [symmetric]
    by (simp only: last chunk segmentAt_def m_def [symmetric] n_def [symmetric])
      (auto simp: lt algebra_simps split: prod.split option.split bool.split)
qed

section \<open>The contract of the sender\<close>

text \<open>
  What the injection loop relies on: a successful send puts exactly one packet on the wire, a
  failed one none, and testing for cancellation or sleeping sends nothing. The world may
  change in every other way, so other goroutines may run in between.
\<close>

locale segment_sender =
  fixes send :: "byte list \<Rightarrow> 'w \<Rightarrow> 'e option \<times> 'w"
    and sleep :: "int \<Rightarrow> 'w \<Rightarrow> 'w"
    and shouldContinue :: "('w \<Rightarrow> bool \<times> 'w) option"
    and wire :: "'w \<Rightarrow> byte list list"
  assumes send_ok: "send p w = (None, w') \<Longrightarrow> wire w' = wire w @ [p]"
    and send_err: "send p w = (Some e, w') \<Longrightarrow> wire w' = wire w"
    and sleep_wire: "wire (sleep d w) = wire w"
    and continue_wire: "continues shouldContinue w = (b, w') \<Longrightarrow> wire w' = wire w"
begin

lemma sleepLoop_wire: "sleepLoop shouldContinue sleep d w = (b, w') \<Longrightarrow> wire w' = wire w"
proof (induction "nat d" arbitrary: d w rule: less_induct)
  case less
  show ?case
  proof (cases "d > 0")
    case True
    obtain c w1 where c: "continues shouldContinue w = (c, w1)" by fastforce
    let ?step = "if d > maxStep then maxStep else d"
    have "nat (d - ?step) < nat d" using True by (simp add: maxStep_def)
    from less.hyps [OF this, of "sleep ?step w1"] less.prems True c show ?thesis
      by (cases c) (simp_all add: sleepLoop.simps [of _ _ d] Let_def continue_wire sleep_wire)
  qed (use less.prems in \<open>simp add: sleepLoop.simps [of _ _ d] continue_wire\<close>)
qed

lemma injectLoop_wire:
  fixes nicMTU template conn
  defines "m \<equiv> segmentMSS nicMTU template" and "n \<equiv> segCount nicMTU template conn"
  assumes "injectLoop nicMTU template conn shouldContinue send sleep (k * m) k w = (err, w')" and "k \<le> n"
  shows "\<exists>j. k \<le> j \<and> j \<le> n \<and>
    wire w' = wire w @ map (\<lambda>k. the (segmentAt nicMTU template conn k)) [k ..< j] \<and>
    (err = None \<longrightarrow> j = n) \<and> (j \<noteq> k \<longrightarrow> valid_headers template)"
  using assms(3,4)
proof (induction "n - k" arbitrary: k w)
  case 0
  then show ?case
    using segCount_le [of nicMTU template conn k] by (auto simp: injectLoop_done m_def n_def)
next
  case (Suc l)
  then have k: "k < n" by simp
  obtain c w1 where c: "continues shouldContinue w = (c, w1)" by fastforce
  note w1 = continue_wire [OF c]
  note loop = Suc.prems(1) [unfolded m_def injectLoop_step [OF k [unfolded n_def]] c]
  show ?case
  proof (cases "c = False \<or> segmentAt nicMTU template conn k = None")
    case True
    with loop w1 k show ?thesis by (intro exI [of _ k]) (cases c, auto)
  next
    case False
    then obtain pkt where pkt: "c" "segmentAt nicMTU template conn k = Some pkt" by auto
    then have valid: "valid_headers template"
      using wrongSeqPacket_None unfolding segmentAt_def by (metis option.discI)
    obtain e w2 where e: "send pkt w1 = (e, w2)" by fastforce
    obtain go w3 where go: "(if k + 1 \<noteq> n \<and> FragmentDelay conn > 0
        then sleepWhileContinue (FragmentDelay conn) shouldContinue sleep w2 else (True, w2)) = (go, w3)"
      by fastforce
    have w3: "wire w3 = wire w2"
      using go sleepLoop_wire by (auto simp: sleepWhileContinue_def split: if_splits)
    show ?thesis
    proof (cases "e = None \<and> go")
      case True
      then have "injectLoop nicMTU template conn shouldContinue send sleep ((k + 1) * m) (k + 1) w3 = (err, w')"
        using loop pkt e go by (simp add: m_def n_def)
      note nxt = this
      have "l = n - (k + 1)" "k + 1 \<le> n" using Suc.hyps(2) k by simp_all
      from Suc.hyps(1) [OF this(1) nxt this(2)] obtain j where j: "k + 1 \<le> j" "j \<le> n"
        "wire w' = wire w3 @ map (\<lambda>k. the (segmentAt nicMTU template conn k)) [k + 1 ..< j]"
        "err = None \<longrightarrow> j = n" by auto
      have "wire w2 = wire w @ [pkt]" using send_ok [of pkt w1 w2] e True w1 by simp
      moreover have "[k ..< j] = k # [k + 1 ..< j]" using j(1) by (simp add: upt_conv_Cons)
      ultimately show ?thesis using j valid w3 pkt by (intro exI [of _ j]) simp
    next
      case False
      show ?thesis
      proof (cases e)
        case None
        then have "wire w' = wire w @ [pkt]" "err \<noteq> None"
          using loop pkt e go False w3 send_ok [of pkt w1 w2] w1 by (auto simp: n_def)
        then show ?thesis using k pkt valid by (intro exI [of _ "k + 1"]) auto
      next
        case (Some x)
        then have "wire w' = wire w" "err \<noteq> None"
          using loop pkt e send_err [of pkt w1 x w2] w1 by auto
        then show ?thesis using k by (intro exI [of _ k]) auto
      qed
    qed
  qed
qed

lemma inject_wire:
  assumes "injectWrongSeqClientHello nicMTU template conn shouldContinue send sleep w = (err, w')"
  shows "\<exists>ps. wire w' = wire w @ ps \<and> prefix ps (fakeSegments nicMTU template conn) \<and>
    (err = None \<longrightarrow> ps = fakeSegments nicMTU template conn \<and> ps \<noteq> [] \<and> valid_headers template)"
proof (cases "FakeData conn = []")
  case False
  let ?n = "segCount nicMTU template conn"
  have n: "0 < ?n" using False by (simp add: segCount_gr)
  from injectLoop_wire [of nicMTU template conn 0 w err w'] assms False
  obtain j where "j \<le> ?n" "wire w' = wire w @ map (\<lambda>k. the (segmentAt nicMTU template conn k)) [0 ..< j]"
    "err = None \<longrightarrow> j = ?n" "j \<noteq> 0 \<longrightarrow> valid_headers template"
    by (auto simp: injectWrongSeqClientHello_def)
  moreover from this(1) have "prefix [0 ..< j] [0 ..< ?n]"
    using upt_add_eq_append [of 0 j "?n - j"] by (auto simp: prefix_def)
  ultimately show ?thesis
    using n by (intro exI [of _ "map (\<lambda>k. the (segmentAt nicMTU template conn k)) [0 ..< j]"])
      (auto simp: fakeSegments_def map_mono_prefix)
qed (use assms in \<open>auto simp: injectWrongSeqClientHello_def\<close>)

end


text \<open>
  A second contract, for what stays true of the world: a reflexive and transitive relation that
  every callback respects is respected by the whole injection.
\<close>

locale world_relation =
  fixes send :: "byte list \<Rightarrow> 'w \<Rightarrow> 'e option \<times> 'w"
    and sleep :: "int \<Rightarrow> 'w \<Rightarrow> 'w"
    and shouldContinue :: "('w \<Rightarrow> bool \<times> 'w) option"
    and rel :: "'w \<Rightarrow> 'w \<Rightarrow> bool"
  assumes rel_refl: "rel w w"
    and rel_trans: "rel u v \<Longrightarrow> rel v w \<Longrightarrow> rel u w"
    and rel_send: "rel w (snd (send p w))"
    and rel_sleep: "rel w (sleep d w)"
    and rel_continues: "rel w (snd (continues shouldContinue w))"
begin

lemma sleepLoop_rel: "rel w (snd (sleepLoop shouldContinue sleep d w))"
proof (induction "nat d" arbitrary: d w rule: less_induct)
  case less
  obtain c w1 where c: "continues shouldContinue w = (c, w1)" by fastforce
  have w1: "rel w w1" using rel_continues [of w] c by simp
  let ?step = "if d > maxStep then maxStep else d"
  show ?case
  proof (cases "0 < d \<and> c")
    case True
    then have "nat (d - ?step) < nat d" by (simp add: maxStep_def)
    from rel_trans [OF rel_trans [OF w1 rel_sleep] less [OF this]] True c show ?thesis
      by (simp add: sleepLoop.simps [of _ _ d] Let_def)
  next
    case False
    with c w1 show ?thesis by (auto simp: sleepLoop.simps [of _ _ d] split: bool.split)
  qed
qed

lemma injectLoop_rel:
  "k \<le> segCount nicMTU template conn \<Longrightarrow>
    rel w (snd (injectLoop nicMTU template conn shouldContinue send sleep (k * segmentMSS nicMTU template) k w))"
proof (induction "segCount nicMTU template conn - k" arbitrary: k w)
  case 0
  then show ?case using segCount_le [of nicMTU template conn k] by (simp add: injectLoop_done rel_refl)
next
  case (Suc l)
  let ?n = "segCount nicMTU template conn" and ?m = "segmentMSS nicMTU template"
  have k: "k < ?n" using Suc.hyps(2) by simp
  obtain c w1 where c: "continues shouldContinue w = (c, w1)" by fastforce
  have w1: "rel w w1" using rel_continues [of w] c by simp
  show ?case
  proof (cases "c \<and> segmentAt nicMTU template conn k \<noteq> None")
    case True
    then obtain pkt where pkt: "segmentAt nicMTU template conn k = Some pkt" by auto
    obtain e w2 where e: "send pkt w1 = (e, w2)" by fastforce
    have w2: "rel w w2" using rel_trans [OF w1 rel_send [of w1 pkt]] e by simp
    obtain go w3 where go: "(if k + 1 \<noteq> ?n \<and> FragmentDelay conn > 0
        then sleepWhileContinue (FragmentDelay conn) shouldContinue sleep w2 else (True, w2)) = (go, w3)" by fastforce
    have "rel w2 w3"
      using go sleepLoop_rel [of w2 "FragmentDelay conn"] by (auto simp: sleepWhileContinue_def rel_refl split: if_splits)
    note w3 = rel_trans [OF w2 this]
    define rest where "rest = injectLoop nicMTU template conn shouldContinue send sleep ((k + 1) * ?m) (k + 1) w3"
    have "rel w3 (snd rest)"
      unfolding rest_def using Suc.hyps k by (intro Suc.hyps(1)) auto
    note w4 = rel_trans [OF w3 this]
    have "injectLoop nicMTU template conn shouldContinue send sleep (k * ?m) k w =
        (case e of Some err \<Rightarrow> (Some (SendFailed err), w2)
         | None \<Rightarrow> if go then rest else (Some InjectionCanceled, w3))"
      unfolding injectLoop_step [OF k] c pkt rest_def using True e go by (auto split: option.split)
    then show ?thesis using w2 w3 w4 by (simp split: option.split)
  next
    case False
    then show ?thesis unfolding injectLoop_step [OF k] using c w1 by (auto split: bool.split)
  qed
qed

lemma inject_rel: "rel w (snd (injectWrongSeqClientHello nicMTU template conn shouldContinue send sleep w))"
  using injectLoop_rel [of 0 nicMTU template conn w] by (simp add: injectWrongSeqClientHello_def rel_refl)

end

section \<open>What the segments are\<close>

lemma length_fakeSegments [simp]: "length (fakeSegments nicMTU template conn) = segCount nicMTU template conn"
  by (simp add: fakeSegments_def)

lemma fakeSegments_nth:
  assumes "valid_headers template" and "k < segCount nicMTU template conn"
  shows "segmentAt nicMTU template conn k = Some (fakeSegments nicMTU template conn ! k)"
proof -
  have "segmentAt nicMTU template conn k \<noteq> None" using assms(1) by (simp add: segmentAt_def wrongSeqPacket_None)
  then show ?thesis using assms(2) by (simp add: fakeSegments_def)
qed

definition payload_of :: "byte list \<Rightarrow> byte list \<Rightarrow> byte list" where
  "payload_of template pkt = drop (IPHeaderLen template + TCPDataOffset template) pkt"

lemma payload_segment:
  assumes "valid_headers template" and "IPVersion template = 4" and "k < segCount nicMTU template conn"
  shows "payload_of template (fakeSegments nicMTU template conn ! k) = segChunk nicMTU template conn k"
proof -
  let ?h = "IPHeaderLen template" and ?d = "TCPDataOffset template"
  have v: "20 \<le> ?h" "20 \<le> ?d" "?h + ?d \<le> length template" using assms(1) by (simp_all add: valid_headers_def)
  note fr = wrongSeqPacket_fields(1) [OF fakeSegments_nth [OF assms(1,3), unfolded segmentAt_def] assms(2)]
  have "segment_touched ?h \<inter> {?h + ?d ..} = {}" using v by (auto simp: segment_touched_def)
  from agree_except_drop [OF fr this] v show ?thesis by (simp add: payload_of_def)
qed


text \<open>
  A third contract, for progress: while the invariant \<open>inv\<close> holds, the callback lets the injection
  continue and a good packet is sent.
\<close>

locale uninterrupted =
  fixes send :: "byte list \<Rightarrow> 'w \<Rightarrow> 'e option \<times> 'w"
    and sleep :: "int \<Rightarrow> 'w \<Rightarrow> 'w"
    and shouldContinue :: "('w \<Rightarrow> bool \<times> 'w) option"
    and inv :: "'w \<Rightarrow> bool"
    and good :: "byte list \<Rightarrow> bool"
  assumes inv_continues: "inv w \<Longrightarrow> \<exists>w'. continues shouldContinue w = (True, w') \<and> inv w'"
    and inv_send: "inv w \<Longrightarrow> good p \<Longrightarrow> \<exists>w'. send p w = (None, w') \<and> inv w'"
    and inv_sleep: "inv w \<Longrightarrow> inv (sleep d w)"
begin

lemma sleepLoop_completes: "inv w \<Longrightarrow> \<exists>w'. sleepLoop shouldContinue sleep d w = (True, w') \<and> inv w'"
proof (induction "nat d" arbitrary: d w rule: less_induct)
  case less
  from inv_continues [OF less.prems] obtain w1 where c: "continues shouldContinue w = (True, w1)" "inv w1" by blast
  let ?step = "if d > maxStep then maxStep else d"
  show ?case
  proof (cases "0 < d")
    case True
    then have "nat (d - ?step) < nat d" by (simp add: maxStep_def)
    from less.hyps [OF this inv_sleep [OF c(2)]] True c show ?thesis
      by (simp add: sleepLoop.simps [of _ _ d] Let_def)
  next
    case False
    with c show ?thesis by (simp add: sleepLoop.simps [of _ _ d])
  qed
qed

lemma injectLoop_completes:
  assumes "valid_headers template" and "\<forall>pkt \<in> set (fakeSegments nicMTU template conn). good pkt"
  shows "inv w \<Longrightarrow> k \<le> segCount nicMTU template conn \<Longrightarrow>
    \<exists>w'. injectLoop nicMTU template conn shouldContinue send sleep (k * segmentMSS nicMTU template) k w = (None, w') \<and> inv w'"
proof (induction "segCount nicMTU template conn - k" arbitrary: k w)
  case 0
  then show ?case using segCount_le [of nicMTU template conn k] by (simp add: injectLoop_done)
next
  case (Suc l)
  let ?n = "segCount nicMTU template conn" and ?pkt = "fakeSegments nicMTU template conn ! k"
  have k: "k < ?n" using Suc.hyps(2) by simp
  from inv_continues [OF Suc.prems(1)] obtain w1 where w1: "continues shouldContinue w = (True, w1)" "inv w1" by blast
  have "good ?pkt" using assms(2) k by simp
  from inv_send [OF w1(2) this] obtain w2 where w2: "send ?pkt w1 = (None, w2)" "inv w2" by blast
  have "\<exists>w3. (if b then sleepWhileContinue (FragmentDelay conn) shouldContinue sleep w2 else (True, w2)) = (True, w3) \<and> inv w3" for b
    using sleepLoop_completes [OF w2(2), of "FragmentDelay conn"] w2(2) by (simp add: sleepWhileContinue_def)
  then obtain w3 where w3: "(if k + 1 \<noteq> ?n \<and> FragmentDelay conn > 0
      then sleepWhileContinue (FragmentDelay conn) shouldContinue sleep w2 else (True, w2)) = (True, w3)" "inv w3"
    by blast
  have "l = ?n - (k + 1)" "k + 1 \<le> ?n" using Suc.hyps(2) k by simp_all
  from Suc.hyps(1) [OF this(1) w3(2) this(2)] show ?case
    unfolding injectLoop_step [OF k] w1(1) fakeSegments_nth [OF assms(1) k] using w2(1) w3(1) by simp
qed

lemma inject_completes:
  assumes "inv w" and "valid_headers template" and "FakeData conn \<noteq> []"
    and "\<forall>pkt \<in> set (fakeSegments nicMTU template conn). good pkt"
  shows "\<exists>w'. injectWrongSeqClientHello nicMTU template conn shouldContinue send sleep w = (None, w') \<and> inv w'"
  using injectLoop_completes [OF assms(2,4,1), of 0] assms(3) by (simp add: injectWrongSeqClientHello_def)

end

text \<open>
  C17. The packets of an injection, for a template with complete IPv4 and TCP headers: their
  payloads concatenate to the fake ClientHello; the \<open>k\<close>-th one carries sequence number
  \<^verbatim>\<open>SynSeq + 1 - len(fake) + k * mss\<close> modulo \<open>2 ^ 32\<close>, the template's flags with PSH set on the
  last packet and cleared on the others, identification \<^verbatim>\<open>template + 1 + k\<close>, the template's byte 6
  without DF, a correct IPv4 checksum, and (when it fits an IPv4 datagram) a correct TCP
  checksum. Nothing else of the template's headers is changed.
\<close>

theorem fakeSegments_correct:
  assumes "valid_headers template" and "IPVersion template = 4"
  shows "concat (map (payload_of template) (fakeSegments nicMTU template conn)) = FakeData conn \<and>
    (\<forall>k < length (fakeSegments nicMTU template conn). let pkt = fakeSegments nicMTU template conn ! k in
      TCPSeqNum pkt = of_int (SynSeq conn) + 1 - of_nat (length (FakeData conn)) +
        of_nat (k * segmentMSS nicMTU template) \<and>
      GetTCPFlags pkt = with_flag ''psh'' (k + 1 = length (fakeSegments nicMTU template conn)) (GetTCPFlags template) \<and>
      IPv4Ident pkt = IPv4Ident template + 1 + of_nat k \<and>
      pkt ! 6 = template ! 6 AND NOT 0x40 \<and>
      IPv4TotalLen pkt = of_nat (length pkt) \<and>
      checksumRFC1071 (take (IPHeaderLen template) pkt) = 0 \<and>
      (length pkt \<le> 65535 \<longrightarrow> checksumRFC1071 (tcp_block pkt) = 0) \<and>
      agree_except (segment_touched (IPHeaderLen template))
        (take (IPHeaderLen template + TCPDataOffset template) template @ payload_of template pkt) pkt)"
    (is "?cat \<and> ?all")
proof
  let ?n = "segCount nicMTU template conn"
  have "map (payload_of template) (fakeSegments nicMTU template conn) = map (segChunk nicMTU template conn) [0 ..< ?n]"
    by (rule nth_equalityI) (simp_all add: payload_segment assms)
  then show ?cat using concat_segChunk by metis
next
  show ?all
  proof (intro allI impI)
    fix k assume "k < length (fakeSegments nicMTU template conn)"
    then have k: "k < segCount nicMTU template conn" by simp
    note f = wrongSeqPacket_fields [OF fakeSegments_nth [OF assms(1) k, unfolded segmentAt_def] assms(2)]
    show "let pkt = fakeSegments nicMTU template conn ! k in
      TCPSeqNum pkt = of_int (SynSeq conn) + 1 - of_nat (length (FakeData conn)) +
        of_nat (k * segmentMSS nicMTU template) \<and>
      GetTCPFlags pkt = with_flag ''psh'' (k + 1 = length (fakeSegments nicMTU template conn)) (GetTCPFlags template) \<and>
      IPv4Ident pkt = IPv4Ident template + 1 + of_nat k \<and>
      pkt ! 6 = template ! 6 AND NOT 0x40 \<and>
      IPv4TotalLen pkt = of_nat (length pkt) \<and>
      checksumRFC1071 (take (IPHeaderLen template) pkt) = 0 \<and>
      (length pkt \<le> 65535 \<longrightarrow> checksumRFC1071 (tcp_block pkt) = 0) \<and>
      agree_except (segment_touched (IPHeaderLen template))
        (take (IPHeaderLen template + TCPDataOffset template) template @ payload_of template pkt) pkt"
      unfolding Let_def using f
      by (simp only: payload_segment [OF assms k] length_fakeSegments baseWrongSeq_def and_full simp_thms)
  qed
qed

text \<open>A connection for the witnesses: SYN number 1000, SYN-ACK number 5000, a fake of 1500 bytes.\<close>

definition sample_conn :: FakeInjectiveConnection where
  "sample_conn =
     (NewFakeInjectiveConnection (Some 3) ''10.0.0.2'' ''104.19.229.21'' 50000 443
        (replicate 1500 7) ''wrong_seq'' (Some 4) 1 0 0)\<lparr>SynSeq := 1000, SynAckSeq := 5000\<rparr>"

lemma sample_ack_valid: "valid_headers sample_ack" "IPVersion sample_ack = 4"
  by code_simp+

lemma sample_conn_simps [simp]:
  "FakeData sample_conn = replicate 1500 7" "SynSeq sample_conn = 1000" "SynAckSeq sample_conn = 5000"
  by (simp_all add: sample_conn_def NewFakeInjectiveConnection_def Let_def MonitorConnection.defs
      FakeInjectiveConnection.defs NewMonitorConnection_def)

theorem fakeSegments_correct_witness:
  "valid_headers sample_ack \<and> IPVersion sample_ack = 4 \<and>
   concat (map (payload_of sample_ack) (fakeSegments 0 sample_ack sample_conn)) = replicate 1500 7"
  using fakeSegments_correct [OF sample_ack_valid, of 0 sample_conn] sample_ack_valid by simp

text \<open>
  The fake occupies exactly the \<open>len(fake)\<close> sequence numbers below the next expected one:
  each segment ends where the next begins, and the last one ends at \<^verbatim>\<open>SynSeq + 1\<close>. A receiver
  that expects \<^verbatim>\<open>SynSeq + 1\<close> therefore finds no new byte in it, while the stream a middlebox
  reassembles from the packets is the fake ClientHello.
\<close>

lemma fakeSegments_sequence:
  assumes "valid_headers template" and "IPVersion template = 4" and "k < length (fakeSegments nicMTU template conn)"
  shows "TCPSeqNum (fakeSegments nicMTU template conn ! k) +
      of_nat (length (payload_of template (fakeSegments nicMTU template conn ! k))) =
    (if k + 1 < length (fakeSegments nicMTU template conn)
     then TCPSeqNum (fakeSegments nicMTU template conn ! (k + 1))
     else of_int (SynSeq conn) + 1)"
proof -
  let ?n = "segCount nicMTU template conn" and ?m = "segmentMSS nicMTU template" and ?t = "length (FakeData conn)"
  have seq: "TCPSeqNum (fakeSegments nicMTU template conn ! i) =
      of_int (SynSeq conn) + 1 - of_nat ?t + of_nat (i * ?m)" if "i < ?n" for i
    using wrongSeqPacket_fields(2) [OF fakeSegments_nth [OF assms(1) that, unfolded segmentAt_def] assms(2)]
    by (simp add: baseWrongSeq_def)
  have k: "k < ?n" using assms(3) by simp
  note pay = payload_segment [OF assms(1,2) k]
  show ?thesis
  proof (cases "k + 1 < ?n")
    case True
    then have "length (segChunk nicMTU template conn k) = ?m"
      using segCount_gr [of "k + 1" nicMTU template conn] by (simp add: segChunk_def Let_def)
    with True k show ?thesis unfolding pay by (simp add: seq algebra_simps)
  next
    case False
    then have "length (segChunk nicMTU template conn k) = ?t - k * ?m" and le: "k * ?m \<le> ?t"
      using segCount_le [of nicMTU template conn "k + 1"] segCount_gr [of k nicMTU template conn] k
      by (simp_all add: segChunk_def Let_def)
    moreover have "(of_nat (?t - k * ?m) :: u32) = of_nat ?t - of_nat (k * ?m)" using le by (rule of_nat_diff)
    ultimately show ?thesis using False k unfolding pay by (simp add: seq)
  qed
qed

section \<open>The MTU\<close>

lemma length_segment:
  assumes "valid_headers template" and "IPVersion template = 4" and "k < segCount nicMTU template conn"
  shows "length (fakeSegments nicMTU template conn ! k) =
    IPHeaderLen template + TCPDataOffset template + length (segChunk nicMTU template conn k)"
  using wrongSeqPacket_fields(1) [OF fakeSegments_nth [OF assms(1,3), unfolded segmentAt_def] assms(2)] assms(1)
  by (simp add: agree_except_def valid_headers_def)

text \<open>
  C40. When the interface MTU leaves room for at least 128 payload bytes, every injected packet fits it. An
  interface whose MTU is smaller is not respected: the fallback segment size of 1000 bytes is used, and a
  fake of at least 1000 bytes starts with a packet larger than the MTU.
\<close>

theorem fakeSegments_mtu:
  assumes "valid_headers template" and "IPVersion template = 4"
  shows "(int (IPHeaderLen template + TCPDataOffset template) + 128 \<le> nicMTU \<longrightarrow>
      (\<forall>pkt \<in> set (fakeSegments nicMTU template conn). int (length pkt) \<le> nicMTU)) \<and>
    (nicMTU < int (IPHeaderLen template + TCPDataOffset template) + 128 \<and> 1000 \<le> length (FakeData conn) \<longrightarrow>
      length (fakeSegments nicMTU template conn ! 0) = IPHeaderLen template + TCPDataOffset template + 1000 \<and>
      nicMTU < int (length (fakeSegments nicMTU template conn ! 0)))"
proof (intro conjI impI ballI)
  fix pkt
  assume room: "int (IPHeaderLen template + TCPDataOffset template) + 128 \<le> nicMTU"
    and "pkt \<in> set (fakeSegments nicMTU template conn)"
  then obtain k where k: "k < segCount nicMTU template conn" "pkt = fakeSegments nicMTU template conn ! k"
    by (auto simp: in_set_conv_nth)
  have "int (segmentMSS nicMTU template) = nicMTU - int (IPHeaderLen template + TCPDataOffset template)"
    using assms room by (simp add: segmentMSS_def Let_def valid_headers_def)
  moreover have "length (segChunk nicMTU template conn k) \<le> segmentMSS nicMTU template"
    by (simp add: segChunk_def Let_def)
  ultimately show "int (length pkt) \<le> nicMTU" using length_segment [OF assms k(1)] k(2) by simp
next
  assume small: "nicMTU < int (IPHeaderLen template + TCPDataOffset template) + 128 \<and> 1000 \<le> length (FakeData conn)"
  then have m: "segmentMSS nicMTU template = 1000"
    by (auto simp: segmentMSS_def Let_def fallbackTCPPayloadMax_def)
  have "0 < segCount nicMTU template conn" using small by (simp add: segCount_gr) (use small in auto)
  from length_segment [OF assms this]
  show len: "length (fakeSegments nicMTU template conn ! 0) = IPHeaderLen template + TCPDataOffset template + 1000"
    using small by (simp add: segChunk_def Let_def m)
  show "nicMTU < int (length (fakeSegments nicMTU template conn ! 0))" using small by (simp add: len)
qed

theorem fakeSegments_mtu_witness:
  "int (length (fakeSegments 1500 sample_ack sample_conn ! 0)) \<le> 1500 \<and>
   length (fakeSegments 160 sample_ack sample_conn ! 0) = 1040"
proof -
  have h: "IPHeaderLen sample_ack + TCPDataOffset sample_ack = 40" by code_simp
  have "0 < segCount 1500 sample_ack sample_conn" by (simp add: segCount_gr)
  then have "fakeSegments 1500 sample_ack sample_conn ! 0 \<in> set (fakeSegments 1500 sample_ack sample_conn)" by simp
  then show ?thesis
    using fakeSegments_mtu [OF sample_ack_valid, of 1500 sample_conn] fakeSegments_mtu [OF sample_ack_valid, of 160 sample_conn] h
    by simp
qed

end
