(* ===== verification/Injection_Run.thy ===== *)
theory Injection_Run
  imports Wrong_Seq Handshake
begin

text \<open>
  The injection goroutine. It runs beside the goroutine that handles packets, which may change
  the connection whenever the mutex is free: the world therefore carries the list of the moves
  other goroutines make, and every access of the goroutine to the connection first lets one of
  them happen. The system calls that send a packet take their results from the world as well.
  \<open>repeatLoop\<close> is the loop the five \<^verbatim>\<open>runFakeInjection\<close> functions share.
\<close>

section \<open>The world\<close>

record inj_world =
  iw_conn :: FakeInjectiveConnection
  iw_wire :: "byte list list"
  iw_effects :: "unit effect list"
  iw_moves :: "(FakeInjectiveConnection \<Rightarrow> FakeInjectiveConnection) list"
  iw_results :: "string option list"

definition interfere :: "inj_world \<Rightarrow> inj_world" where
  "interfere w =
     (case iw_moves w of
        [] \<Rightarrow> w
      | m # ms \<Rightarrow> w\<lparr>iw_conn := m (iw_conn w), iw_moves := ms\<rparr>)"

definition w_IsMonitoring :: "inj_world \<Rightarrow> bool \<times> inj_world" where
  "w_IsMonitoring w = (let w = interfere w in (IsMonitoring (iw_conn w), w))"

definition w_sleep :: "int \<Rightarrow> inj_world \<Rightarrow> inj_world" where
  "w_sleep d w = w"

definition w_log :: "string \<Rightarrow> inj_world \<Rightarrow> inj_world" where
  "w_log msg w = w\<lparr>iw_effects := iw_effects w @ [LogF msg]\<rparr>"

text \<open>A store to an atomic field, and a critical section.\<close>

definition w_store :: "(FakeInjectiveConnection \<Rightarrow> FakeInjectiveConnection) \<Rightarrow> inj_world \<Rightarrow> inj_world" where
  "w_store f w = (let w = interfere w in w\<lparr>iw_conn := f (iw_conn w)\<rparr>)"

definition w_locked :: "(FakeInjectiveConnection \<Rightarrow> unit handled) \<Rightarrow> inj_world \<Rightarrow> inj_world" where
  "w_locked f w =
     (let w = interfere w; (c, es) = f (iw_conn w)
      in w\<lparr>iw_conn := c, iw_effects := iw_effects w @ es\<rparr>)"

text \<open>The operating system's answer to a send; without a recorded one it succeeds.\<close>

definition w_syscall :: "byte list \<Rightarrow> inj_world \<Rightarrow> string option \<times> inj_world" where
  "w_syscall p w =
     (case iw_results w of
        [] \<Rightarrow> (None, w\<lparr>iw_wire := iw_wire w @ [p]\<rparr>)
      | None # rs \<Rightarrow> (None, w\<lparr>iw_wire := iw_wire w @ [p], iw_results := rs\<rparr>)
      | Some e # rs \<Rightarrow> (Some e, w\<lparr>iw_results := rs\<rparr>))"

section \<open>The loop of the goroutine\<close>

definition inject_error_string :: "string inject_error \<Rightarrow> string" where
  "inject_error_string e =
     (case e of
        EmptyFakeData \<Rightarrow> ''empty FakeData''
      | InjectionCanceled \<Rightarrow> ''injection canceled''
      | InvalidTemplate \<Rightarrow> ''SetTCPPayload: invalid TCP/IP packet''
      | SendFailed s \<Rightarrow> s)"

definition segPerInject :: "int \<Rightarrow> byte list \<Rightarrow> FakeInjectiveConnection \<Rightarrow> nat" where
  "segPerInject nicMTU rawCopy conn =
     (let total = length (FakeData conn);
          mss = segmentMSS nicMTU rawCopy;
          segPerInject = (total + mss - 1) div mss
      in if segPerInject < 1 then 1 else segPerInject)"

function repeatLoop ::
  "int \<Rightarrow> byte list \<Rightarrow> (byte list \<Rightarrow> inj_world \<Rightarrow> string option \<times> inj_world) \<Rightarrow> int \<Rightarrow> nat \<Rightarrow>
   inj_world \<Rightarrow> bool \<times> inj_world" where
  "repeatLoop nicMTU rawCopy send repeat i w =
     (if int i < repeat then
        (case w_IsMonitoring w of
           (False, w) \<Rightarrow> (False, w)
         | (True, w) \<Rightarrow>
             let conn = iw_conn w in
             (case injectWrongSeqClientHello nicMTU rawCopy conn (Some w_IsMonitoring) send w_sleep w of
                (Some InjectionCanceled, w) \<Rightarrow> (False, w)
              | (Some err, w) \<Rightarrow>
                  (False, w_locked AbortUnexpectedCloseLocked
                     (w_log (''inject fake ClientHello: '' @ inject_error_string err) w))
              | (None, w) \<Rightarrow>
                  let w = w_log (''injector: fake ClientHello sent ('' @ decimal (i + 1) @ ''/'' @
                        decimal_int repeat @ '', '' @ decimal (length (FakeData conn)) @ '' bytes, '' @
                        decimal (segPerInject nicMTU rawCopy conn) @ '' segment(s))'') w
                  in if int (i + 1) < repeat \<and> FakeDelay conn > 0 then
                       (case sleepWhileContinue (FakeDelay conn) (Some w_IsMonitoring) w_sleep w of
                          (False, w) \<Rightarrow> (False, w)
                        | (True, w) \<Rightarrow> repeatLoop nicMTU rawCopy send repeat (i + 1) w)
                     else repeatLoop nicMTU rawCopy send repeat (i + 1) w))
      else (True, w))"
  by pat_completeness auto
termination
  by (relation "measure (\<lambda>(mtu, raw, send, repeat, i, w). nat (repeat - int i))") auto

declare repeatLoop.simps [simp del]

text \<open>After the last repetition: \<^verbatim>\<open>FakeSent\<close> is stored, and an acknowledgement that was observed
  meanwhile is signalled under the lock.\<close>

definition signalIfMonitoring :: "FakeInjectiveConnection \<Rightarrow> unit handled" where
  "signalIfMonitoring conn =
     (if Monitor conn then (trySend ''fake_data_ack_recv'' (conn\<lparr>Monitor := False\<rparr>), []) else (conn, []))"

definition concludeInjection :: "inj_world \<Rightarrow> inj_world" where
  "concludeInjection w =
     (let w = w_store (\<lambda>c. c\<lparr>FakeSent := True\<rparr>) w;
          w = interfere w
      in if PostFakeAckObserved (iw_conn w) then w_locked signalIfMonitoring w else w)"

text \<open>The deferred \<^verbatim>\<open>FakeInjectInProgress.Store(false)\<close>.\<close>

definition endInjection :: "inj_world \<Rightarrow> inj_world" where
  "endInjection w = w_store (\<lambda>c. c\<lparr>FakeInjectInProgress := False\<rparr>) w"

definition repeatAndConclude ::
  "int \<Rightarrow> byte list \<Rightarrow> (byte list \<Rightarrow> inj_world \<Rightarrow> string option \<times> inj_world) \<Rightarrow> inj_world \<Rightarrow> inj_world" where
  "repeatAndConclude nicMTU rawCopy send w =
     (let conn = iw_conn w;
          repeat = (if FakeRepeat conn < 1 then 1 else FakeRepeat conn)
      in case repeatLoop nicMTU rawCopy send repeat 0 w of
           (False, w) \<Rightarrow> w
         | (True, w) \<Rightarrow> concludeInjection w)"

section \<open>What other goroutines may do meanwhile\<close>

text \<open>
  The rely condition: a move of another goroutine never resumes monitoring, never changes a
  learned sequence number or the fields the goroutine works from, and never stores
  \<^verbatim>\<open>FakeSent\<close>. The packet handlers satisfy it.
\<close>

definition move_ok :: "(FakeInjectiveConnection \<Rightarrow> FakeInjectiveConnection) \<Rightarrow> bool" where
  "move_ok m \<longleftrightarrow> (\<forall>c. conn_le c (m c) \<and> FakeRepeat (m c) = FakeRepeat c \<and> BypassMethod (m c) = BypassMethod c)"

definition same_fake :: "FakeInjectiveConnection \<Rightarrow> FakeInjectiveConnection \<Rightarrow> bool" where
  "same_fake c c' \<longleftrightarrow> FakeData c' = FakeData c \<and> SynSeq c' = SynSeq c \<and> FakeSent c' = FakeSent c \<and>
     FakeRepeat c' = FakeRepeat c \<and> BypassMethod c' = BypassMethod c"

lemma same_fake_refl [simp]: "same_fake c c" by (simp add: same_fake_def)

lemma same_fake_trans: "same_fake a b \<Longrightarrow> same_fake b c \<Longrightarrow> same_fake a c"
  by (simp add: same_fake_def)

lemma move_same_fake: "move_ok m \<Longrightarrow> SynSeq c \<noteq> -1 \<Longrightarrow> same_fake c (m c)"
  by (simp add: move_ok_def same_fake_def conn_le_def)

lemma fakeSegments_same:
  assumes "same_fake c c'"
  shows "fakeSegments mtu t c' = fakeSegments mtu t c"
proof -
  have eq: "baseWrongSeq c' = baseWrongSeq c" "segCount mtu t c' = segCount mtu t c" "segChunk mtu t c' = segChunk mtu t c"
    using assms by (simp_all add: same_fake_def baseWrongSeq_def segCount_def segChunk_def [abs_def])
  then show ?thesis unfolding fakeSegments_def segmentAt_def wrongSeqPacket_def eq by simp
qed

definition rely :: "inj_world \<Rightarrow> inj_world \<Rightarrow> bool" where
  "rely w w' \<longleftrightarrow>
     (list_all move_ok (iw_moves w) \<and> SynSeq (iw_conn w) \<noteq> -1 \<longrightarrow>
      list_all move_ok (iw_moves w') \<and> SynSeq (iw_conn w') \<noteq> -1 \<and> same_fake (iw_conn w) (iw_conn w'))"

lemma rely_refl [simp]: "rely w w"
  by (simp add: rely_def)

lemma rely_trans: "rely u v \<Longrightarrow> rely v w \<Longrightarrow> rely u w"
  by (auto simp: rely_def intro: same_fake_trans)

lemma rely_interfere: "rely w (interfere w)"
  using move_same_fake
  by (auto simp: rely_def interfere_def same_fake_def split: list.split)

lemma rely_IsMonitoring: "rely w (snd (w_IsMonitoring w))"
  by (simp add: w_IsMonitoring_def Let_def rely_interfere)

lemma rely_log [simp]: "rely w (w_log m w)"
  by (simp add: rely_def w_log_def)

lemma rely_locked:
  assumes "\<And>c. same_fake c (fst (f c))"
  shows "rely w (w_locked f w)"
proof -
  have "rely (interfere w) (w_locked f w)"
    using assms [of "iw_conn (interfere w)"]
    by (auto simp: rely_def w_locked_def Let_def same_fake_def split: prod.split)
  then show ?thesis by (rule rely_trans [OF rely_interfere])
qed

lemma same_fake_trySend: "same_fake c (trySend m (c\<lparr>Monitor := b\<rparr>))"
  by (simp add: same_fake_def trySend_def)

lemma same_fake_abort: "same_fake c (fst (AbortUnexpectedCloseLocked c))"
  by (simp add: AbortUnexpectedCloseLocked_def same_fake_trySend)

text \<open>
  The contract of a backend's send function: it leaves the connection and the other goroutines
  alone, a success puts one frame on the wire, whose IP packet (\<open>strip\<close>) is the argument, and a
  failure puts none.
\<close>

lemma fakeSegments_ne: "fakeSegments nicMTU template conn \<noteq> [] \<longleftrightarrow> FakeData conn \<noteq> []"
  using segCount_gr [of 0 nicMTU template conn] by (simp flip: length_greater_0_conv)

locale raw_sender =
  fixes send :: "byte list \<Rightarrow> inj_world \<Rightarrow> string option \<times> inj_world"
    and strip :: "byte list \<Rightarrow> byte list"
  assumes send_conn: "iw_conn (snd (send p w)) = iw_conn w"
    and send_moves: "iw_moves (snd (send p w)) = iw_moves w"
    and send_success: "send p w = (None, w') \<Longrightarrow> map strip (iw_wire w') = map strip (iw_wire w) @ [p]"
    and send_failure: "send p w = (Some e, w') \<Longrightarrow> iw_wire w' = iw_wire w"
begin

abbreviation ip_wire :: "inj_world \<Rightarrow> byte list list" where
  "ip_wire w \<equiv> map strip (iw_wire w)"

lemma wire_interfere: "iw_wire (interfere w) = iw_wire w"
  by (simp add: interfere_def split: list.split)

lemma wire_locked: "iw_wire (w_locked f w) = iw_wire w"
  by (simp add: w_locked_def Let_def wire_interfere split: prod.split)

end

sublocale raw_sender \<subseteq> segment_sender send w_sleep "Some w_IsMonitoring" ip_wire
  by unfold_locales
    (auto simp: send_success send_failure w_sleep_def continues_def w_IsMonitoring_def Let_def wire_interfere)

sublocale raw_sender \<subseteq> world_relation send w_sleep "Some w_IsMonitoring" rely
  by unfold_locales
    (auto simp: send_conn send_moves w_sleep_def continues_def rely_IsMonitoring intro: rely_trans,
     simp add: rely_def send_conn send_moves)

context raw_sender
begin

lemma sleepWhileContinue_rel: "rely w (snd (sleepWhileContinue d (Some w_IsMonitoring) w_sleep w))"
  by (simp add: sleepWhileContinue_def sleepLoop_rel)

lemma sleepWhileContinue_wire:
  "sleepWhileContinue d (Some w_IsMonitoring) w_sleep w = (b, w') \<Longrightarrow> ip_wire w' = ip_wire w"
  unfolding sleepWhileContinue_def by (rule sleepLoop_wire)

text \<open>One repetition: everything it puts on the wire, and how it ends.\<close>

lemma repeatLoop_correct:
  assumes "repeatLoop nicMTU rawCopy send repeat i w = (done, w')"
    and "list_all move_ok (iw_moves w)" and "SynSeq (iw_conn w) \<noteq> -1"
  shows "rely w w' \<and> (\<exists>n ps. ip_wire w' = ip_wire w @ concat (replicate n (fakeSegments nicMTU rawCopy (iw_conn w))) @ ps \<and>
      prefix ps (fakeSegments nicMTU rawCopy (iw_conn w)) \<and>
      (done \<longrightarrow> ps = [] \<and> n = nat (repeat - int i) \<and> (0 < n \<longrightarrow> valid_headers rawCopy \<and> FakeData (iw_conn w) \<noteq> [])))"
  using assms
proof (induction "nat (repeat - int i)" arbitrary: i w rule: less_induct)
  case less
  show ?case
  proof (cases "int i < repeat")
    case False
    with less.prems(1) show ?thesis
      by (intro conjI exI [of _ 0] exI [of _ "[]"]) (simp_all add: repeatLoop.simps [of _ _ _ repeat i])
  next
    case True
    obtain m w1 where m: "w_IsMonitoring w = (m, w1)" by fastforce
    have r1: "rely w w1" using rely_IsMonitoring [of w] m by simp
    have x1: "ip_wire w1 = ip_wire w" using m by (auto simp: w_IsMonitoring_def Let_def wire_interfere)
    obtain e w2 where e: "injectWrongSeqClientHello nicMTU rawCopy (iw_conn w1) (Some w_IsMonitoring) send w_sleep w1 = (e, w2)"
      by fastforce
    have r2: "rely w w2" using rely_trans [OF r1 inject_rel] e by (metis snd_conv)
    let ?S = "fakeSegments nicMTU rawCopy (iw_conn w)"
    have same: "fakeSegments nicMTU rawCopy (iw_conn w1) = ?S"
      using r1 less.prems(2,3) by (intro fakeSegments_same) (simp add: rely_def)
    from inject_wire [OF e] obtain ps where
      "ip_wire w2 = ip_wire w @ ps \<and> prefix ps ?S \<and> (e = None \<longrightarrow> ps = ?S \<and> ps \<noteq> [] \<and> valid_headers rawCopy)"
      unfolding same x1 ..
    then have ps: "ip_wire w2 = ip_wire w @ ps" "prefix ps ?S"
      "e = None \<longrightarrow> ps = ?S \<and> valid_headers rawCopy \<and> FakeData (iw_conn w) \<noteq> []"
      using fakeSegments_ne [of nicMTU rawCopy "iw_conn w"] by auto
    show ?thesis
    proof (cases "m \<and> e = None")
      case True
      let ?msg = "''injector: fake ClientHello sent ('' @ decimal (i + 1) @ ''/'' @
          decimal_int repeat @ '', '' @ decimal (length (FakeData (iw_conn w1))) @ '' bytes, '' @
          decimal (segPerInject nicMTU rawCopy (iw_conn w1)) @ '' segment(s))''"
      obtain go w3 where go: "(if int (i + 1) < repeat \<and> FakeDelay (iw_conn w1) > 0
          then sleepWhileContinue (FakeDelay (iw_conn w1)) (Some w_IsMonitoring) w_sleep (w_log ?msg w2)
          else (True, w_log ?msg w2)) = (go, w3)" by fastforce
      have "rely (w_log ?msg w2) w3"
        using go sleepWhileContinue_rel [of "w_log ?msg w2" "FakeDelay (iw_conn w1)"] by (auto split: if_splits)
      then have r3: "rely w w3" by (rule rely_trans [OF rely_trans [OF r2 rely_log]])
      have "ip_wire w3 = ip_wire (w_log ?msg w2)"
        using go sleepWhileContinue_wire by (auto split: if_splits)
      then have x3: "ip_wire w3 = ip_wire w @ ?S" using ps True by (simp add: w_log_def)
      have loop: "(if go then repeatLoop nicMTU rawCopy send repeat (i + 1) w3 else (False, w3)) = (done, w')"
        using less.prems(1) m True e go \<open>int i < repeat\<close>
        by (auto simp: repeatLoop.simps [of _ _ _ repeat i w] Let_def split: if_splits prod.splits bool.splits)
      show ?thesis
      proof (cases go)
        case True
        have "nat (repeat - int (i + 1)) < nat (repeat - int i)" using \<open>int i < repeat\<close> by simp
        moreover have "list_all move_ok (iw_moves w3)" "SynSeq (iw_conn w3) \<noteq> -1"
          and s3: "same_fake (iw_conn w) (iw_conn w3)" using r3 less.prems(2,3) by (auto simp: rely_def)
        ultimately obtain n qs where "rely w3 w'" "ip_wire w' = ip_wire w3 @ concat (replicate n ?S) @ qs"
          "prefix qs ?S" "done \<longrightarrow> qs = [] \<and> n = nat (repeat - int (i + 1))"
          using less.hyps [of "i + 1" w3] loop True fakeSegments_same [OF s3] by auto
        then show ?thesis
          using rely_trans [OF r3] x3 ps(3) \<open>m \<and> e = None\<close> \<open>int i < repeat\<close>
          by (intro conjI exI [of _ "Suc n"] exI [of _ qs]) auto
      next
        case False
        then show ?thesis using loop r3 x3
          by (intro conjI exI [of _ 1] exI [of _ "[]"]) auto
      qed
    next
      case False
      have abort: "rely w (w_locked AbortUnexpectedCloseLocked (w_log s w2))" for s
        using rely_trans [OF rely_trans [OF r2 rely_log] rely_locked [OF same_fake_abort]] .
      have xa: "ip_wire (w_locked AbortUnexpectedCloseLocked (w_log s w2)) = ip_wire w2" for s
        by (simp add: wire_locked w_log_def)
      have "(\<not> m \<and> w' = w1 \<or> m \<and> (w' = w2 \<or> (\<exists>s. w' = w_locked AbortUnexpectedCloseLocked (w_log s w2)))) \<and> \<not> done"
        using less.prems(1) [unfolded repeatLoop.simps [of _ _ _ repeat i w] Let_def m] False e \<open>int i < repeat\<close>
        by (cases m; cases e) (auto split: inject_error.splits)
      then have "rely w w' \<and> \<not> done \<and> (\<exists>qs. ip_wire w' = ip_wire w @ qs \<and> prefix qs ?S)"
        using r1 r2 abort x1 ps(1,2) xa by (metis append_Nil2 Nil_prefix)
      then show ?thesis by (intro conjI exI [of _ 0]) auto
    qed
  qed
qed

lemma conclude_wire: "iw_wire (concludeInjection w) = iw_wire w"
  by (simp add: concludeInjection_def w_store_def Let_def wire_interfere wire_locked)

text \<open>\<^verbatim>\<open>FakeSent\<close> is only ever set after the whole fake went out \<^verbatim>\<open>FakeRepeat\<close> times.\<close>

lemma fakeSent_sound:
  assumes "list_all move_ok (iw_moves w)" and "SynSeq (iw_conn w) \<noteq> -1" and "\<not> FakeSent (iw_conn w)"
    and "1 \<le> FakeRepeat (iw_conn w)" and w'_def: "w' = repeatAndConclude nicMTU rawCopy send w"
  shows "\<exists>n ps. ip_wire w' = ip_wire w @ concat (replicate n (fakeSegments nicMTU rawCopy (iw_conn w))) @ ps \<and>
    prefix ps (fakeSegments nicMTU rawCopy (iw_conn w)) \<and>
    (FakeSent (iw_conn w') \<longrightarrow> ps = [] \<and> n = nat (FakeRepeat (iw_conn w)) \<and>
       valid_headers rawCopy \<and> FakeData (iw_conn w) \<noteq> [])"
proof -
  obtain d w1 where d: "repeatLoop nicMTU rawCopy send (FakeRepeat (iw_conn w)) 0 w = (d, w1)" by fastforce
  from repeatLoop_correct [OF d assms(1,2)] obtain n ps where r: "rely w w1" and
    n: "ip_wire w1 = ip_wire w @ concat (replicate n (fakeSegments nicMTU rawCopy (iw_conn w))) @ ps"
    "prefix ps (fakeSegments nicMTU rawCopy (iw_conn w))"
    "d \<longrightarrow> ps = [] \<and> n = nat (FakeRepeat (iw_conn w) - int 0) \<and> (0 < n \<longrightarrow> valid_headers rawCopy \<and> FakeData (iw_conn w) \<noteq> [])"
    by (elim conjE exE)
  have w': "w' = (if d then concludeInjection w1 else w1)"
    using assms(4) d by (simp add: w'_def repeatAndConclude_def Let_def)
  have "\<not> FakeSent (iw_conn w1)" using r assms(1-3) by (simp add: rely_def same_fake_def)
  with n assms(4) w' show ?thesis
    by (intro exI [of _ n] exI [of _ ps]) (simp add: conclude_wire)
qed

end

section \<open>The end of the goroutine\<close>

text \<open>What the wire looks like after a run: whole copies of the fake and perhaps the beginning of
  another; exactly \<open>R\<close> copies and nothing else when \<open>sent\<close>.\<close>

definition whole_fakes :: "byte list list \<Rightarrow> nat \<Rightarrow> byte list list \<Rightarrow> byte list list \<Rightarrow> bool \<Rightarrow> bool" where
  "whole_fakes S R before after sent \<longleftrightarrow>
     (\<exists>n ps. after = before @ concat (replicate n S) @ ps \<and> prefix ps S \<and> (sent \<longrightarrow> ps = [] \<and> n = R))"

lemma whole_fakes_none: "whole_fakes S R ws ws False"
  unfolding whole_fakes_def by (intro exI [of _ 0] exI [of _ "[]"]) simp

lemma move_keeps_FakeSent: "move_ok m \<Longrightarrow> FakeSent (m c) = FakeSent c"
  by (simp add: move_ok_def conn_le_def)

lemma interfere_keeps:
  "list_all move_ok (iw_moves w) \<Longrightarrow>
    list_all move_ok (iw_moves (interfere w)) \<and> FakeSent (iw_conn (interfere w)) = FakeSent (iw_conn w)"
  by (auto simp: interfere_def move_keeps_FakeSent split: list.split)

lemma moves_conclude:
  "list_all move_ok (iw_moves w) \<Longrightarrow> list_all move_ok (iw_moves (concludeInjection w))"
  using interfere_keeps
  by (simp add: concludeInjection_def w_store_def w_locked_def Let_def split: prod.split)

lemma endInjection_FakeSent:
  "list_all move_ok (iw_moves w) \<Longrightarrow> FakeSent (iw_conn (endInjection w)) = FakeSent (iw_conn w)"
  using interfere_keeps [of w] by (simp add: endInjection_def w_store_def Let_def)

lemma endInjection_clears: "\<not> FakeInjectInProgress (iw_conn (endInjection w))"
  by (simp add: endInjection_def w_store_def Let_def)

context raw_sender
begin

lemma endInjection_wire: "iw_wire (endInjection w) = iw_wire w"
  by (simp add: endInjection_def w_store_def Let_def wire_interfere)

lemma repeat_moves:
  assumes "list_all move_ok (iw_moves w)" and "SynSeq (iw_conn w) \<noteq> -1"
  shows "list_all move_ok (iw_moves (repeatAndConclude nicMTU rawCopy send w))"
proof -
  let ?R = "if FakeRepeat (iw_conn w) < 1 then 1 else FakeRepeat (iw_conn w)"
  obtain d w1 where d: "repeatLoop nicMTU rawCopy send ?R 0 w = (d, w1)" by fastforce
  have "list_all move_ok (iw_moves w1)"
    using repeatLoop_correct [OF d assms] assms by (auto simp: rely_def)
  with d show ?thesis by (cases d) (simp_all add: repeatAndConclude_def Let_def moves_conclude)
qed

text \<open>The last part of every \<^verbatim>\<open>runFakeInjection\<close>, from a state \<open>w\<close> the goroutine reached from \<open>w0\<close>.\<close>

lemma run_tail_sound:
  assumes "list_all move_ok (iw_moves w0)" and "SynSeq (iw_conn w0) \<noteq> -1" and "\<not> FakeSent (iw_conn w0)"
    and "1 \<le> FakeRepeat (iw_conn w0)" and "rely w0 w" and "iw_wire w = iw_wire w0"
  shows "whole_fakes (fakeSegments nicMTU rawCopy (iw_conn w0)) (nat (FakeRepeat (iw_conn w0))) (ip_wire w0)
    (ip_wire (endInjection (repeatAndConclude nicMTU rawCopy send w)))
    (FakeSent (iw_conn (endInjection (repeatAndConclude nicMTU rawCopy send w))))"
proof -
  have w: "list_all move_ok (iw_moves w)" "SynSeq (iw_conn w) \<noteq> -1" "same_fake (iw_conn w0) (iw_conn w)"
    using assms(1,2,5) by (simp_all add: rely_def)
  have "\<not> FakeSent (iw_conn w)" "1 \<le> FakeRepeat (iw_conn w)" using w(3) assms(3,4) by (simp_all add: same_fake_def)
  note sound = fakeSent_sound [OF w(1,2) this refl, of nicMTU rawCopy]
  have R: "FakeRepeat (iw_conn w) = FakeRepeat (iw_conn w0)" using w(3) by (simp add: same_fake_def)
  show ?thesis
    unfolding whole_fakes_def endInjection_wire endInjection_FakeSent [OF repeat_moves [OF w(1,2)]]
    using sound unfolding fakeSegments_same [OF w(3)] R assms(6) by blast
qed

lemma run_stop_sound:
  assumes "list_all move_ok (iw_moves w0)" and "SynSeq (iw_conn w0) \<noteq> -1" and "\<not> FakeSent (iw_conn w0)"
    and "rely w0 w" and "iw_wire w = iw_wire w0"
  shows "whole_fakes S R (ip_wire w0) (ip_wire (endInjection w)) (FakeSent (iw_conn (endInjection w)))"
proof -
  have "list_all move_ok (iw_moves w)" "\<not> FakeSent (iw_conn w)"
    using assms(1-4) by (simp_all add: rely_def same_fake_def)
  then have "\<not> FakeSent (iw_conn (endInjection w))" by (simp add: endInjection_FakeSent)
  then show ?thesis using whole_fakes_none by (simp add: endInjection_wire assms(5))
qed

end

section \<open>Whole runs\<close>

lemma rely_start: "rely w (interfere (w_sleep d w))"
  by (simp add: w_sleep_def rely_interfere)

lemma wire_start: "iw_wire (interfere (w_sleep d w)) = iw_wire w"
  by (simp add: w_sleep_def interfere_def split: list.split)

text \<open>An abort in the critical section the goroutine starts with (Linux and macOS).\<close>

lemma rely_abort_here:
  "rely w (w_log m w\<lparr>iw_conn := fst (AbortUnexpectedCloseLocked (iw_conn w)), iw_effects := es\<rparr>)"
  using same_fake_abort [of "iw_conn w"] by (auto simp: rely_def w_log_def same_fake_def)

context raw_sender
begin

lemma run_locked_sound:
  assumes "list_all move_ok (iw_moves w0)" and "SynSeq (iw_conn w0) \<noteq> -1" and "\<not> FakeSent (iw_conn w0)"
    and "1 \<le> FakeRepeat (iw_conn w0)"
    and run: "w' = (let w = interfere (w_sleep 1000000 w0); conn = iw_conn w
      in if \<not> Monitor conn then endInjection w
         else if BypassMethod conn \<noteq> ''wrong_seq'' then
           let w = w_log (''not implemented bypass method: '' @ BypassMethod conn) w;
               (c, es) = AbortUnexpectedCloseLocked (iw_conn w)
           in endInjection (w\<lparr>iw_conn := c, iw_effects := iw_effects w @ es\<rparr>)
         else endInjection (repeatAndConclude nicMTU rawCopy send w))"
  shows "whole_fakes (fakeSegments nicMTU rawCopy (iw_conn w0)) (nat (FakeRepeat (iw_conn w0))) (ip_wire w0)
    (ip_wire w') (FakeSent (iw_conn w'))"
proof -
  let ?w = "interfere (w_sleep 1000000 w0)"
  note stop = run_stop_sound [OF assms(1-3)] and tail = run_tail_sound [OF assms(1-4) rely_start wire_start]
  have "rely w0 (w_log m ?w\<lparr>iw_conn := fst (AbortUnexpectedCloseLocked (iw_conn (w_log m ?w))), iw_effects := es\<rparr>)" for m es
    using rely_trans [OF rely_start rely_abort_here] by (simp add: w_log_def)
  then show ?thesis
    unfolding run using stop [OF rely_start wire_start] tail
    by (auto simp: Let_def case_prod_unfold wire_start w_log_def intro!: stop)
qed

lemma run_windows_sound:
  assumes "list_all move_ok (iw_moves w0)" and "SynSeq (iw_conn w0) \<noteq> -1" and "\<not> FakeSent (iw_conn w0)"
    and "1 \<le> FakeRepeat (iw_conn w0)"
    and run: "w' = (case w_IsMonitoring (w_sleep 1000000 w0) of
        (False, w) \<Rightarrow> endInjection w
      | (True, w) \<Rightarrow>
          if BypassMethod (iw_conn w) \<noteq> ''wrong_seq'' then
            endInjection (w_locked AbortUnexpectedCloseLocked
              (w_log (''not implemented bypass method: '' @ BypassMethod (iw_conn w)) w))
          else endInjection (repeatAndConclude nicMTU rawCopy send w))"
  shows "whole_fakes (fakeSegments nicMTU rawCopy (iw_conn w0)) (nat (FakeRepeat (iw_conn w0))) (ip_wire w0)
    (ip_wire w') (FakeSent (iw_conn w'))"
proof -
  let ?w = "interfere (w_sleep 1000000 w0)"
  note stop = run_stop_sound [OF assms(1-3)] and tail = run_tail_sound [OF assms(1-4) rely_start wire_start]
  have "rely w0 (w_locked AbortUnexpectedCloseLocked (w_log m ?w))" for m
    using rely_trans [OF rely_trans [OF rely_start rely_log] rely_locked [OF same_fake_abort]] .
  then show ?thesis
    unfolding run using stop [OF rely_start wire_start] tail
    by (auto simp: w_IsMonitoring_def Let_def wire_start wire_locked w_log_def split: bool.split intro!: stop)
qed

end

section \<open>Progress\<close>

definition move_quiet :: "(FakeInjectiveConnection \<Rightarrow> FakeInjectiveConnection) \<Rightarrow> bool" where
  "move_quiet m \<longleftrightarrow> move_ok m \<and> (\<forall>c. Monitor c \<longrightarrow> Monitor (m c))"

text \<open>Monitoring stays on, and the operating system accepts what it is given.\<close>

definition quiet :: "inj_world \<Rightarrow> bool" where
  "quiet w \<longleftrightarrow> Monitor (iw_conn w) \<and> list_all move_quiet (iw_moves w) \<and> list_all ((=) None) (iw_results w)"

lemma quiet_interfere: "quiet w \<Longrightarrow> quiet (interfere w)"
  by (auto simp: quiet_def interfere_def move_quiet_def split: list.split)

lemma quiet_moves: "quiet w \<Longrightarrow> list_all move_ok (iw_moves w)"
  by (auto simp: quiet_def move_quiet_def list_all_iff)

lemma quiet_log: "quiet w \<Longrightarrow> quiet (w_log m w)"
  by (simp add: quiet_def w_log_def)

text \<open>The result of a run that is neither cancelled nor refused a send.\<close>

definition all_sent :: "byte list list \<Rightarrow> nat \<Rightarrow> byte list list \<Rightarrow> byte list list \<Rightarrow> FakeInjectiveConnection \<Rightarrow> bool" where
  "all_sent S R before after conn \<longleftrightarrow>
     after = before @ concat (replicate R S) \<and> FakeSent conn \<and> \<not> FakeInjectInProgress conn"

lemma conclude_sets_FakeSent:
  assumes "list_all move_ok (iw_moves w)"
  shows "FakeSent (iw_conn (concludeInjection w))"
proof -
  have keep: "FakeSent (iw_conn (interfere u))" "list_all move_ok (iw_moves (interfere u))"
    if "FakeSent (iw_conn u)" "list_all move_ok (iw_moves u)" for u
    using that by (auto simp: interfere_def move_ok_def conn_le_def split: list.split)
  let ?u = "w_store (\<lambda>c. c\<lparr>FakeSent := True\<rparr>) w"
  have u: "FakeSent (iw_conn ?u)" "list_all move_ok (iw_moves ?u)"
    using assms by (auto simp: w_store_def Let_def interfere_def split: list.split)
  show ?thesis
    using keep [OF keep [OF u]] keep(1) [OF u]
    by (auto simp: concludeInjection_def Let_def w_locked_def signalIfMonitoring_def split: prod.split)
qed

text \<open>
  A run that nothing interrupts: \<open>inv\<close> is a condition on the world under which monitoring stays on and good
  packets are accepted, kept by whatever happens meanwhile.
\<close>

locale guarded_run = raw_sender + uninterrupted send w_sleep "Some w_IsMonitoring" inv good
  for inv :: "inj_world \<Rightarrow> bool" and good :: "byte list \<Rightarrow> bool" +
  assumes inv_log: "inv w \<Longrightarrow> inv (w_log m w)"
    and inv_moves: "inv w \<Longrightarrow> list_all move_ok (iw_moves w)"
begin

lemma inv_start:
  assumes "inv w"
  shows "inv (interfere (w_sleep d w))" and "Monitor (iw_conn (interfere (w_sleep d w)))"
  using inv_continues [OF assms] by (auto simp: continues_def w_IsMonitoring_def Let_def IsMonitoring_def w_sleep_def)

lemma repeatLoop_completes:
  assumes "valid_headers rawCopy" and "FakeData (iw_conn w) \<noteq> []" and "SynSeq (iw_conn w) \<noteq> -1" and "inv w"
    and "\<forall>pkt \<in> set (fakeSegments nicMTU rawCopy (iw_conn w)). good pkt"
  shows "\<exists>w'. repeatLoop nicMTU rawCopy send repeat i w = (True, w') \<and> inv w'"
  using assms(2-)
proof (induction "nat (repeat - int i)" arbitrary: i w rule: less_induct)
  case less
  show ?case
  proof (cases "int i < repeat")
    case False
    with less.prems show ?thesis by (simp add: repeatLoop.simps [of _ _ _ repeat i w])
  next
    case True
    from inv_continues [OF less.prems(3)] obtain w1 where w1: "w_IsMonitoring w = (True, w1)" "inv w1"
      by (auto simp: continues_def)
    have s1: "same_fake (iw_conn w) (iw_conn w1)"
      using rely_IsMonitoring [of w] w1 inv_moves [OF less.prems(3)] less.prems(2) by (simp add: rely_def)
    have fd: "FakeData (iw_conn w1) \<noteq> []" using s1 less.prems(1) by (simp add: same_fake_def)
    have "\<forall>pkt \<in> set (fakeSegments nicMTU rawCopy (iw_conn w1)). good pkt"
      using less.prems(4) unfolding fakeSegments_same [OF s1] .
    from inject_completes [OF w1(2) assms(1) fd this] obtain w2 where w2: "injectWrongSeqClientHello nicMTU rawCopy (iw_conn w1) (Some w_IsMonitoring) send w_sleep w1 = (None, w2)"
      "inv w2" by blast
    let ?w = "w_log (''injector: fake ClientHello sent ('' @ decimal (i + 1) @ ''/'' @
          decimal_int repeat @ '', '' @ decimal (length (FakeData (iw_conn w1))) @ '' bytes, '' @
          decimal (segPerInject nicMTU rawCopy (iw_conn w1)) @ '' segment(s))'') w2"
    have r2: "rely w1 w2" using inject_rel [of w1 nicMTU rawCopy "iw_conn w1"] w2(1) by simp
    have "\<exists>w3. (if b then sleepWhileContinue d (Some w_IsMonitoring) w_sleep ?w else (True, ?w)) = (True, w3) \<and>
        inv w3 \<and> rely ?w w3" for b d
      using sleepLoop_completes [OF inv_log [OF w2(2)]] sleepLoop_rel [of ?w d] inv_log [OF w2(2)]
      by (cases b) (simp_all add: sleepWhileContinue_def, metis snd_conv)
    then obtain w3 where w3: "(if int (i + 1) < repeat \<and> FakeDelay (iw_conn w1) > 0
        then sleepWhileContinue (FakeDelay (iw_conn w1)) (Some w_IsMonitoring) w_sleep ?w else (True, ?w)) = (True, w3)"
      "inv w3" "rely ?w w3" by blast
    have "rely w w3"
      using rely_trans [OF rely_trans [OF rely_trans [OF _ r2] rely_log] w3(3)] rely_IsMonitoring [of w] w1(1) by simp
    then have s3: "same_fake (iw_conn w) (iw_conn w3)"
      using inv_moves [OF less.prems(3)] less.prems(2) by (simp add: rely_def)
    then have "\<exists>w'. repeatLoop nicMTU rawCopy send repeat (i + 1) w3 = (True, w') \<and> inv w'"
      using less.prems fakeSegments_same [OF s3, of nicMTU rawCopy] w3(2) True
      by (intro less.hyps) (auto simp: same_fake_def)
    then show ?thesis
      unfolding repeatLoop.simps [of _ _ _ repeat i w] w1(1) Let_def using True w2(1) w3(1)
      by (auto split: if_splits)
  qed
qed

lemma run_completes:
  assumes "valid_headers rawCopy" and "FakeData (iw_conn w) \<noteq> []" and "SynSeq (iw_conn w) \<noteq> -1" and "inv w"
    and "\<forall>pkt \<in> set (fakeSegments nicMTU rawCopy (iw_conn w)). good pkt"
  shows "FakeSent (iw_conn (repeatAndConclude nicMTU rawCopy send w))"
proof -
  obtain w1 where "repeatLoop nicMTU rawCopy send (if FakeRepeat (iw_conn w) < 1 then 1 else FakeRepeat (iw_conn w)) 0 w = (True, w1)"
    "inv w1" using repeatLoop_completes [OF assms] by blast
  then show ?thesis
    using conclude_sets_FakeSent [OF inv_moves] by (simp add: repeatAndConclude_def Let_def)
qed

lemma run_tail_completes:
  assumes "inv w0" and "SynSeq (iw_conn w0) \<noteq> -1" and "valid_headers rawCopy" and "FakeData (iw_conn w0) \<noteq> []"
    and good: "\<And>pkt. pkt \<in> set (fakeSegments nicMTU rawCopy (iw_conn w0)) \<Longrightarrow> good pkt"
  shows "FakeSent (iw_conn (endInjection (repeatAndConclude nicMTU rawCopy send (interfere (w_sleep d w0)))))"
proof -
  let ?w = "interfere (w_sleep d w0)"
  have q: "inv ?w" by (rule inv_start(1) [OF assms(1)])
  have s: "same_fake (iw_conn w0) (iw_conn ?w)" "SynSeq (iw_conn ?w) \<noteq> -1"
    using rely_start [of w0 d] inv_moves [OF assms(1)] assms(2) by (simp_all add: rely_def)
  have "FakeSent (iw_conn (repeatAndConclude nicMTU rawCopy send ?w))"
    using s assms(3,4) good q by (intro run_completes) (simp_all add: same_fake_def fakeSegments_same [OF s(1)])
  then show ?thesis
    by (simp add: endInjection_FakeSent [OF repeat_moves [OF inv_moves [OF q] s(2)]])
qed

text \<open>The two forms of \<^verbatim>\<open>runFakeInjection\<close> reach their last part.\<close>

lemma start_bypass:
  assumes "inv w0" and "SynSeq (iw_conn w0) \<noteq> -1" and "BypassMethod (iw_conn w0) = ''wrong_seq''"
  shows "BypassMethod (iw_conn (interfere (w_sleep d w0))) = ''wrong_seq''"
  using rely_start [of w0 d] inv_moves [OF assms(1)] assms(2,3) by (simp add: rely_def same_fake_def)

lemma run_locked_form:
  assumes "inv w0" and "SynSeq (iw_conn w0) \<noteq> -1" and "BypassMethod (iw_conn w0) = ''wrong_seq''"
    and run: "w' = (let w = interfere (w_sleep 1000000 w0); conn = iw_conn w
      in if \<not> Monitor conn then endInjection w
         else if BypassMethod conn \<noteq> ''wrong_seq'' then
           let w = w_log (''not implemented bypass method: '' @ BypassMethod conn) w;
               (c, es) = AbortUnexpectedCloseLocked (iw_conn w)
           in endInjection (w\<lparr>iw_conn := c, iw_effects := iw_effects w @ es\<rparr>)
         else endInjection (repeatAndConclude nicMTU rawCopy send w))"
  shows "w' = endInjection (repeatAndConclude nicMTU rawCopy send (interfere (w_sleep 1000000 w0)))"
  using inv_start(2) [OF assms(1)] start_bypass [OF assms(1-3)] by (simp add: run Let_def)

lemma run_windows_form:
  assumes "inv w0" and "SynSeq (iw_conn w0) \<noteq> -1" and "BypassMethod (iw_conn w0) = ''wrong_seq''"
    and run: "w' = (case w_IsMonitoring (w_sleep 1000000 w0) of
        (False, w) \<Rightarrow> endInjection w
      | (True, w) \<Rightarrow>
          if BypassMethod (iw_conn w) \<noteq> ''wrong_seq'' then
            endInjection (w_locked AbortUnexpectedCloseLocked
              (w_log (''not implemented bypass method: '' @ BypassMethod (iw_conn w)) w))
          else endInjection (repeatAndConclude nicMTU rawCopy send w))"
  shows "w' = endInjection (repeatAndConclude nicMTU rawCopy send (interfere (w_sleep 1000000 w0)))"
  using inv_start(2) [OF assms(1)] start_bypass [OF assms(1-3)]
  by (simp add: run w_IsMonitoring_def Let_def IsMonitoring_def)

lemma run_locked_live:
  assumes "inv w0" and "SynSeq (iw_conn w0) \<noteq> -1" and "\<not> FakeSent (iw_conn w0)" and "1 \<le> FakeRepeat (iw_conn w0)"
    and "BypassMethod (iw_conn w0) = ''wrong_seq''" and "valid_headers rawCopy" and "FakeData (iw_conn w0) \<noteq> []"
    and good: "\<And>pkt. pkt \<in> set (fakeSegments nicMTU rawCopy (iw_conn w0)) \<Longrightarrow> good pkt"
    and run: "w' = (let w = interfere (w_sleep 1000000 w0); conn = iw_conn w
      in if \<not> Monitor conn then endInjection w
         else if BypassMethod conn \<noteq> ''wrong_seq'' then
           let w = w_log (''not implemented bypass method: '' @ BypassMethod conn) w;
               (c, es) = AbortUnexpectedCloseLocked (iw_conn w)
           in endInjection (w\<lparr>iw_conn := c, iw_effects := iw_effects w @ es\<rparr>)
         else endInjection (repeatAndConclude nicMTU rawCopy send w))"
  shows "all_sent (fakeSegments nicMTU rawCopy (iw_conn w0)) (nat (FakeRepeat (iw_conn w0))) (ip_wire w0) (ip_wire w') (iw_conn w')"
  using run_locked_sound [OF inv_moves [OF assms(1)] assms(2-4) run] run_tail_completes [OF assms(1,2,6,7) good]
  by (simp add: all_sent_def whole_fakes_def run_locked_form [OF assms(1,2,5) run] endInjection_clears)

lemma run_windows_live:
  assumes "inv w0" and "SynSeq (iw_conn w0) \<noteq> -1" and "\<not> FakeSent (iw_conn w0)" and "1 \<le> FakeRepeat (iw_conn w0)"
    and "BypassMethod (iw_conn w0) = ''wrong_seq''" and "valid_headers rawCopy" and "FakeData (iw_conn w0) \<noteq> []"
    and good: "\<And>pkt. pkt \<in> set (fakeSegments nicMTU rawCopy (iw_conn w0)) \<Longrightarrow> good pkt"
    and run: "w' = (case w_IsMonitoring (w_sleep 1000000 w0) of
        (False, w) \<Rightarrow> endInjection w
      | (True, w) \<Rightarrow>
          if BypassMethod (iw_conn w) \<noteq> ''wrong_seq'' then
            endInjection (w_locked AbortUnexpectedCloseLocked
              (w_log (''not implemented bypass method: '' @ BypassMethod (iw_conn w)) w))
          else endInjection (repeatAndConclude nicMTU rawCopy send w))"
  shows "all_sent (fakeSegments nicMTU rawCopy (iw_conn w0)) (nat (FakeRepeat (iw_conn w0))) (ip_wire w0) (ip_wire w') (iw_conn w')"
  using run_windows_sound [OF inv_moves [OF assms(1)] assms(2-4) run] run_tail_completes [OF assms(1,2,6,7) good]
  by (simp add: all_sent_def whole_fakes_def run_windows_form [OF assms(1,2,5) run] endInjection_clears)

end

locale live_sender = raw_sender +
  fixes good :: "byte list \<Rightarrow> bool"
  assumes send_live: "list_all ((=) None) (iw_results w) \<Longrightarrow> good p \<Longrightarrow>
    \<exists>w'. send p w = (None, w') \<and> list_all ((=) None) (iw_results w')"

sublocale live_sender \<subseteq> guarded_run send strip quiet good
proof
  fix w p d m
  show "\<exists>w'. continues (Some w_IsMonitoring) w = (True, w') \<and> quiet w'" if "quiet w"
    using quiet_interfere [OF that] by (simp add: continues_def w_IsMonitoring_def Let_def IsMonitoring_def quiet_def)
  show "quiet (w_sleep d w)" if "quiet w" using that by (simp add: w_sleep_def)
  show "\<exists>w'. send p w = (None, w') \<and> quiet w'" if "quiet w" "good p"
    using send_live [of w p] that send_conn [of p w] send_moves [of p w] by (auto simp: quiet_def)
  show "quiet (w_log m w)" if "quiet w" using that by (rule quiet_log)
  show "list_all move_ok (iw_moves w)" if "quiet w" using that by (rule quiet_moves)
qed

end
