(* ===== verification/Linux_Passive.thy ===== *)
theory Linux_Passive
  imports Flow_Table Injection_Run
begin

text \<open>
  Model of \<^verbatim>\<open>injection/injector_linux_passive.go\<close>: the AF_PACKET injector, which observes
  Ethernet frames, follows the handshake without diverting packets, remembers the Ethernet
  header of an outbound frame and writes the fake behind it.
\<close>

section \<open>State\<close>

record LinuxPassiveInjector = flow_table +
  lxp_fd :: int
  lxp_ifindex :: nat
  lxp_linkHdr :: "byte list option"
  lxp_localIP :: string
  lxp_connectIP :: string
  lxp_connectPort :: u16
  lxp_nicMTU :: int

definition ethernetHeaderLen :: nat where
  "ethernetHeaderLen = 14"

definition htons :: "u16 \<Rightarrow> u16" where
  "htons v = push_bit 8 v OR drop_bit 8 v"

section \<open>Handlers\<close>

definition lxp_onUnexpectedPacket ::
  "byte list \<Rightarrow> FakeInjectiveConnection \<Rightarrow> string \<Rightarrow> unit handled" where
  "lxp_onUnexpectedPacket raw conn info =
     (trySend ''unexpected_close'' (conn\<lparr>Monitor := False\<rparr>),
      [LogF (''injector: '' @ info @ '' '' @ PacketSummary raw)] @ closeSocks conn)"

definition lxp_onInboundPacket ::
  "byte list \<Rightarrow> FakeInjectiveConnection \<Rightarrow> unit handled" where
  "lxp_onInboundPacket raw conn =
     (if SynSeq conn = -1 then
        lxp_onUnexpectedPacket raw conn ''unexpected inbound packet, no syn sent!''
      else let flags = GetTCPFlags raw;
               payloadLen = TCPPayloadLen raw;
               seqNum = TCPSeqNum raw;
               ackNum = TCPAckNum raw
      in if ACK flags \<and> SYN flags \<and> \<not> RST flags \<and> \<not> FIN flags \<and> payloadLen = 0 then
           (if SynAckSeq conn \<noteq> -1 \<and> SynAckSeq conn \<noteq> int (unat seqNum) then
              lxp_onUnexpectedPacket raw conn
                (info2 ''unexpected inbound syn-ack, seq change!'' seqNum (SynAckSeq conn))
            else let expectedAck = (of_int (SynSeq conn) + 1) AND 0xffffffff :: u32 in
            if ackNum \<noteq> expectedAck then
              lxp_onUnexpectedPacket raw conn
                (info2 ''unexpected inbound syn-ack, ack not matched!'' ackNum (SynSeq conn))
            else (conn\<lparr>SynAckSeq := int (unat seqNum)\<rparr>, []))
         else if ACK flags \<and> \<not> SYN flags \<and> \<not> RST flags \<and> FakeInjectInProgress conn \<and> \<not> FakeSent conn then
           (conn\<lparr>PostFakeAckObserved := True\<rparr>, [])
         else if ACK flags \<and> \<not> SYN flags \<and> \<not> RST flags \<and> FakeSent conn \<and> SynAckSeq conn \<noteq> -1 then
           (let strict = postFakeInboundStrictOK seqNum ackNum conn in
            if \<not> strict \<and> \<not> postFakeInboundPermissiveOK flags then
              lxp_onUnexpectedPacket raw conn (after_fake_info seqNum ackNum conn strict)
            else (trySend ''fake_data_ack_recv'' (conn\<lparr>Monitor := False\<rparr>), []))
         else lxp_onUnexpectedPacket raw conn ''unexpected inbound packet'')"

definition lxp_onOutboundPacket ::
  "byte list \<Rightarrow> FakeInjectiveConnection \<Rightarrow> unit handled" where
  "lxp_onOutboundPacket raw conn =
     (if FakeSent conn \<or> FakeInjectInProgress conn then (conn, [])
      else let flags = GetTCPFlags raw;
               payloadLen = TCPPayloadLen raw;
               seqNum = TCPSeqNum raw;
               ackNum = TCPAckNum raw
      in if SYN flags \<and> \<not> ACK flags \<and> \<not> RST flags \<and> \<not> FIN flags \<and> payloadLen = 0 then
           (if ackNum \<noteq> 0 then
              lxp_onUnexpectedPacket raw conn ''unexpected outbound syn, ack_num is not zero!''
            else if SynSeq conn \<noteq> -1 \<and> SynSeq conn \<noteq> int (unat seqNum) then
              lxp_onUnexpectedPacket raw conn
                (info2 ''unexpected outbound syn, seq not matched!'' seqNum (SynSeq conn))
            else (conn\<lparr>SynSeq := int (unat seqNum)\<rparr>, []))
         else if ACK flags \<and> \<not> SYN flags \<and> \<not> RST flags \<and> \<not> FIN flags \<and> payloadLen = 0 then
           (let expectedSeq = (of_int (SynSeq conn) + 1) AND 0xffffffff :: u32 in
            if SynSeq conn = -1 \<or> expectedSeq \<noteq> seqNum then
              lxp_onUnexpectedPacket raw conn
                (info2 ''unexpected outbound ack, seq not matched!'' seqNum (SynSeq conn))
            else let expectedAck = (of_int (SynAckSeq conn) + 1) AND 0xffffffff :: u32 in
            if SynAckSeq conn = -1 \<or> ackNum \<noteq> expectedAck then
              lxp_onUnexpectedPacket raw conn
                (info2 ''unexpected outbound ack, ack not matched!'' ackNum (SynAckSeq conn))
            else (conn\<lparr>FakeInjectInProgress := True\<rparr>, [GoInject raw]))
         else lxp_onUnexpectedPacket raw conn ''unexpected outbound packet'')"

section \<open>Flows\<close>

definition lxp_lookupConnQuad ::
  "LinuxPassiveInjector \<Rightarrow> string \<Rightarrow> u16 \<Rightarrow> string \<Rightarrow> u16 \<Rightarrow> (nat \<times> bool) option" where
  "lxp_lookupConnQuad f srcIP srcPort dstIP dstPort =
     (case Connections f (quad srcIP srcPort dstIP dstPort) of
        Some v \<Rightarrow> Some (v, True)
      | None \<Rightarrow> (case Connections f (quad dstIP dstPort srcIP srcPort) of
          Some v \<Rightarrow> Some (v, False)
        | None \<Rightarrow>
            let byDst = (case byLocalPort f dstPort of
                  None \<Rightarrow> None
                | Some v \<Rightarrow> if ipv4Equal srcIP (DstIP (heap f v)) \<and> srcPort = DstPort (heap f v)
                            then Some (v, False) else None)
            in (case byLocalPort f srcPort of
                  None \<Rightarrow> byDst
                | Some v \<Rightarrow> if ipv4Equal dstIP (DstIP (heap f v)) \<and> dstPort = DstPort (heap f v)
                            then Some (v, True) else byDst)))"

definition lxp_RegisterConn :: "nat \<Rightarrow> LinuxPassiveInjector \<Rightarrow> LinuxPassiveInjector" where
  "lxp_RegisterConn r f =
     (let conn = heap f r;
          f = f\<lparr>Connections := (Connections f)(ID conn \<mapsto> r)\<rparr>
      in f\<lparr>byLocalPort := (byLocalPort f)(SrcPort conn \<mapsto> r)\<rparr>)"

definition lxp_UnregisterConn :: "nat \<Rightarrow> LinuxPassiveInjector \<Rightarrow> LinuxPassiveInjector" where
  "lxp_UnregisterConn r f =
     (let conn = heap f r;
          f = f\<lparr>Connections := (Connections f)(ID conn := None)\<rparr>
      in f\<lparr>byLocalPort := (byLocalPort f)(SrcPort conn := None)\<rparr>)"

definition lxp_captureLinkHeader :: "byte list \<Rightarrow> LinuxPassiveInjector \<Rightarrow> LinuxPassiveInjector" where
  "lxp_captureLinkHeader frame f =
     (case lxp_linkHdr f of
        Some h \<Rightarrow> f
      | None \<Rightarrow> f\<lparr>lxp_linkHdr := Some (take ethernetHeaderLen frame)\<rparr>)"

definition lxp_onFrame :: "byte list \<Rightarrow> LinuxPassiveInjector \<Rightarrow> LinuxPassiveInjector \<times> unit effect list" where
  "lxp_onFrame frame f =
     (if length frame < ethernetHeaderLen + 40 then (f, [])
      else if frame ! 12 \<noteq> 0x08 \<or> frame ! 13 \<noteq> 0x00 then (f, [])
      else let raw = drop ethernetHeaderLen frame in
      if IPVersion raw \<noteq> 4 then (f, [])
      else (case (IPv4SrcAddr raw, IPv4DstAddr raw) of
          (Some src, Some dst) \<Rightarrow>
            let srcIP = IP_String (Some src);
                dstIP = IP_String (Some dst);
                srcPort = TCPSrcPort raw;
                dstPort = TCPDstPort raw
            in (case lxp_lookupConnQuad f srcIP srcPort dstIP dstPort of
                  None \<Rightarrow> (f, [])
                | Some (r, outb) \<Rightarrow>
                    let f = (if outb then lxp_captureLinkHeader frame f else f);
                        conn = heap f r
                    in if \<not> Monitor conn then (f, [])
                       else let (c, es) = (if outb then lxp_onOutboundPacket raw conn
                                           else lxp_onInboundPacket raw conn)
                            in (update_conn r c f, es))
        | _ \<Rightarrow> (f, [])))"

section \<open>Injection\<close>

definition lxp_sendRawPacket :: "byte list option \<Rightarrow> byte list \<Rightarrow> inj_world \<Rightarrow> string option \<times> inj_world" where
  "lxp_sendRawPacket linkHdr rawIP w =
     (let hdr = (case linkHdr of None \<Rightarrow> [] | Some h \<Rightarrow> h) in
      if length hdr < ethernetHeaderLen then (Some ''no observed Ethernet header yet for injection'', w)
      else w_syscall (take ethernetHeaderLen hdr @ rawIP) w)"

definition lxp_runFakeInjection :: "LinuxPassiveInjector \<Rightarrow> byte list \<Rightarrow> inj_world \<Rightarrow> inj_world" where
  "lxp_runFakeInjection f rawCopy w =
     (let w = interfere (w_sleep 1000000 w);
          conn = iw_conn w
      in if \<not> Monitor conn then endInjection w
         else if BypassMethod conn \<noteq> ''wrong_seq'' then
           let w = w_log (''not implemented bypass method: '' @ BypassMethod conn) w;
               (c, es) = AbortUnexpectedCloseLocked (iw_conn w)
           in endInjection (w\<lparr>iw_conn := c, iw_effects := iw_effects w @ es\<rparr>)
         else endInjection (repeatAndConclude (lxp_nicMTU f) rawCopy (lxp_sendRawPacket (lxp_linkHdr f)) w))"

section \<open>The contracts\<close>

interpretation linux_passive: injector_backend "\<lambda>(u :: unit) raw c. lxp_onInboundPacket raw c" "\<lambda>(u :: unit) raw c. lxp_onOutboundPacket raw c"
  "\<lambda>(u :: unit) raw. []" "\<lambda>(u :: unit) raw. [GoInject raw]"
proof
  fix raw c
  define h :: "outcome \<Rightarrow> unit handled"
    where "h out = (apply_outcome out c, outcome_effects ([]) [GoInject raw] raw c out)" for out
  have leaf: "lxp_onUnexpectedPacket raw c info = h (Unexpected info)"
    "(c\<lparr>SynAckSeq := int (unat q)\<rparr>, []) = h (LearnSynAck q)"
    "(c\<lparr>SynSeq := int (unat q)\<rparr>, []) = h (LearnSyn q)"
    "(c\<lparr>PostFakeAckObserved := True\<rparr>, []) = h NoteAck"
    "(trySend ''fake_data_ack_recv'' (c\<lparr>Monitor := False\<rparr>), []) = h FakeAcked"
    "(c\<lparr>FakeInjectInProgress := True\<rparr>, [GoInject raw]) = h StartInjection"
    "(c, []) = h PassOn" for info q
    by (simp_all add: h_def lxp_onUnexpectedPacket_def apply_outcome_def outcome_effects_def)
  show "lxp_onInboundPacket raw c = (apply_outcome (inbound (seg_of raw) c) c,
      outcome_effects ([]) [GoInject raw] raw c (inbound (seg_of raw) c))"
    unfolding lxp_onInboundPacket_def Let_def leaf h_def [symmetric] by (rule inbound_code)
  show "lxp_onOutboundPacket raw c = (apply_outcome (outbound (seg_of raw) c) c,
      outcome_effects ([]) [GoInject raw] raw c (outbound (seg_of raw) c))"
    unfolding lxp_onOutboundPacket_def Let_def leaf h_def [symmetric] disj_code [of "FakeSent c" "FakeInjectInProgress c"] by (rule outbound_code)
qed

interpretation linux_passive_flows: flow_lookup lxp_RegisterConn lxp_UnregisterConn
  "\<lambda>f a b c d. (lxp_lookupConnQuad f a b c d, f)"
  by unfold_locales
    (simp_all add: lxp_RegisterConn_def lxp_UnregisterConn_def lxp_lookupConnQuad_def Let_def split: option.split)

interpretation linux_frames: live_sender "lxp_sendRawPacket linkHdr" "drop ethernetHeaderLen"
  "\<lambda>p. ethernetHeaderLen \<le> length (case linkHdr of None \<Rightarrow> [] | Some h \<Rightarrow> h)"
  by unfold_locales
    (auto simp: lxp_sendRawPacket_def w_syscall_def Let_def split: option.splits list.splits if_splits)

end
