(* ===== verification/Darwin.thy ===== *)
theory Darwin
  imports Flow_Table Injection_Run
begin

text \<open>
  Model of \<^verbatim>\<open>injection/injector_darwin.go\<close>: the BPF injector of macOS. It follows the handshake
  on captured link-layer frames, remembers the link header of an outbound frame and writes the
  fake behind it; the link header has \<^verbatim>\<open>linkLen\<close> bytes, none for raw IP.
\<close>

section \<open>State\<close>

record DarwinInjector = flow_table +
  dw_bpfFd :: int
  dw_dlt :: int
  dw_linkLen :: nat
  dw_localIP :: string
  dw_linkHdr :: "byte list option"
  dw_connectIP :: string
  dw_connectPort :: u16
  dw_nicMTU :: int
  dw_bufLen :: int

text \<open>\<^verbatim>\<open>buildFrame\<close> of \<^verbatim>\<open>bpf_darwin.go\<close>.\<close>

definition buildFrame :: "byte list \<Rightarrow> byte list \<Rightarrow> byte list" where
  "buildFrame linkHdr ip = (if length linkHdr = 0 then ip else linkHdr @ ip)"

section \<open>Handlers\<close>

definition dw_onUnexpectedPacket ::
  "byte list \<Rightarrow> FakeInjectiveConnection \<Rightarrow> string \<Rightarrow> unit handled" where
  "dw_onUnexpectedPacket raw conn info =
     (trySend ''unexpected_close'' (conn\<lparr>Monitor := False\<rparr>),
      [LogF (''injector: '' @ info @ '' '' @ PacketSummary raw)] @ closeSocks conn)"

definition dw_onInboundPacket ::
  "byte list \<Rightarrow> FakeInjectiveConnection \<Rightarrow> unit handled" where
  "dw_onInboundPacket raw conn =
     (if SynSeq conn = -1 then
        dw_onUnexpectedPacket raw conn ''unexpected inbound packet, no syn sent!''
      else let flags = GetTCPFlags raw;
               payloadLen = TCPPayloadLen raw;
               seqNum = TCPSeqNum raw;
               ackNum = TCPAckNum raw
      in if ACK flags \<and> SYN flags \<and> \<not> RST flags \<and> \<not> FIN flags \<and> payloadLen = 0 then
           (if SynAckSeq conn \<noteq> -1 \<and> SynAckSeq conn \<noteq> int (unat seqNum) then
              dw_onUnexpectedPacket raw conn
                (info2 ''unexpected inbound syn-ack, seq change!'' seqNum (SynAckSeq conn))
            else let expectedAck = (of_int (SynSeq conn) + 1) AND 0xffffffff :: u32 in
            if ackNum \<noteq> expectedAck then
              dw_onUnexpectedPacket raw conn
                (info2 ''unexpected inbound syn-ack, ack not matched!'' ackNum (SynSeq conn))
            else (conn\<lparr>SynAckSeq := int (unat seqNum)\<rparr>, []))
         else if ACK flags \<and> \<not> SYN flags \<and> \<not> RST flags \<and> FakeInjectInProgress conn \<and> \<not> FakeSent conn then
           (conn\<lparr>PostFakeAckObserved := True\<rparr>, [])
         else if ACK flags \<and> \<not> SYN flags \<and> \<not> RST flags \<and> FakeSent conn \<and> SynAckSeq conn \<noteq> -1 then
           (let strict = postFakeInboundStrictOK seqNum ackNum conn in
            if \<not> strict \<and> \<not> postFakeInboundPermissiveOK flags then
              dw_onUnexpectedPacket raw conn (after_fake_info seqNum ackNum conn strict)
            else (trySend ''fake_data_ack_recv'' (conn\<lparr>Monitor := False\<rparr>), []))
         else dw_onUnexpectedPacket raw conn ''unexpected inbound packet'')"

definition dw_onOutboundPacket ::
  "byte list \<Rightarrow> FakeInjectiveConnection \<Rightarrow> unit handled" where
  "dw_onOutboundPacket raw conn =
     (if FakeSent conn \<or> FakeInjectInProgress conn then (conn, [])
      else let flags = GetTCPFlags raw;
               payloadLen = TCPPayloadLen raw;
               seqNum = TCPSeqNum raw;
               ackNum = TCPAckNum raw
      in if SYN flags \<and> \<not> ACK flags \<and> \<not> RST flags \<and> \<not> FIN flags \<and> payloadLen = 0 then
           (if ackNum \<noteq> 0 then
              dw_onUnexpectedPacket raw conn ''unexpected outbound syn, ack_num is not zero!''
            else if SynSeq conn \<noteq> -1 \<and> SynSeq conn \<noteq> int (unat seqNum) then
              dw_onUnexpectedPacket raw conn
                (info2 ''unexpected outbound syn, seq not matched!'' seqNum (SynSeq conn))
            else (conn\<lparr>SynSeq := int (unat seqNum)\<rparr>, []))
         else if ACK flags \<and> \<not> SYN flags \<and> \<not> RST flags \<and> \<not> FIN flags \<and> payloadLen = 0 then
           (let expectedSeq = (of_int (SynSeq conn) + 1) AND 0xffffffff :: u32 in
            if SynSeq conn = -1 \<or> expectedSeq \<noteq> seqNum then
              dw_onUnexpectedPacket raw conn
                (info2 ''unexpected outbound ack, seq not matched!'' seqNum (SynSeq conn))
            else let expectedAck = (of_int (SynAckSeq conn) + 1) AND 0xffffffff :: u32 in
            if SynAckSeq conn = -1 \<or> ackNum \<noteq> expectedAck then
              dw_onUnexpectedPacket raw conn
                (info2 ''unexpected outbound ack, ack not matched!'' ackNum (SynAckSeq conn))
            else (conn\<lparr>FakeInjectInProgress := True\<rparr>, [GoInject raw]))
         else dw_onUnexpectedPacket raw conn ''unexpected outbound packet'')"

section \<open>Flows\<close>

definition dw_lookupConnQuad ::
  "DarwinInjector \<Rightarrow> string \<Rightarrow> u16 \<Rightarrow> string \<Rightarrow> u16 \<Rightarrow> (nat \<times> bool) option" where
  "dw_lookupConnQuad f srcIP srcPort dstIP dstPort =
     (case Connections f (quad srcIP srcPort dstIP dstPort) of
        Some v \<Rightarrow> Some (v, True)
      | None \<Rightarrow> (case Connections f (quad dstIP dstPort srcIP srcPort) of
          Some v \<Rightarrow> Some (v, False)
        | None \<Rightarrow>
            let byDst = (case byLocalPort f dstPort of
                  None \<Rightarrow> None
                | Some v \<Rightarrow> if ipv4Equal srcIP (DstIP (heap f v)) \<and> srcPort = DstPort (heap f v)
                            then Some (v, False) else None)
            in (case byLocalPort f srcPort of
                  None \<Rightarrow> byDst
                | Some v \<Rightarrow> if ipv4Equal dstIP (DstIP (heap f v)) \<and> dstPort = DstPort (heap f v)
                            then Some (v, True) else byDst)))"

definition dw_RegisterConn :: "nat \<Rightarrow> DarwinInjector \<Rightarrow> DarwinInjector" where
  "dw_RegisterConn r f =
     (let conn = heap f r;
          f = f\<lparr>Connections := (Connections f)(ID conn \<mapsto> r)\<rparr>
      in f\<lparr>byLocalPort := (byLocalPort f)(SrcPort conn \<mapsto> r)\<rparr>)"

definition dw_UnregisterConn :: "nat \<Rightarrow> DarwinInjector \<Rightarrow> DarwinInjector" where
  "dw_UnregisterConn r f =
     (let conn = heap f r;
          f = f\<lparr>Connections := (Connections f)(ID conn := None)\<rparr>
      in f\<lparr>byLocalPort := (byLocalPort f)(SrcPort conn := None)\<rparr>)"

definition dw_captureLinkHeader :: "byte list \<Rightarrow> DarwinInjector \<Rightarrow> DarwinInjector" where
  "dw_captureLinkHeader frame f =
     (case dw_linkHdr f of
        Some h \<Rightarrow> f
      | None \<Rightarrow> f\<lparr>dw_linkHdr := Some (take (dw_linkLen f) frame)\<rparr>)"

definition dw_onFrame :: "byte list \<Rightarrow> DarwinInjector \<Rightarrow> DarwinInjector \<times> unit effect list" where
  "dw_onFrame frame f =
     (if length frame < dw_linkLen f then (f, [])
      else let ipPkt = drop (dw_linkLen f) frame in
      if length ipPkt < 40 \<or> IPVersion ipPkt \<noteq> 4 then (f, [])
      else (case IPv4SrcAddr ipPkt of
          None \<Rightarrow> (f, [])
        | Some src \<Rightarrow>
            let srcIP = IP_String (Some src);
                dstIP = IP_String (IPv4DstAddr ipPkt);
                srcPort = TCPSrcPort ipPkt;
                dstPort = TCPDstPort ipPkt
            in (case dw_lookupConnQuad f srcIP srcPort dstIP dstPort of
                  None \<Rightarrow> (f, [])
                | Some (r, outb) \<Rightarrow>
                    let f = (if outb \<and> dw_linkLen f > 0 then dw_captureLinkHeader frame f else f);
                        conn = heap f r
                    in if \<not> Monitor conn then (f, [])
                       else let (c, es) = (if outb then dw_onOutboundPacket ipPkt conn
                                           else dw_onInboundPacket ipPkt conn)
                            in (update_conn r c f, es))))"

section \<open>Injection\<close>

definition dw_sendRawPacket :: "DarwinInjector \<Rightarrow> byte list \<Rightarrow> inj_world \<Rightarrow> string option \<times> inj_world" where
  "dw_sendRawPacket f rawIP w =
     (let hdr = (case dw_linkHdr f of None \<Rightarrow> [] | Some h \<Rightarrow> h) in
      if dw_linkLen f > 0 \<and> length hdr < dw_linkLen f
      then (Some ''no observed link header yet for injection'', w)
      else w_syscall (buildFrame hdr rawIP) w)"

definition dw_runFakeInjection :: "DarwinInjector \<Rightarrow> byte list \<Rightarrow> inj_world \<Rightarrow> inj_world" where
  "dw_runFakeInjection f rawCopy w =
     (let w = interfere (w_sleep 1000000 w);
          conn = iw_conn w
      in if \<not> Monitor conn then endInjection w
         else if BypassMethod conn \<noteq> ''wrong_seq'' then
           let w = w_log (''not implemented bypass method: '' @ BypassMethod conn) w;
               (c, es) = AbortUnexpectedCloseLocked (iw_conn w)
           in endInjection (w\<lparr>iw_conn := c, iw_effects := iw_effects w @ es\<rparr>)
         else endInjection (repeatAndConclude (dw_nicMTU f) rawCopy (dw_sendRawPacket f) w))"

section \<open>The contracts\<close>

interpretation darwin: injector_backend "\<lambda>(u :: unit) raw c. dw_onInboundPacket raw c" "\<lambda>(u :: unit) raw c. dw_onOutboundPacket raw c"
  "\<lambda>(u :: unit) raw. []" "\<lambda>(u :: unit) raw. [GoInject raw]"
proof
  fix raw c
  define h :: "outcome \<Rightarrow> unit handled"
    where "h out = (apply_outcome out c, outcome_effects ([]) [GoInject raw] raw c out)" for out
  have leaf: "dw_onUnexpectedPacket raw c info = h (Unexpected info)"
    "(c\<lparr>SynAckSeq := int (unat q)\<rparr>, []) = h (LearnSynAck q)"
    "(c\<lparr>SynSeq := int (unat q)\<rparr>, []) = h (LearnSyn q)"
    "(c\<lparr>PostFakeAckObserved := True\<rparr>, []) = h NoteAck"
    "(trySend ''fake_data_ack_recv'' (c\<lparr>Monitor := False\<rparr>), []) = h FakeAcked"
    "(c\<lparr>FakeInjectInProgress := True\<rparr>, [GoInject raw]) = h StartInjection"
    "(c, []) = h PassOn" for info q
    by (simp_all add: h_def dw_onUnexpectedPacket_def apply_outcome_def outcome_effects_def)
  show "dw_onInboundPacket raw c = (apply_outcome (inbound (seg_of raw) c) c,
      outcome_effects ([]) [GoInject raw] raw c (inbound (seg_of raw) c))"
    unfolding dw_onInboundPacket_def Let_def leaf h_def [symmetric] by (rule inbound_code)
  show "dw_onOutboundPacket raw c = (apply_outcome (outbound (seg_of raw) c) c,
      outcome_effects ([]) [GoInject raw] raw c (outbound (seg_of raw) c))"
    unfolding dw_onOutboundPacket_def Let_def leaf h_def [symmetric] disj_code [of "FakeSent c" "FakeInjectInProgress c"] by (rule outbound_code)
qed

interpretation darwin_flows: flow_lookup dw_RegisterConn dw_UnregisterConn
  "\<lambda>f a b c d. (dw_lookupConnQuad f a b c d, f)"
  by unfold_locales
    (simp_all add: dw_RegisterConn_def dw_UnregisterConn_def dw_lookupConnQuad_def Let_def split: option.split)

interpretation darwin_frames: live_sender "dw_sendRawPacket f"
  "drop (length (case dw_linkHdr f of None \<Rightarrow> [] | Some h \<Rightarrow> h))"
  "\<lambda>p. dw_linkLen f \<le> length (case dw_linkHdr f of None \<Rightarrow> [] | Some h \<Rightarrow> h)"
  by unfold_locales
    (auto simp: dw_sendRawPacket_def buildFrame_def w_syscall_def Let_def split: option.splits list.splits if_splits)

end
