(* ===== verification/Go_Strings.thy ===== *)
theory Go_Strings
  imports NetIP
begin

text \<open>
  The functions of Go's \<^verbatim>\<open>strings\<close>, \<^verbatim>\<open>strconv\<close> and \<^verbatim>\<open>net\<close> packages the program handles its
  command line, configuration file and system output with. Text is ASCII here: white space and
  letter case are those of ASCII.
\<close>

section \<open>\<^verbatim>\<open>strings\<close>\<close>

definition is_space :: "char \<Rightarrow> bool" where
  "is_space c \<longleftrightarrow> 9 \<le> code c \<and> code c \<le> 13 \<or> code c = 32"

definition TrimSpace :: "string \<Rightarrow> string" where
  "TrimSpace s = rev (dropWhile is_space (rev (dropWhile is_space s)))"

definition lower :: "char \<Rightarrow> char" where
  "lower c = (if 65 \<le> code c \<and> code c \<le> 90 then char_of (code c + 32) else c)"

definition ToLower :: "string \<Rightarrow> string" where
  "ToLower s = map lower s"

definition EqualFold :: "string \<Rightarrow> string \<Rightarrow> bool" where
  "EqualFold s t \<longleftrightarrow> ToLower s = ToLower t"

definition HasPrefix :: "string \<Rightarrow> string \<Rightarrow> bool" where
  "HasPrefix s p \<longleftrightarrow> take (length p) s = p"

definition HasSuffix :: "string \<Rightarrow> string \<Rightarrow> bool" where
  "HasSuffix s p \<longleftrightarrow> length p \<le> length s \<and> drop (length s - length p) s = p"

definition TrimPrefix :: "string \<Rightarrow> string \<Rightarrow> string" where
  "TrimPrefix s p = (if HasPrefix s p then drop (length p) s else s)"

text \<open>\<^verbatim>\<open>strings.Cut\<close> at a one-character separator, \<^verbatim>\<open>strings.Split\<close> likewise.\<close>

definition Cut :: "string \<Rightarrow> char \<Rightarrow> string \<times> string \<times> bool" where
  "Cut s c =
     (let before = takeWhile (\<lambda>x. x \<noteq> c) s in
      if before = s then (s, [], False) else (before, drop (length before + 1) s, True))"

function Split :: "string \<Rightarrow> char \<Rightarrow> string list" where
  "Split s c =
     (let before = takeWhile (\<lambda>x. x \<noteq> c) s in
      if before = s then [s] else before # Split (drop (length before + 1) s) c)"
  by pat_completeness auto
termination
proof (relation "measure (\<lambda>(s, c). length s)")
  fix s before :: string and c :: char
  assume "before = takeWhile (\<lambda>x. x \<noteq> c) s" "before \<noteq> s"
  then have "s \<noteq> []" by auto
  then show "((drop (length before + 1) s, c), s, c) \<in> measure (\<lambda>(s, c). length s)" by simp
qed simp

declare Split.simps [simp del]

function Fields :: "string \<Rightarrow> string list" where
  "Fields s =
     (let s = dropWhile is_space s in
      if s = [] then []
      else takeWhile (\<lambda>c. \<not> is_space c) s # Fields (dropWhile (\<lambda>c. \<not> is_space c) s))"
  by pat_completeness auto
termination
proof (relation "measure length")
  fix s t :: string
  assume t: "t = dropWhile is_space s" "t \<noteq> []"
  then have "\<not> is_space (hd t)" by (simp add: hd_dropWhile)
  then have "length (dropWhile (\<lambda>c. \<not> is_space c) t) < length t"
    using t(2) by (cases t) (simp_all add: le_imp_less_Suc length_dropWhile_le)
  also have "\<dots> \<le> length s" by (simp add: t(1) length_dropWhile_le)
  finally show "(dropWhile (\<lambda>c. \<not> is_space c) t, s) \<in> measure length" by simp
qed simp

declare Fields.simps [simp del]

definition ReplaceAll :: "string \<Rightarrow> char \<Rightarrow> string \<Rightarrow> string" where
  "ReplaceAll s old new = concat (map (\<lambda>c. if c = old then new else [c]) s)"

fun Join :: "string list \<Rightarrow> string \<Rightarrow> string" where
  "Join [] sep = []"
| "Join [s] sep = s"
| "Join (s # ss) sep = s @ sep @ Join ss sep"

section \<open>\<^verbatim>\<open>strconv\<close>\<close>

text \<open>The digits of a number with at least one digit.\<close>

definition digits :: "string \<Rightarrow> nat option" where
  "digits s = (if s \<noteq> [] \<and> list_all is_digit s then Some (undecimal s) else None)"

definition ParseUint32 :: "string \<Rightarrow> nat option" where
  "ParseUint32 s = (case digits s of None \<Rightarrow> None | Some n \<Rightarrow> if n < 2 ^ 32 then Some n else None)"

definition Atoi :: "string \<Rightarrow> int option" where
  "Atoi s =
     (let (neg, ds) = (case s of c # cs \<Rightarrow> if c = CHR ''-'' then (True, cs) else if c = CHR ''+'' then (False, cs) else (False, s)
                       | [] \<Rightarrow> (False, s))
      in case digits ds of
           None \<Rightarrow> None
         | Some n \<Rightarrow> if neg then (if n \<le> 2 ^ 63 then Some (- int n) else None)
                    else (if n < 2 ^ 63 then Some (int n) else None))"

text \<open>\<^verbatim>\<open>fmt.Sprintf("%x", n)\<close>.\<close>

definition hexdigit :: "nat \<Rightarrow> char" where
  "hexdigit d = (if d < 10 then char_of (48 + d) else char_of (87 + d))"

fun hexadecimal :: "nat \<Rightarrow> string" where
  "hexadecimal n = (if n < 16 then [hexdigit n] else hexadecimal (n div 16) @ [hexdigit (n mod 16)])"

declare hexadecimal.simps [simp del]

section \<open>\<^verbatim>\<open>net\<close>\<close>

definition JoinHostPort :: "string \<Rightarrow> string \<Rightarrow> string" where
  "JoinHostPort host port =
     (if CHR '':'' \<in> set host then ''['' @ host @ '']:'' @ port else host @ '':'' @ port)"

text \<open>\<^verbatim>\<open>net.SplitHostPort\<close>: \<open>lastIndex\<close> and \<open>firstIndex\<close> are the byte searches it uses.\<close>

definition firstIndex :: "char \<Rightarrow> string \<Rightarrow> nat option" where
  "firstIndex c s = (if c \<in> set s then Some (length (takeWhile (\<lambda>x. x \<noteq> c) s)) else None)"

definition lastIndex :: "char \<Rightarrow> string \<Rightarrow> nat option" where
  "lastIndex c s =
     (if c \<in> set s then Some (length s - 1 - length (takeWhile (\<lambda>x. x \<noteq> c) (rev s))) else None)"

definition SplitHostPort :: "string \<Rightarrow> string + (string \<times> string)" where
  "SplitHostPort hostport =
     (let addrErr = (\<lambda>why. Inl ((if hostport = [] then [] else ''address '' @ hostport @ '': '') @ why)) in
      case lastIndex CHR '':'' hostport of
        None \<Rightarrow> addrErr ''missing port in address''
      | Some i \<Rightarrow>
          let rest = (\<lambda>host j k.
                if CHR ''['' \<in> set (drop j hostport) then addrErr ''unexpected '[' in address''
                else if CHR '']'' \<in> set (drop k hostport) then addrErr ''unexpected ']' in address''
                else Inr (host, drop (i + 1) hostport))
          in if hd hostport = CHR ''['' then
               (case firstIndex CHR '']'' hostport of
                  None \<Rightarrow> addrErr ''missing ']' in address''
                | Some e \<Rightarrow>
                    if e + 1 = length hostport then addrErr ''missing port in address''
                    else if e + 1 = i then rest (subslice hostport 1 e) 1 (e + 1)
                    else if hostport ! (e + 1) = CHR '':'' then addrErr ''too many colons in address''
                    else addrErr ''missing port in address'')
             else let host = take i hostport in
               if CHR '':'' \<in> set host then addrErr ''too many colons in address'' else rest host 0 0)"

text \<open>\<^verbatim>\<open>strconv.Quote\<close>, the \<^verbatim>\<open>%q\<close> of \<^verbatim>\<open>fmt\<close>.\<close>

definition quoteChar :: "char \<Rightarrow> string" where
  "quoteChar c =
     (if c = CHR 0x22 \<or> c = CHR 0x5C then [CHR 0x5C, c]
      else if 32 \<le> code c \<and> code c < 127 then [c]
      else case map_of [(7, CHR ''a''), (8, CHR ''b''), (12, CHR ''f''), (10, CHR 0x6E), (13, CHR ''r''),
                        (9, CHR ''t''), (11, CHR ''v'')] (code c) of
             Some d \<Rightarrow> [CHR 0x5C, d]
           | None \<Rightarrow> [CHR 0x5C, CHR ''x'', hexdigit (code c div 16), hexdigit (code c mod 16)])"

definition Quote :: "string \<Rightarrow> string" where
  "Quote s = [CHR 0x22] @ concat (map quoteChar s) @ [CHR 0x22]"

end
