(* ===== verification/BPF.thy ===== *)
theory BPF
  imports Linux_Passive Darwin Go_Strings
begin

text \<open>
  The capture filters and the capture buffer: \<^verbatim>\<open>attachPassiveHostFilter\<close> of
  \<^verbatim>\<open>injection/injector_linux_passive.go\<close>, and \<^verbatim>\<open>buildTCPHostFilter\<close>, \<^verbatim>\<open>linkHeaderLen\<close>,
  \<^verbatim>\<open>iterBPFBuffer\<close> and \<^verbatim>\<open>bpfWordAlign\<close> of \<^verbatim>\<open>injection/bpf_darwin.go\<close>. The filters are programs of
  the classic BPF machine, whose documented semantics \<open>bpf_exec\<close> states for the instructions they
  use: a load outside the packet ends the program with 0, jumps are relative to the next
  instruction.
\<close>

section \<open>The machine\<close>

datatype bpf_instruction =
    LoadAbsolute nat nat
  | JumpEqual u32 nat nat
  | RetConstant u32

definition bpf_load :: "byte list \<Rightarrow> nat \<Rightarrow> nat \<Rightarrow> u32 option" where
  "bpf_load pkt off sz =
     (if length pkt < off + sz then None
      else if sz = 1 then Some (ucast (pkt ! off))
      else if sz = 2 then Some (ucast (be16 (pkt ! off) (pkt ! (off + 1))))
      else Some (be32 (pkt ! off) (pkt ! (off + 1)) (pkt ! (off + 2)) (pkt ! (off + 3))))"

function bpf_exec :: "bpf_instruction list \<Rightarrow> nat \<Rightarrow> u32 \<Rightarrow> byte list \<Rightarrow> u32 option" where
  "bpf_exec prog pc a pkt =
     (if pc < length prog then
        (case prog ! pc of
           LoadAbsolute off sz \<Rightarrow>
             (case bpf_load pkt off sz of
                None \<Rightarrow> Some 0
              | Some v \<Rightarrow> bpf_exec prog (pc + 1) v pkt)
         | JumpEqual v skipTrue skipFalse \<Rightarrow>
             bpf_exec prog (pc + 1 + (if a = v then skipTrue else skipFalse)) a pkt
         | RetConstant v \<Rightarrow> Some v)
      else None)"
  by pat_completeness auto
termination
  by (relation "measure (\<lambda>(prog, pc, a, pkt). length prog - pc)") auto

declare bpf_exec.simps [simp del]

text \<open>A filter accepts a frame when it returns a non-zero snap length.\<close>

definition bpf_accepts :: "bpf_instruction list \<Rightarrow> byte list \<Rightarrow> bool" where
  "bpf_accepts prog pkt \<longleftrightarrow> (\<exists>v. bpf_exec prog 0 0 pkt = Some v \<and> v \<noteq> 0)"

section \<open>The filters\<close>

definition buildTCPHostFilter :: "nat \<Rightarrow> byte list \<Rightarrow> bpf_instruction list" where
  "buildTCPHostFilter linkLen host =
     (let k = be32 (host ! 0) (host ! 1) (host ! 2) (host ! 3);
          ins = (if linkLen = 14 then [LoadAbsolute 12 2, JumpEqual 0x0800 0 7] else [])
      in ins @
         [LoadAbsolute (linkLen + 9) 1,
          JumpEqual 6 0 5,
          LoadAbsolute (linkLen + 12) 4,
          JumpEqual k 2 0,
          LoadAbsolute (linkLen + 16) 4,
          JumpEqual k 0 1,
          RetConstant 0x40000,
          RetConstant 0])"

text \<open>\<^verbatim>\<open>syscall.SockFilter\<close>, and the instructions the operation codes stand for.\<close>

record SockFilter =
  Code :: u16
  Jt :: nat
  Jf :: nat
  K :: u32

fun decodeInsn :: "SockFilter \<Rightarrow> bpf_instruction option" where
  "decodeInsn i =
     (if Code i = 0x28 then Some (LoadAbsolute (unat (K i)) 2)
      else if Code i = 0x30 then Some (LoadAbsolute (unat (K i)) 1)
      else if Code i = 0x20 then Some (LoadAbsolute (unat (K i)) 4)
      else if Code i = 0x15 then Some (JumpEqual (K i) (Jt i) (Jf i))
      else if Code i = 0x06 then Some (RetConstant (K i))
      else None)"

definition passiveHostFilter :: "byte list \<Rightarrow> SockFilter list" where
  "passiveHostFilter ip =
     (let host = be32 (ip ! 0) (ip ! 1) (ip ! 2) (ip ! 3); accept = 0x40000 in
      [\<lparr>Code = 0x28, Jt = 0, Jf = 0, K = 12\<rparr>,
       \<lparr>Code = 0x15, Jt = 0, Jf = 7, K = 0x0800\<rparr>,
       \<lparr>Code = 0x30, Jt = 0, Jf = 0, K = 23\<rparr>,
       \<lparr>Code = 0x15, Jt = 0, Jf = 5, K = 6\<rparr>,
       \<lparr>Code = 0x20, Jt = 0, Jf = 0, K = 26\<rparr>,
       \<lparr>Code = 0x15, Jt = 2, Jf = 0, K = host\<rparr>,
       \<lparr>Code = 0x20, Jt = 0, Jf = 0, K = 30\<rparr>,
       \<lparr>Code = 0x15, Jt = 0, Jf = 1, K = host\<rparr>,
       \<lparr>Code = 0x06, Jt = 0, Jf = 0, K = accept\<rparr>,
       \<lparr>Code = 0x06, Jt = 0, Jf = 0, K = 0\<rparr>])"

text \<open>\<^verbatim>\<open>attachPassiveHostFilter\<close>; \<open>AttachLsf\<close> is the answer of the system call to the program.\<close>

definition attachPassiveHostFilter :: "(SockFilter list \<Rightarrow> string option) \<Rightarrow> string \<Rightarrow> string option" where
  "attachPassiveHostFilter AttachLsf connectIP =
     (case (case ParseIP connectIP of None \<Rightarrow> None | Some ip \<Rightarrow> IP_To4 ip) of
        None \<Rightarrow> Some (''connect IP is not IPv4: '' @ Quote connectIP)
      | Some ip \<Rightarrow> AttachLsf (passiveHostFilter ip))"

section \<open>Link layer and capture buffer\<close>

definition dltRaw :: int where
  "dltRaw = 12"

text \<open>\<^verbatim>\<open>DLT_NULL\<close> is 0 and \<^verbatim>\<open>DLT_EN10MB\<close> is 1.\<close>

definition linkHeaderLen :: "int \<Rightarrow> string + nat" where
  "linkHeaderLen dlt =
     (if dlt = 1 then Inr 14
      else if dlt = 0 then Inr 4
      else if dlt = dltRaw then Inr 0
      else Inl (''unsupported BPF link type DLT='' @ decimal_int dlt @ '' (need Ethernet, NULL, or RAW)''))"

definition bpfHdrMinLen :: nat where
  "bpfHdrMinLen = 18"

definition bpfWordAlign :: "int \<Rightarrow> int" where
  "bpfWordAlign x = (let align = 4 in (x + (align - 1)) AND NOT (align - 1))"

lemma and_not_mask: "(y :: int) AND NOT (mask n) = push_bit n (drop_bit n y)"
  by (rule bit_eqI) (auto simp: bit_simps)

lemma bpfWordAlign_eq: "bpfWordAlign x = (x + 3) div 4 * 4"
proof -
  have m: "(3 :: int) = mask 2" by (simp add: mask_eq_exp_minus_1)
  have "bpfWordAlign x = (x + 3) AND NOT (mask 2)"
    unfolding bpfWordAlign_def Let_def by (simp add: m [symmetric])
  then show ?thesis by (simp add: and_not_mask push_bit_eq_mult drop_bit_eq_div)
qed

lemma bpfWordAlign_bounds: "x \<le> bpfWordAlign x" "bpfWordAlign x < x + 4"
  unfolding bpfWordAlign_eq by linarith+

text \<open>The macOS targets are little-endian.\<close>

definition le16 :: "byte list \<Rightarrow> nat option" where
  "le16 xs = (if 2 \<le> length xs then Some (unat (be16 (xs ! 1) (xs ! 0))) else None)"

definition le32 :: "byte list \<Rightarrow> nat option" where
  "le32 xs = (if 4 \<le> length xs then Some (unat (be32 (xs ! 3) (xs ! 2) (xs ! 1) (xs ! 0))) else None)"

text \<open>The frames handed to the callback, in order; \<^const>\<open>None\<close> where a slice or an integer read would panic.\<close>

function iterBPFLoop :: "byte list \<Rightarrow> nat \<Rightarrow> byte list list option" where
  "iterBPFLoop buf off =
     (if off + bpfHdrMinLen \<le> length buf then
        (case (le32 (drop (off + 8) buf), le16 (drop (off + 16) buf)) of
           (Some caplen, Some hdrlen) \<Rightarrow>
             if hdrlen < bpfHdrMinLen \<or> caplen \<le> 0 then Some []
             else let start = off + hdrlen; stop = start + caplen in
             if stop > length buf then Some []
             else (case go_slice buf start stop of
                None \<Rightarrow> None
              | Some frame \<Rightarrow>
                  let nxt = off + nat (bpfWordAlign (int (hdrlen + caplen))) in
                  if nxt \<le> off then Some [frame]
                  else map_option ((#) frame) (iterBPFLoop buf nxt))
         | _ \<Rightarrow> None)
      else Some [])"
  by pat_completeness auto
termination
  by (relation "measure (\<lambda>(buf, off). length buf - off)") (auto simp: bpfHdrMinLen_def)

declare iterBPFLoop.simps [simp del]

definition iterBPFBuffer :: "byte list \<Rightarrow> byte list list option" where
  "iterBPFBuffer buf = iterBPFLoop buf 0"

section \<open>What the filters accept\<close>

text \<open>The specification: an IPv4 TCP packet (behind an Ethernet header when there is one) from or to
  the host, long enough for the fields that are read.\<close>

definition tcp_host_frame :: "nat \<Rightarrow> byte list \<Rightarrow> byte list \<Rightarrow> bool" where
  "tcp_host_frame linkLen host frame \<longleftrightarrow>
     (linkLen = 14 \<longrightarrow> be16 (frame ! 12) (frame ! 13) = 0x0800) \<and>
     linkLen + 16 \<le> length frame \<and> frame ! (linkLen + 9) = 6 \<and>
     (subslice frame (linkLen + 12) (linkLen + 16) = host \<or>
      linkLen + 20 \<le> length frame \<and> subslice frame (linkLen + 16) (linkLen + 20) = host)"

lemma bit_byte_ge [simp]: "8 \<le> n \<Longrightarrow> \<not> bit (b :: byte) n"
  using bit_byte_lt [of b n] by auto

lemma put32_be32: "put32 (be32 a b c d) = [a, b, c, d]"
  unfolding be32_def put32_def
  by (auto intro!: bit_word_eqI simp: bit_simps)

lemma be32_eq_iff: "be32 a b c d = be32 a' b' c' d' \<longleftrightarrow> a = a' \<and> b = b' \<and> c = c' \<and> d = d'"
proof
  assume "be32 a b c d = be32 a' b' c' d'"
  then have "put32 (be32 a b c d) = put32 (be32 a' b' c' d')" by (rule arg_cong)
  then show "a = a' \<and> b = b' \<and> c = c' \<and> d = d'" by (simp add: put32_be32)
qed simp

lemma subslice_4:
  assumes "i + 4 \<le> length xs" and "length h = 4"
  shows "subslice xs i (i + 4) = h \<longleftrightarrow>
    be32 (xs ! i) (xs ! (i + 1)) (xs ! (i + 2)) (xs ! (i + 3)) = be32 (h ! 0) (h ! 1) (h ! 2) (h ! 3)"
proof -
  have "length (subslice xs i (i + 4)) = 4" using assms(1) by simp
  then have "subslice xs i (i + 4) = h \<longleftrightarrow> (\<forall>k < 4. subslice xs i (i + 4) ! k = h ! k)"
    using assms(2) by (auto simp: list_eq_iff_nth_eq)
  also have "\<dots> \<longleftrightarrow> (\<forall>k \<in> {0, 1, 2, 3}. subslice xs i (i + 4) ! k = h ! k)"
    by (auto simp: numeral_eq_Suc less_Suc_eq)
  finally show ?thesis using assms(1) by (simp add: be32_eq_iff)
qed

lemma exec_load:
  "pc < length prog \<Longrightarrow> prog ! pc = LoadAbsolute off sz \<Longrightarrow> pc' = pc + 1 \<Longrightarrow>
    bpf_exec prog pc a pkt = (case bpf_load pkt off sz of None \<Rightarrow> Some 0 | Some v \<Rightarrow> bpf_exec prog pc' v pkt)"
  by (subst bpf_exec.simps) (simp split: option.split)

lemma exec_jump:
  "pc < length prog \<Longrightarrow> prog ! pc = JumpEqual v st sf \<Longrightarrow> t = pc + 1 + st \<Longrightarrow> e = pc + 1 + sf \<Longrightarrow>
    bpf_exec prog pc a pkt = (if a = v then bpf_exec prog t a pkt else bpf_exec prog e a pkt)"
  by (subst bpf_exec.simps) simp

lemma exec_ret: "pc < length prog \<Longrightarrow> prog ! pc = RetConstant v \<Longrightarrow> bpf_exec prog pc a pkt = Some v"
  by (subst bpf_exec.simps) simp

lemma ucast_byte_6: "(ucast (x :: byte) :: u32) = 6 \<longleftrightarrow> x = 6"
proof
  assume "(ucast x :: u32) = 6"
  then have "unat (ucast x :: u32) = 6" by simp
  moreover have "take_bit 32 (unat x) = unat x"
    by (intro take_bit_nat_eq_self less_trans [OF unat_byte_less]) simp
  ultimately have "unat x = 6" by (simp add: unsigned_ucast_eq)
  then have "(of_nat (unat x) :: byte) = 6" by simp
  then show "x = 6" by simp
qed simp

lemma ucast_u16_eq: "(ucast (x :: u16) :: u32) = 0x0800 \<longleftrightarrow> x = 0x0800"
proof
  assume "(ucast x :: u32) = 0x0800"
  then have "unat (ucast x :: u32) = 0x0800" by simp
  moreover have "take_bit 32 (unat x) = unat x"
    by (intro take_bit_nat_eq_self less_trans [OF unat_u16_less]) simp
  ultimately have "unat x = 0x0800" by (simp add: unsigned_ucast_eq)
  then have "(of_nat (unat x) :: u16) = 0x0800" by simp
  then show "x = 0x0800" by simp
qed simp

text \<open>The part after the EtherType guard, wherever it stands in the program.\<close>

lemma exec_host_part:
  assumes "length host = 4"
    and p: "drop b prog = [LoadAbsolute (l + 9) 1, JumpEqual 6 0 5, LoadAbsolute (l + 12) 4,
      JumpEqual (be32 (host ! 0) (host ! 1) (host ! 2) (host ! 3)) 2 0, LoadAbsolute (l + 16) 4,
      JumpEqual (be32 (host ! 0) (host ! 1) (host ! 2) (host ! 3)) 0 1, RetConstant 0x40000, RetConstant 0]"
      (is "_ = ?p")
  shows "bpf_exec prog b a frame =
    Some (if l + 16 \<le> length frame \<and> frame ! (l + 9) = 6 \<and>
        (subslice frame (l + 12) (l + 16) = host \<or>
         l + 20 \<le> length frame \<and> subslice frame (l + 16) (l + 20) = host) then 0x40000 else 0)"
proof -
  have len: "length prog = b + 8" using arg_cong [OF p, of length] by simp
  have nth: "prog ! (b + k) = ?p ! k" if "k < 8" for k
    using that p len by (metis le_add1 nth_drop)
  note at = nth [of 0] nth [of 1] nth [of 2] nth [of 3] nth [of 4] nth [of 5] nth [of 6] nth [of 7]
  have load: "bpf_exec prog b v frame = (case bpf_load frame (l + 9) 1 of None \<Rightarrow> Some 0 | Some v \<Rightarrow> bpf_exec prog (b + 1) v frame)"
    "bpf_exec prog (b + 2) v frame = (case bpf_load frame (l + 12) 4 of None \<Rightarrow> Some 0 | Some v \<Rightarrow> bpf_exec prog (b + 3) v frame)"
    "bpf_exec prog (b + 4) v frame = (case bpf_load frame (l + 16) 4 of None \<Rightarrow> Some 0 | Some v \<Rightarrow> bpf_exec prog (b + 5) v frame)" for v
    by (rule exec_load; (use at(1,3,5) len in simp))+
  let ?k = "be32 (host ! 0) (host ! 1) (host ! 2) (host ! 3)"
  have jump: "bpf_exec prog (b + 1) v frame = (if v = 6 then bpf_exec prog (b + 2) v frame else bpf_exec prog (b + 7) v frame)"
    "bpf_exec prog (b + 3) v frame = (if v = ?k then bpf_exec prog (b + 6) v frame else bpf_exec prog (b + 4) v frame)"
    "bpf_exec prog (b + 5) v frame = (if v = ?k then bpf_exec prog (b + 6) v frame else bpf_exec prog (b + 7) v frame)" for v
    by (rule exec_jump [where st = 0 and sf = 5] exec_jump [where st = 2 and sf = 0] exec_jump [where st = 0 and sf = 1];
        (use at(2,4,6) len in simp; fail)?)+
  have acc: "bpf_exec prog (b + 6) v frame = Some 0x40000" "bpf_exec prog (b + 7) v frame = Some 0" for v
    using at(7,8) len by (simp_all add: exec_ret)
  have s: "subslice frame (l + 12) (l + 16) = host \<longleftrightarrow> be32 (frame ! (l + 12)) (frame ! (l + 12 + 1)) (frame ! (l + 12 + 2)) (frame ! (l + 12 + 3)) =
      be32 (host ! 0) (host ! 1) (host ! 2) (host ! 3)" if "l + 16 \<le> length frame"
    using subslice_4 [of "l + 12" frame host] that assms(1) by (simp add: add.commute)
  have d: "subslice frame (l + 16) (l + 20) = host \<longleftrightarrow> be32 (frame ! (l + 16)) (frame ! (l + 16 + 1)) (frame ! (l + 16 + 2)) (frame ! (l + 16 + 3)) =
      be32 (host ! 0) (host ! 1) (host ! 2) (host ! 3)" if "l + 20 \<le> length frame"
    using subslice_4 [of "l + 16" frame host] that assms(1) by (simp add: add.commute)
  have dst: "bpf_exec prog (b + 4) v frame =
      Some (if l + 20 \<le> length frame \<and> subslice frame (l + 16) (l + 20) = host then 0x40000 else 0)" for v
    unfolding load jump acc bpf_load_def using d by (cases "l + 20 \<le> length frame") simp_all
  have src: "bpf_exec prog (b + 2) v frame =
      Some (if l + 16 \<le> length frame \<and> (subslice frame (l + 12) (l + 16) = host \<or>
        l + 20 \<le> length frame \<and> subslice frame (l + 16) (l + 20) = host) then 0x40000 else 0)" for v
    unfolding load(2) jump acc dst bpf_load_def using s by (cases "l + 16 \<le> length frame") simp_all
  show ?thesis
    unfolding load(1) jump acc src bpf_load_def by (cases "l + 10 \<le> length frame") (simp_all add: ucast_byte_6)
qed

lemma host_filter_accepts:
  assumes "length host = 4"
  shows "bpf_accepts (buildTCPHostFilter linkLen host) frame = tcp_host_frame linkLen host frame"
proof -
  let ?prog = "buildTCPHostFilter linkLen host"
  show "bpf_accepts ?prog frame = tcp_host_frame linkLen host frame"
  proof (cases "linkLen = 14")
    case False
    then have "bpf_exec ?prog 0 0 frame = Some (if tcp_host_frame linkLen host frame then 0x40000 else 0)"
      by (subst exec_host_part [OF assms, of 0 _ linkLen]) (simp_all add: buildTCPHostFilter_def Let_def tcp_host_frame_def)
    then show ?thesis by (simp add: bpf_accepts_def)
  next
    case True
    let ?prog = "buildTCPHostFilter 14 host"
    have len: "length ?prog = 10" and at: "?prog ! 0 = LoadAbsolute 12 2" "?prog ! 1 = JumpEqual 0x0800 0 7" "?prog ! 9 = RetConstant 0"
      by (simp_all add: buildTCPHostFilter_def Let_def)
    have "drop 2 ?prog = [LoadAbsolute (14 + 9) 1, JumpEqual 6 0 5, LoadAbsolute (14 + 12) 4,
      JumpEqual (be32 (host ! 0) (host ! 1) (host ! 2) (host ! 3)) 2 0, LoadAbsolute (14 + 16) 4,
      JumpEqual (be32 (host ! 0) (host ! 1) (host ! 2) (host ! 3)) 0 1, RetConstant 0x40000, RetConstant 0]"
      by (simp add: buildTCPHostFilter_def Let_def)
    note rest = exec_host_part [OF assms this]
    have "bpf_exec ?prog 0 0 frame =
        (case bpf_load frame 12 2 of None \<Rightarrow> Some 0 | Some v \<Rightarrow> bpf_exec ?prog 1 v frame)"
      using at len by (intro exec_load) simp_all
    moreover have "bpf_exec ?prog 1 v frame = (if v = 0x0800 then bpf_exec ?prog 2 v frame else bpf_exec ?prog 9 v frame)" for v
      using at len by (intro exec_jump) simp_all
    moreover have "bpf_exec ?prog 9 v frame = Some 0" for v using at len by (intro exec_ret) simp_all
    ultimately have "bpf_exec ?prog 0 0 frame = Some (if tcp_host_frame 14 host frame then 0x40000 else 0)"
      by (cases "14 \<le> length frame") (simp_all add: rest bpf_load_def tcp_host_frame_def ucast_u16_eq)
    then show ?thesis by (simp add: bpf_accepts_def True)
  qed
qed

text \<open>The capture filter accepts exactly the IPv4 TCP frames from or to the upstream, for every link layer;
  and the filter the frame-based Linux injector attaches is the same program for Ethernet.\<close>

lemma host_filter_exact:
  assumes "length host = 4"
  shows "bpf_accepts (buildTCPHostFilter linkLen host) frame = tcp_host_frame linkLen host frame \<and>
    map decodeInsn (passiveHostFilter host) = map Some (buildTCPHostFilter 14 host)"
  using host_filter_accepts [OF assms] by (simp add: passiveHostFilter_def buildTCPHostFilter_def Let_def)

section \<open>The filters lose nothing\<close>

lemma IP_String_inject:
  assumes "length x = 4" and "length y = 4" and "IP_String (Some x) = IP_String (Some y)"
  shows "x = y"
proof -
  obtain a b c d where x: "x = [a, b, c, d]" using assms(1) by (auto simp: numeral_eq_Suc length_Suc_conv)
  obtain a' b' c' d' where y: "y = [a', b', c', d']" using assms(2) by (auto simp: numeral_eq_Suc length_Suc_conv)
  have "v4InV6 [a, b, c, d] = v4InV6 [a', b', c', d']"
    using assms(3) ParseIP_String [of a b c d] ParseIP_String [of a' b' c' d'] by (simp add: x y)
  then show ?thesis by (simp add: v4InV6_def x y)
qed

lemma ipv4Equal_inject:
  assumes "length x = 4" and "length y = 4"
  shows "ipv4Equal (IP_String (Some x)) (IP_String (Some y)) \<longleftrightarrow> x = y"
proof -
  obtain a b c d where x: "x = [a, b, c, d]" using assms(1) by (auto simp: numeral_eq_Suc length_Suc_conv)
  obtain a' b' c' d' where y: "y = [a', b', c', d']" using assms(2) by (auto simp: numeral_eq_Suc length_Suc_conv)
  show ?thesis unfolding x y ipv4Equal_def ParseIP_String by (simp add: IP_Equal_def v4InV6_def)
qed

text \<open>Every registered connection goes to the one upstream.\<close>

definition upstream_only :: "byte list \<Rightarrow> 'x flow_table_scheme \<Rightarrow> bool" where
  "upstream_only host f \<longleftrightarrow>
     (\<forall>i r. Connections f i = Some r \<longrightarrow> id_DstIP i = IP_String (Some host)) \<and>
     (\<forall>p r. byLocalPort f p = Some r \<longrightarrow> DstIP (heap f r) = IP_String (Some host))"

lemma lookup_upstream:
  assumes "length host = 4" "length s = 4" "length d = 4" and "s \<noteq> host" and "d \<noteq> host"
  shows "upstream_only host f1 \<Longrightarrow> lxp_lookupConnQuad f1 (IP_String (Some s)) sp (IP_String (Some d)) dp = None"
    "upstream_only host f2 \<Longrightarrow> dw_lookupConnQuad f2 (IP_String (Some s)) sp (IP_String (Some d)) dp = None"
  using assms IP_String_inject [of s host] IP_String_inject [of d host] ipv4Equal_inject [of s host] ipv4Equal_inject [of d host]
  by (auto simp: upstream_only_def lxp_lookupConnQuad_def dw_lookupConnQuad_def quad_def Let_def split: option.split)

lemma frame_addresses:
  assumes "l + 40 \<le> length frame"
  shows "IPv4SrcAddr (drop l frame) = Some (subslice frame (l + 12) (l + 16))"
    "IPv4DstAddr (drop l frame) = Some (subslice frame (l + 16) (l + 20))"
  using assms by (simp_all add: IPv4SrcAddr_def IPv4DstAddr_def subslice_def add.commute)

lemma refused_tcp_ignored:
  assumes "length host = 4" and "linkLen + 10 \<le> length frame" and "frame ! (linkLen + 9) = 6"
    and "linkLen = 14 \<longrightarrow> be16 (frame ! 12) (frame ! 13) = 0x0800"
    and "\<not> tcp_host_frame linkLen host frame"
  shows "linkLen = ethernetHeaderLen \<Longrightarrow> upstream_only host f1 \<Longrightarrow> lxp_onFrame frame f1 = (f1, [])"
    and "linkLen = dw_linkLen f2 \<Longrightarrow> upstream_only host f2 \<Longrightarrow> dw_onFrame frame f2 = (f2, [])"
proof -
  have "(linkLen = ethernetHeaderLen \<and> upstream_only host f1 \<longrightarrow> lxp_onFrame frame f1 = (f1, [])) \<and>
    (linkLen = dw_linkLen f2 \<and> upstream_only host f2 \<longrightarrow> dw_onFrame frame f2 = (f2, []))"
  proof (cases "linkLen + 40 \<le> length frame")
    case False
    then show ?thesis by (auto simp: lxp_onFrame_def dw_onFrame_def Let_def ethernetHeaderLen_def)
  next
    case True
    let ?s = "subslice frame (linkLen + 12) (linkLen + 16)" and ?d = "subslice frame (linkLen + 16) (linkLen + 20)"
    have "?s \<noteq> host" "?d \<noteq> host"
      using assms(3-5) True by (auto simp: tcp_host_frame_def)
    then have "upstream_only host f1 \<Longrightarrow> lxp_lookupConnQuad f1 (IP_String (Some ?s)) sp (IP_String (Some ?d)) dp = None"
      "upstream_only host f2 \<Longrightarrow> dw_lookupConnQuad f2 (IP_String (Some ?s)) sp (IP_String (Some ?d)) dp = None" for sp dp
      using lookup_upstream [OF assms(1)] True by simp_all
    then show ?thesis
      using frame_addresses [OF True] by (auto simp: lxp_onFrame_def dw_onFrame_def Let_def)
  qed
  then show "linkLen = ethernetHeaderLen \<Longrightarrow> upstream_only host f1 \<Longrightarrow> lxp_onFrame frame f1 = (f1, [])"
    "linkLen = dw_linkLen f2 \<Longrightarrow> upstream_only host f2 \<Longrightarrow> dw_onFrame frame f2 = (f2, [])" by blast+
qed



section \<open>The capture buffer\<close>

lemma le32_Some: "4 \<le> length xs \<Longrightarrow> \<exists>n. le32 xs = Some n"
  by (simp add: le32_def)

lemma le16_Some: "2 \<le> length xs \<Longrightarrow> \<exists>n. le16 xs = Some n"
  by (simp add: le16_def)

text \<open>One round of the loop.\<close>

lemma iterBPFLoop_next:
  assumes "off + bpfHdrMinLen \<le> length buf" and "le32 (drop (off + 8) buf) = Some caplen"
    and "le16 (drop (off + 16) buf) = Some hdrlen" and "bpfHdrMinLen \<le> hdrlen" and "0 < caplen"
    and "off + hdrlen + caplen \<le> length buf"
  shows "iterBPFLoop buf off = map_option ((#) (subslice buf (off + hdrlen) (off + hdrlen + caplen)))
    (iterBPFLoop buf (off + nat (bpfWordAlign (int (hdrlen + caplen)))))"
proof -
  have "0 < bpfWordAlign (int (hdrlen + caplen))"
    using bpfWordAlign_bounds(1) [of "int (hdrlen + caplen)"] assms(5) by linarith
  then show ?thesis using assms by (simp add: iterBPFLoop.simps [of buf off] Let_def)
qed

definition part_of :: "byte list \<Rightarrow> byte list \<Rightarrow> bool" where
  "part_of buf fr \<longleftrightarrow> (\<exists>i j. i < j \<and> j \<le> length buf \<and> fr = subslice buf i j)"

lemma iterBPFLoop_safe: "\<exists>frames. iterBPFLoop buf off = Some frames \<and> list_all (part_of buf) frames"
proof (induction "length buf - off" arbitrary: off rule: less_induct)
  case less
  show ?case
  proof (cases "off + bpfHdrMinLen \<le> length buf")
    case True
    then have l: "4 \<le> length (drop (off + 8) buf)" "2 \<le> length (drop (off + 16) buf)"
      by (simp_all add: bpfHdrMinLen_def le_diff_conv2)
    obtain caplen hdrlen where h: "le32 (drop (off + 8) buf) = Some caplen" "le16 (drop (off + 16) buf) = Some hdrlen"
      using le32_Some [OF l(1)] le16_Some [OF l(2)] by blast
    show ?thesis
    proof (cases "hdrlen < bpfHdrMinLen \<or> caplen \<le> 0 \<or> off + hdrlen + caplen > length buf")
      case False
      let ?n = "off + nat (bpfWordAlign (int (hdrlen + caplen)))"
      have "part_of buf (subslice buf (off + hdrlen) (off + hdrlen + caplen))"
        unfolding part_of_def
        by (rule exI [of _ "off + hdrlen"], rule exI [of _ "off + hdrlen + caplen"]) (use False in simp)
      moreover have "length buf - ?n < length buf - off"
        using bpfWordAlign_bounds(1) [of "int (hdrlen + caplen)"] False by linarith
      then obtain frames where "iterBPFLoop buf ?n = Some frames" "list_all (part_of buf) frames" using less by blast
      ultimately show ?thesis using iterBPFLoop_next [OF True h] False by simp
    qed (use h True in \<open>auto simp: iterBPFLoop.simps [of buf off]\<close>)
  qed (simp add: iterBPFLoop.simps)
qed

text \<open>
  Reading the capture buffer is safe: whatever bytes it holds, no slice or integer read is out of
  range, the loop ends, and every frame handed to the callback is a non-empty part of the buffer.
\<close>

lemma iterBPFBuffer_safe:
  "\<exists>frames. iterBPFBuffer buf = Some frames \<and> list_all (part_of buf) frames"
  unfolding iterBPFBuffer_def by (rule iterBPFLoop_safe)

text \<open>The records as the kernel lays them out: a header with the time stamp, the captured and the
  original length and the header length, perhaps more header bytes, the frame, and padding to a
  multiple of four bytes.\<close>

record capture =
  cp_tstamp :: "byte list"
  cp_datalen :: u32
  cp_extra :: "byte list"
  cp_frame :: "byte list"

definition capture_ok :: "capture \<Rightarrow> bool" where
  "capture_ok r \<longleftrightarrow> length (cp_tstamp r) = 8 \<and> 18 + length (cp_extra r) < 2 ^ 16 \<and>
     cp_frame r \<noteq> [] \<and> length (cp_frame r) < 2 ^ 32"

definition capture_bytes :: "capture \<Rightarrow> byte list" where
  "capture_bytes r =
     (let hdrlen = 18 + length (cp_extra r); len = hdrlen + length (cp_frame r) in
      cp_tstamp r @ rev (put32 (of_nat (length (cp_frame r)))) @ rev (put32 (cp_datalen r)) @
      rev (put16 (of_nat hdrlen)) @ cp_extra r @ cp_frame r @
      replicate (nat (bpfWordAlign (int len)) - len) 0)"

lemma le32_rev_put32: "le32 (rev (put32 v) @ xs) = Some (unat v)"
  by (simp add: le32_def put32_def)

lemma le16_rev_put16: "le16 (rev (put16 v) @ xs) = Some (unat v)"
  by (simp add: le16_def put16_def)

lemma length_capture:
  assumes "capture_ok r"
  shows "length (capture_bytes r) = nat (bpfWordAlign (int (18 + length (cp_extra r) + length (cp_frame r))))"
proof -
  let ?n = "18 + length (cp_extra r) + length (cp_frame r)"
  have "?n \<le> nat (bpfWordAlign (int ?n))" using bpfWordAlign_bounds(1) [of "int ?n"] by linarith
  then show ?thesis using assms by (simp add: capture_bytes_def Let_def capture_ok_def)
qed

lemma capture_fields:
  assumes "capture_ok r"
  shows "le32 (drop (length pre + 8) (pre @ capture_bytes r @ post)) = Some (length (cp_frame r))"
    "le16 (drop (length pre + 16) (pre @ capture_bytes r @ post)) = Some (18 + length (cp_extra r))"
    "subslice (pre @ capture_bytes r @ post) (length pre + (18 + length (cp_extra r)))
      (length pre + (18 + length (cp_extra r)) + length (cp_frame r)) = cp_frame r"
proof -
  define pad :: "byte list" where "pad = replicate (nat (bpfWordAlign (int (18 + length (cp_extra r) + length (cp_frame r)))) -
    (18 + length (cp_extra r) + length (cp_frame r))) 0"
  have ts: "length (cp_tstamp r) = 8" and u: "unat (of_nat (length (cp_frame r)) :: u32) = length (cp_frame r)"
    "unat (of_nat (18 + length (cp_extra r)) :: u16) = 18 + length (cp_extra r)"
    using assms by (simp_all add: capture_ok_def unsigned_of_nat take_bit_nat_eq_self del: of_nat_add)
  have b: "capture_bytes r = cp_tstamp r @ rev (put32 (of_nat (length (cp_frame r)))) @ rev (put32 (cp_datalen r)) @
      rev (put16 (of_nat (18 + length (cp_extra r)))) @ cp_extra r @ cp_frame r @ pad"
    by (simp add: capture_bytes_def Let_def pad_def)
  show "le32 (drop (length pre + 8) (pre @ capture_bytes r @ post)) = Some (length (cp_frame r))"
    unfolding b using ts u(1) by (simp add: le32_rev_put32)
  show "le16 (drop (length pre + 16) (pre @ capture_bytes r @ post)) = Some (18 + length (cp_extra r))"
    unfolding b using ts by (simp add: le16_rev_put16 u(2) del: of_nat_add)
  show "subslice (pre @ capture_bytes r @ post) (length pre + (18 + length (cp_extra r)))
      (length pre + (18 + length (cp_extra r)) + length (cp_frame r)) = cp_frame r"
    unfolding b using ts by (simp add: subslice_def)
qed

text \<open>
  C33. Reading the capture buffer is the inverse of how it is laid out: the callback gets exactly the
  captured frames, in order, without headers and padding; an incomplete last header is ignored.
\<close>

theorem iterBPFBuffer_roundtrip:
  assumes "list_all capture_ok rs" and "length rest < 18"
  shows "iterBPFBuffer (concat (map capture_bytes rs) @ rest) = Some (map cp_frame rs)"
proof -
  have "iterBPFLoop (pre @ concat (map capture_bytes rs) @ rest) (length pre) = Some (map cp_frame rs)" for pre
    using assms(1)
  proof (induction rs arbitrary: pre)
    case Nil
    then show ?case using assms(2) by (simp add: iterBPFLoop.simps [of _ "length pre"] bpfHdrMinLen_def)
  next
    case (Cons r rs)
    let ?post = "concat (map capture_bytes rs) @ rest" and ?h = "18 + length (cp_extra r)" and ?n = "length (cp_frame r)"
    have ok: "capture_ok r" and oks: "list_all capture_ok rs" using Cons.prems by simp_all
    note f = capture_fields [OF ok, of pre ?post]
    have al: "?h + ?n \<le> nat (bpfWordAlign (int (?h + ?n)))"
      using bpfWordAlign_bounds(1) [of "int (?h + ?n)"] by linarith
    have "iterBPFLoop (pre @ capture_bytes r @ ?post) (length pre) =
        map_option ((#) (cp_frame r)) (iterBPFLoop (pre @ capture_bytes r @ ?post) (length pre + length (capture_bytes r)))"
      using iterBPFLoop_next [OF _ f(1,2)] f(3) length_capture [OF ok] al ok by (simp add: bpfHdrMinLen_def capture_ok_def)
    also have "iterBPFLoop (pre @ capture_bytes r @ ?post) (length pre + length (capture_bytes r)) = Some (map cp_frame rs)"
      using Cons.IH [OF oks, of "pre @ capture_bytes r"] by simp
    finally show ?case by simp
  qed
  from this [of "[]"] show ?thesis by (simp add: iterBPFBuffer_def)
qed

theorem iterBPFBuffer_roundtrip_witness:
  "iterBPFBuffer (capture_bytes \<lparr>cp_tstamp = replicate 8 1, cp_datalen = 3, cp_extra = [0, 0], cp_frame = [9, 8, 7]\<rparr> @
     capture_bytes \<lparr>cp_tstamp = replicate 8 2, cp_datalen = 1, cp_extra = [], cp_frame = [6]\<rparr>) = Some [[9, 8, 7], [6]]"
  using iterBPFBuffer_roundtrip [of "[\<lparr>cp_tstamp = replicate 8 1, cp_datalen = 3, cp_extra = [0, 0], cp_frame = [9, 8, 7]\<rparr>,
     \<lparr>cp_tstamp = replicate 8 2, cp_datalen = 1, cp_extra = [], cp_frame = [6]\<rparr>]" "[]"]
  by (simp add: capture_ok_def)

end
