(* ===== verification/Linux_Active.thy ===== *)
theory Linux_Active
  imports Flow_Table Injection_Run
begin

text \<open>
  Model of the packet path of \<^verbatim>\<open>injection/injector_linux.go\<close>: the nfqueue callback, the lookup of
  the flow, the handshake handlers, the injection goroutine and the raw socket. Every handler
  returns the connection and the effects in order; the verdicts are effects.
\<close>

section \<open>State\<close>

record LinuxInjector = flow_table +
  lx_rawFd :: int
  lx_connectIP :: string
  lx_connectPort :: u16
  lx_nicMTU :: int
  lx_nfqueueNum :: u16
  lx_fwMark :: nat
  lx_fwRulePref :: nat
  lx_fwRuleTable :: string

text \<open>The two fields of \<^verbatim>\<open>nfqueue.Attribute\<close> the callback reads.\<close>

record nf_attribute =
  PacketID :: "u32 option"
  Payload :: "byte list option"

section \<open>Handlers\<close>

definition lx_onUnexpectedPacket ::
  "u32 \<Rightarrow> byte list \<Rightarrow> FakeInjectiveConnection \<Rightarrow> string \<Rightarrow> unit handled" where
  "lx_onUnexpectedPacket pid raw conn info =
     (trySend ''unexpected_close'' (conn\<lparr>Monitor := False\<rparr>),
      [LogF (''injector: '' @ info @ '' '' @ PacketSummary raw)] @ closeSocks conn @ [SetVerdict pid])"

definition lx_onInboundPacket ::
  "u32 \<Rightarrow> byte list \<Rightarrow> FakeInjectiveConnection \<Rightarrow> unit handled" where
  "lx_onInboundPacket pid raw conn =
     (if SynSeq conn = -1 then
        lx_onUnexpectedPacket pid raw conn ''unexpected inbound packet, no syn sent!''
      else let flags = GetTCPFlags raw;
               payloadLen = TCPPayloadLen raw;
               seqNum = TCPSeqNum raw;
               ackNum = TCPAckNum raw
      in if ACK flags \<and> SYN flags \<and> \<not> RST flags \<and> \<not> FIN flags \<and> payloadLen = 0 then
           (if SynAckSeq conn \<noteq> -1 \<and> SynAckSeq conn \<noteq> int (unat seqNum) then
              lx_onUnexpectedPacket pid raw conn
                (info2 ''unexpected inbound syn-ack, seq change!'' seqNum (SynAckSeq conn))
            else let expectedAck = (of_int (SynSeq conn) + 1) AND 0xffffffff :: u32 in
            if ackNum \<noteq> expectedAck then
              lx_onUnexpectedPacket pid raw conn
                (info2 ''unexpected inbound syn-ack, ack not matched!'' ackNum (SynSeq conn))
            else (conn\<lparr>SynAckSeq := int (unat seqNum)\<rparr>, [SetVerdict pid]))
         else if ACK flags \<and> \<not> SYN flags \<and> \<not> RST flags \<and> FakeInjectInProgress conn \<and> \<not> FakeSent conn then
           (conn\<lparr>PostFakeAckObserved := True\<rparr>, [SetVerdict pid])
         else if ACK flags \<and> \<not> SYN flags \<and> \<not> RST flags \<and> FakeSent conn \<and> SynAckSeq conn \<noteq> -1 then
           (let strict = postFakeInboundStrictOK seqNum ackNum conn in
            if \<not> strict \<and> \<not> postFakeInboundPermissiveOK flags then
              lx_onUnexpectedPacket pid raw conn (after_fake_info seqNum ackNum conn strict)
            else (trySend ''fake_data_ack_recv'' (conn\<lparr>Monitor := False\<rparr>), [SetVerdict pid]))
         else lx_onUnexpectedPacket pid raw conn ''unexpected inbound packet'')"

definition lx_onOutboundPacket ::
  "u32 \<Rightarrow> byte list \<Rightarrow> FakeInjectiveConnection \<Rightarrow> unit handled" where
  "lx_onOutboundPacket pid raw conn =
     (if FakeSent conn then (conn, [SetVerdict pid])
      else if FakeInjectInProgress conn then (conn, [SetVerdict pid])
      else let flags = GetTCPFlags raw;
               payloadLen = TCPPayloadLen raw;
               seqNum = TCPSeqNum raw;
               ackNum = TCPAckNum raw
      in if SYN flags \<and> \<not> ACK flags \<and> \<not> RST flags \<and> \<not> FIN flags \<and> payloadLen = 0 then
           (if ackNum \<noteq> 0 then
              lx_onUnexpectedPacket pid raw conn ''unexpected outbound syn, ack_num is not zero!''
            else if SynSeq conn \<noteq> -1 \<and> SynSeq conn \<noteq> int (unat seqNum) then
              lx_onUnexpectedPacket pid raw conn
                (info2 ''unexpected outbound syn, seq not matched!'' seqNum (SynSeq conn))
            else (conn\<lparr>SynSeq := int (unat seqNum)\<rparr>, [SetVerdict pid]))
         else if ACK flags \<and> \<not> SYN flags \<and> \<not> RST flags \<and> \<not> FIN flags \<and> payloadLen = 0 then
           (let expectedSeq = (of_int (SynSeq conn) + 1) AND 0xffffffff :: u32 in
            if SynSeq conn = -1 \<or> expectedSeq \<noteq> seqNum then
              lx_onUnexpectedPacket pid raw conn
                (info2 ''unexpected outbound ack, seq not matched!'' seqNum (SynSeq conn))
            else let expectedAck = (of_int (SynAckSeq conn) + 1) AND 0xffffffff :: u32 in
            if SynAckSeq conn = -1 \<or> ackNum \<noteq> expectedAck then
              lx_onUnexpectedPacket pid raw conn
                (info2 ''unexpected outbound ack, ack not matched!'' ackNum (SynAckSeq conn))
            else (conn\<lparr>FakeInjectInProgress := True\<rparr>, [SetVerdict pid, GoInject raw]))
         else lx_onUnexpectedPacket pid raw conn ''unexpected outbound packet'')"

section \<open>Flows\<close>

definition lx_lookupConnQuad ::
  "LinuxInjector \<Rightarrow> string \<Rightarrow> u16 \<Rightarrow> string \<Rightarrow> u16 \<Rightarrow> (nat \<times> bool) option" where
  "lx_lookupConnQuad f srcIP srcPort dstIP dstPort =
     (case Connections f (quad srcIP srcPort dstIP dstPort) of
        Some v \<Rightarrow> Some (v, True)
      | None \<Rightarrow> (case Connections f (quad dstIP dstPort srcIP srcPort) of
          Some v \<Rightarrow> Some (v, False)
        | None \<Rightarrow>
            let byDst = (case byLocalPort f dstPort of
                  None \<Rightarrow> None
                | Some v \<Rightarrow> if ipv4Equal srcIP (DstIP (heap f v)) \<and> srcPort = DstPort (heap f v)
                            then Some (v, False) else None)
            in (case byLocalPort f srcPort of
                  None \<Rightarrow> byDst
                | Some v \<Rightarrow> if ipv4Equal dstIP (DstIP (heap f v)) \<and> dstPort = DstPort (heap f v)
                            then Some (v, True) else byDst)))"

definition lx_RegisterConn :: "nat \<Rightarrow> LinuxInjector \<Rightarrow> LinuxInjector" where
  "lx_RegisterConn r f =
     (let conn = heap f r;
          f = f\<lparr>Connections := (Connections f)(ID conn \<mapsto> r)\<rparr>
      in f\<lparr>byLocalPort := (byLocalPort f)(SrcPort conn \<mapsto> r)\<rparr>)"

definition lx_UnregisterConn :: "nat \<Rightarrow> LinuxInjector \<Rightarrow> LinuxInjector" where
  "lx_UnregisterConn r f =
     (let conn = heap f r;
          f = f\<lparr>Connections := (Connections f)(ID conn := None)\<rparr>
      in f\<lparr>byLocalPort := (byLocalPort f)(SrcPort conn := None)\<rparr>)"

text \<open>The nfqueue callback; \<open>verdictErr\<close> is the error \<^verbatim>\<open>SetVerdict\<close> reports for a packet id, which
  the code logs on two of its paths.\<close>

definition lx_logVerdict :: "string option \<Rightarrow> unit effect list" where
  "lx_logVerdict e = (case e of None \<Rightarrow> [] | Some s \<Rightarrow> [LogF (''nfqueue SetVerdict: '' @ s)])"

definition lx_processPacket ::
  "(u32 \<Rightarrow> string option) \<Rightarrow> nf_attribute \<Rightarrow> LinuxInjector \<Rightarrow> LinuxInjector \<times> unit effect list" where
  "lx_processPacket verdictErr a f =
     (case PacketID a of
        None \<Rightarrow> (f, [LogF ''nfqueue: missing packet id (cannot issue verdict)''])
      | Some pid \<Rightarrow>
          (case Payload a of
             None \<Rightarrow> (f, SetVerdict pid # lx_logVerdict (verdictErr pid))
           | Some payload \<Rightarrow>
               if length payload < 40 then (f, [SetVerdict pid])
               else if IPVersion payload \<noteq> 4 then (f, SetVerdict pid # lx_logVerdict (verdictErr pid))
               else let srcIP = IP_String (IPv4SrcAddr payload);
                        dstIP = IP_String (IPv4DstAddr payload);
                        srcPort = TCPSrcPort payload;
                        dstPort = TCPDstPort payload
               in case lx_lookupConnQuad f srcIP srcPort dstIP dstPort of
                    None \<Rightarrow> (f, [SetVerdict pid])
                  | Some (r, outb) \<Rightarrow>
                      let c = heap f r in
                      if \<not> Monitor c then (f, [SetVerdict pid])
                      else let (c, es) = (if outb then lx_onOutboundPacket pid payload c
                                          else lx_onInboundPacket pid payload c)
                           in (update_conn r c f, es)))"

section \<open>Injection\<close>

definition lx_sendRawPacket :: "byte list \<Rightarrow> inj_world \<Rightarrow> string option \<times> inj_world" where
  "lx_sendRawPacket rawIP w =
     (case IPv4DstAddr rawIP of
        None \<Rightarrow> (Some ''raw packet has no IPv4 destination'', w)
      | Some dstIP \<Rightarrow>
          (case IP_To4 dstIP of
             None \<Rightarrow> (Some ''raw packet destination is not IPv4'', w)
           | Some ip4 \<Rightarrow> w_syscall rawIP w))"

definition lx_runFakeInjectionLocked :: "LinuxInjector \<Rightarrow> byte list \<Rightarrow> inj_world \<Rightarrow> inj_world" where
  "lx_runFakeInjectionLocked f rawCopy w =
     (let w = interfere (w_sleep 1000000 w);
          conn = iw_conn w
      in if \<not> Monitor conn then endInjection w
         else if BypassMethod conn \<noteq> ''wrong_seq'' then
           let w = w_log (''not implemented bypass method: '' @ BypassMethod conn) w;
               (c, es) = AbortUnexpectedCloseLocked (iw_conn w)
           in endInjection (w\<lparr>iw_conn := c, iw_effects := iw_effects w @ es\<rparr>)
         else endInjection (repeatAndConclude (lx_nicMTU f) rawCopy lx_sendRawPacket w))"

section \<open>The handlers refine the handshake machine\<close>

interpretation linux_active: injector_backend lx_onInboundPacket lx_onOutboundPacket
  "\<lambda>pid raw. [SetVerdict pid]" "\<lambda>pid raw. [GoInject raw]"
proof
  fix pid raw c
  define h :: "outcome \<Rightarrow> unit handled"
    where "h out = (apply_outcome out c, outcome_effects [SetVerdict pid] [GoInject raw] raw c out)" for out
  have leaf: "lx_onUnexpectedPacket pid raw c info = h (Unexpected info)"
    "(c\<lparr>SynAckSeq := int (unat q)\<rparr>, [SetVerdict pid]) = h (LearnSynAck q)"
    "(c\<lparr>SynSeq := int (unat q)\<rparr>, [SetVerdict pid]) = h (LearnSyn q)"
    "(c\<lparr>PostFakeAckObserved := True\<rparr>, [SetVerdict pid]) = h NoteAck"
    "(trySend ''fake_data_ack_recv'' (c\<lparr>Monitor := False\<rparr>), [SetVerdict pid]) = h FakeAcked"
    "(c\<lparr>FakeInjectInProgress := True\<rparr>, [SetVerdict pid, GoInject raw]) = h StartInjection"
    "(c, [SetVerdict pid]) = h PassOn" for info q
    by (simp_all add: h_def lx_onUnexpectedPacket_def apply_outcome_def outcome_effects_def)
  show "lx_onInboundPacket pid raw c = (apply_outcome (inbound (seg_of raw) c) c,
      outcome_effects [SetVerdict pid] [GoInject raw] raw c (inbound (seg_of raw) c))"
    unfolding lx_onInboundPacket_def Let_def leaf h_def [symmetric] by (rule inbound_code)
  show "lx_onOutboundPacket pid raw c = (apply_outcome (outbound (seg_of raw) c) c,
      outcome_effects [SetVerdict pid] [GoInject raw] raw c (outbound (seg_of raw) c))"
    unfolding lx_onOutboundPacket_def Let_def leaf h_def [symmetric] by (rule outbound_code)
qed

interpretation linux_flows: flow_lookup lx_RegisterConn lx_UnregisterConn
  "\<lambda>f a b c d. (lx_lookupConnQuad f a b c d, f)"
  by unfold_locales
    (simp_all add: lx_RegisterConn_def lx_UnregisterConn_def lx_lookupConnQuad_def Let_def split: option.split)

interpretation linux_raw: live_sender lx_sendRawPacket "\<lambda>p. p" "\<lambda>p. 20 \<le> length p"
proof
  fix p w w' e
  show "iw_conn (snd (lx_sendRawPacket p w)) = iw_conn w" "iw_moves (snd (lx_sendRawPacket p w)) = iw_moves w"
    by (auto simp: lx_sendRawPacket_def w_syscall_def split: option.split list.split)
  show "map (\<lambda>p. p) (iw_wire w') = map (\<lambda>p. p) (iw_wire w) @ [p]" if "lx_sendRawPacket p w = (None, w')"
    using that by (auto simp: lx_sendRawPacket_def w_syscall_def split: option.splits list.splits)
  show "iw_wire w' = iw_wire w" if "lx_sendRawPacket p w = (Some e, w')"
    using that by (auto simp: lx_sendRawPacket_def w_syscall_def split: option.splits list.splits)
  show "\<exists>w'. lx_sendRawPacket p w = (None, w') \<and> list_all ((=) None) (iw_results w')"
    if "list_all ((=) None) (iw_results w)" "20 \<le> length p"
    using that by (auto simp: lx_sendRawPacket_def IPv4DstAddr_def IP_To4_def w_syscall_def split: list.split)
qed

end
