(* ===== verification/Linux_Setup.thy ===== *)
theory Linux_Setup
  imports Linux_Active Go_Strings "HOL-Library.Multiset"
begin

text \<open>
  The life cycle of the nfqueue injector, from \<^verbatim>\<open>injection/injector_linux.go\<close>: random queue number and
  mark, the constructor with its raw socket, its policy-routing rule and its two \<^verbatim>\<open>iptables\<close> rules,
  the clean-up of each, and \<^verbatim>\<open>Start\<close>, \<^verbatim>\<open>WaitInjectorReady\<close> and \<^verbatim>\<open>Close\<close>. The operating system is
  explicit state: the commands run so far with their success, the answers of the commands still to
  come, and what the process holds. The single answers of system calls come from \<open>lx_env\<close>.
\<close>

section \<open>The operating system\<close>

record setup_world =
  su_cmds :: "(string list \<times> bool) list"
  su_answers :: "(string \<times> string option) list"
  su_fds :: "int list"
  su_queue :: bool
  su_canceled :: bool
  su_closed :: bool
  su_ready :: bool
  su_openErr :: "string option"
  su_logs :: "string list"

text \<open>\<^verbatim>\<open>nfqueue.Config\<close>; the copy mode is always \<^verbatim>\<open>NfQnlCopyPacket\<close>.\<close>

record nfq_config =
  NfQueue :: u16
  MaxPacketLen :: nat
  MaxQueueLen :: nat

record lx_env =
  en_files :: "string \<Rightarrow> string option"
  en_interfaces :: "net_interface list option"
  en_rand2 :: "string + byte list"
  en_rand4 :: "nat \<Rightarrow> string + byte list"
  en_socket :: "string + int"
  en_hdrincl :: "string option"
  en_mark :: "nat \<Rightarrow> string option"
  en_mtudisc :: "string option"
  en_open :: "nfq_config \<Rightarrow> string option"
  en_readbuf :: "int \<Rightarrow> string option"

definition su_log :: "string \<Rightarrow> setup_world \<Rightarrow> setup_world" where
  "su_log m w = w\<lparr>su_logs := su_logs w @ [m]\<rparr>"

text \<open>\<^verbatim>\<open>exec.Command(...).CombinedOutput()\<close>: the output and the error; a command without a recorded
  answer succeeds with empty output.\<close>

definition combinedOutput :: "string list \<Rightarrow> setup_world \<Rightarrow> string \<times> string option \<times> setup_world" where
  "combinedOutput cmd w =
     (case su_answers w of
        [] \<Rightarrow> ([], None, w\<lparr>su_cmds := su_cmds w @ [(cmd, True)]\<rparr>)
      | (out, err) # as \<Rightarrow> (out, err, w\<lparr>su_cmds := su_cmds w @ [(cmd, err = None)], su_answers := as\<rparr>))"

definition runCmd :: "string \<Rightarrow> string list \<Rightarrow> setup_world \<Rightarrow> string option \<times> setup_world" where
  "runCmd name args w =
     (case combinedOutput (name # args) w of
        (out, None, w) \<Rightarrow> (None, w)
      | (out, Some err, w) \<Rightarrow>
          (Some (name @ '' ['' @ Join args '' '' @ '']: '' @ out @ '': '' @ err), w))"

section \<open>Random identifiers and kernel limits\<close>

definition randomNFQueueID :: "lx_env \<Rightarrow> string + u16" where
  "randomNFQueueID env = (case en_rand2 env of Inl e \<Rightarrow> Inl e | Inr b \<Rightarrow> Inr (be16 (b ! 0) (b ! 1)))"

definition markOf :: "byte list \<Rightarrow> u32" where
  "markOf b = be32 (b ! 0) (b ! 1) (b ! 2) (b ! 3) AND 0x7fffffff"

text \<open>The loop draws until the mark is not zero; \<^const>\<open>None\<close> is drawing for ever.\<close>

partial_function (option) randomFwMark :: "(nat \<Rightarrow> string + byte list) \<Rightarrow> nat \<Rightarrow> (string + nat) option" where
  "randomFwMark rd i =
     (case rd i of
        Inl e \<Rightarrow> Some (Inl e)
      | Inr b \<Rightarrow> if markOf b \<noteq> 0 then Some (Inr (unat (markOf b))) else randomFwMark rd (i + 1))"

definition sysctlUint32 :: "lx_env \<Rightarrow> string \<Rightarrow> nat option" where
  "sysctlUint32 env path =
     (case en_files env path of
        None \<Rightarrow> None
      | Some b \<Rightarrow>
          let s = TrimSpace b in
          if s = [] then None
          else (case ParseUint32 s of
                  None \<Rightarrow> None
                | Some v \<Rightarrow> if v = 0 then None else Some v))"

definition desiredNetlinkRcvBuf :: int where
  "desiredNetlinkRcvBuf = 8 * 1024 * 1024"

definition maxReasonableNFQueueLen :: nat where
  "maxReasonableNFQueueLen = 65536"

definition nfqueueMaxQueueLenFromSysctl :: "lx_env \<Rightarrow> nat" where
  "nfqueueMaxQueueLenFromSysctl env =
     (case sysctlUint32 env ''/proc/sys/net/netfilter/nf_queue_maxlen'' of
        None \<Rightarrow> 0
      | Some v \<Rightarrow> if v > maxReasonableNFQueueLen then maxReasonableNFQueueLen else v)"

definition maxIPv4DatagramLen :: nat where
  "maxIPv4DatagramLen = 0xFFFF"

definition netlinkRecvBufFromSysctl :: "lx_env \<Rightarrow> int" where
  "netlinkRecvBufFromSysctl env =
     (case sysctlUint32 env ''/proc/sys/net/core/rmem_max'' of
        None \<Rightarrow> desiredNetlinkRcvBuf
      | Some mx \<Rightarrow> if int mx < desiredNetlinkRcvBuf then int mx else desiredNetlinkRcvBuf)"

section \<open>Policy routing\<close>

definition fwMarkArg :: "LinuxInjector \<Rightarrow> string" where
  "fwMarkArg f = ''0x'' @ hexadecimal (lx_fwMark f)"

fun tableField :: "string list \<Rightarrow> string" where
  "tableField (a # b # rest) = (if a = ''table'' then b else tableField (b # rest))"
| "tableField _ = ''main''"

definition routeTableFromRouteGet :: "string \<Rightarrow> string" where
  "routeTableFromRouteGet out = tableField (Fields out)"

definition routeTableForDestination :: "string \<Rightarrow> setup_world \<Rightarrow> (string + string) \<times> setup_world" where
  "routeTableForDestination dst w =
     (case combinedOutput [''ip'', ''route'', ''get'', dst] w of
        (out, Some err, w) \<Rightarrow> (Inl (''ip route get '' @ dst @ '': '' @ out @ '': '' @ err), w)
      | (out, None, w) \<Rightarrow> (Inr (routeTableFromRouteGet out), w))"

definition lx_cleanupMarkedRoute :: "LinuxInjector \<Rightarrow> setup_world \<Rightarrow> LinuxInjector \<times> setup_world" where
  "lx_cleanupMarkedRoute f w =
     (if lx_fwRulePref f = 0 \<or> lx_fwRuleTable f = [] then (f, w)
      else let mark = fwMarkArg f;
               (_, w) = runCmd ''ip'' [''rule'', ''del'', ''pref'', decimal (lx_fwRulePref f),
                          ''fwmark'', mark, ''lookup'', lx_fwRuleTable f] w
           in (f\<lparr>lx_fwRulePref := 0, lx_fwRuleTable := []\<rparr>, w))"

function addRuleLoop ::
  "string \<Rightarrow> string \<Rightarrow> nat \<Rightarrow> nat \<Rightarrow> string option \<Rightarrow> LinuxInjector \<Rightarrow> setup_world \<Rightarrow>
   string option \<times> LinuxInjector \<times> setup_world" where
  "addRuleLoop mark table basePref i addErr f w =
     (if i < 500 then
        let pref = 12000 + ((basePref - 12000 + i) mod 500);
            prefStr = decimal pref
        in (case runCmd ''ip'' [''rule'', ''add'', ''pref'', prefStr, ''fwmark'', mark, ''lookup'', table] w of
              (None, w) \<Rightarrow> (None, f\<lparr>lx_fwRulePref := pref, lx_fwRuleTable := table\<rparr>, w)
            | (Some e, w) \<Rightarrow> addRuleLoop mark table basePref (i + 1) (Some e) f w)
      else (addErr, f, w))"
  by pat_completeness auto
termination
  by (relation "measure (\<lambda>(mark, table, basePref, i, addErr, f, w). 500 - i)") auto

declare addRuleLoop.simps [simp del]

definition lx_ensureMarkedRoute ::
  "LinuxInjector \<Rightarrow> setup_world \<Rightarrow> string option \<times> LinuxInjector \<times> setup_world" where
  "lx_ensureMarkedRoute f w =
     (let mark = fwMarkArg f in
      case runCmd ''ip'' [''route'', ''get'', lx_connectIP f, ''mark'', mark] w of
        (None, w) \<Rightarrow> (None, f, w)
      | (Some _, w) \<Rightarrow>
          (case routeTableForDestination (lx_connectIP f) w of
             (Inl err, w) \<Rightarrow> (Some err, f, w)
           | (Inr table, w) \<Rightarrow>
               if table = [] then (Some ''marked route is unreachable and active route has no table'', f, w)
               else let basePref = 12000 + unat (lx_nfqueueNum f mod 500);
                        (addErr, f, w) = addRuleLoop mark table basePref 0 None f w
               in if lx_fwRulePref f = 0 then (addErr, f, w)
                  else (case runCmd ''ip'' [''route'', ''get'', lx_connectIP f, ''mark'', mark] w of
                          (Some err, w) \<Rightarrow>
                            let (f, w) = lx_cleanupMarkedRoute f w
                            in (Some (''marked route still unreachable after adding rule: '' @ err), f, w)
                        | (None, w) \<Rightarrow>
                            (None, f, su_log (''route: fwmark '' @ mark @ '' lookup '' @ table @ '' pref '' @
                               decimal (lx_fwRulePref f)) w))))"

section \<open>iptables\<close>

definition outputRule :: "string \<Rightarrow> LinuxInjector \<Rightarrow> string list" where
  "outputRule op f =
     [op, ''OUTPUT'', ''-p'', ''tcp'', ''-d'', lx_connectIP f, ''--dport'', decimal (unat (lx_connectPort f)),
      ''-m'', ''mark'', ''!'', ''--mark'', fwMarkArg f,
      ''-j'', ''NFQUEUE'', ''--queue-num'', decimal (unat (lx_nfqueueNum f))]"

definition inputRule :: "string \<Rightarrow> LinuxInjector \<Rightarrow> string list" where
  "inputRule op f =
     [op, ''INPUT'', ''-p'', ''tcp'', ''-s'', lx_connectIP f, ''--sport'', decimal (unat (lx_connectPort f)),
      ''-j'', ''NFQUEUE'', ''--queue-num'', decimal (unat (lx_nfqueueNum f))]"

definition lx_setupIptables :: "LinuxInjector \<Rightarrow> setup_world \<Rightarrow> string option \<times> setup_world" where
  "lx_setupIptables f w =
     (case runCmd ''iptables'' (outputRule ''-I'' f) w of
        (Some err, w) \<Rightarrow> (Some (''iptables OUTPUT rule: '' @ err), w)
      | (None, w) \<Rightarrow>
          (case runCmd ''iptables'' (inputRule ''-I'' f) w of
             (Some err, w) \<Rightarrow>
               let (_, w) = runCmd ''iptables'' (outputRule ''-D'' f) w
               in (Some (''iptables INPUT rule: '' @ err), w)
           | (None, w) \<Rightarrow>
               (None, su_log (''iptables: ready queue='' @ decimal (unat (lx_nfqueueNum f)) @ '' mark='' @ fwMarkArg f) w)))"

definition lx_cleanupIptables :: "LinuxInjector \<Rightarrow> setup_world \<Rightarrow> setup_world" where
  "lx_cleanupIptables f w =
     (let (_, w) = runCmd ''iptables'' (outputRule ''-D'' f) w;
          (_, w) = runCmd ''iptables'' (inputRule ''-D'' f) w
      in w)"

section \<open>Constructor and life cycle\<close>

definition closeFd :: "int \<Rightarrow> setup_world \<Rightarrow> setup_world" where
  "closeFd fd w = w\<lparr>su_fds := remove1 fd (su_fds w)\<rparr>"

definition cancel :: "setup_world \<Rightarrow> setup_world" where
  "cancel w = w\<lparr>su_canceled := True\<rparr>"

text \<open>The part of the constructor after the raw socket is set up.\<close>

definition lx_finishNew ::
  "lx_env \<Rightarrow> int \<Rightarrow> LinuxInjector \<Rightarrow> setup_world \<Rightarrow> (string + LinuxInjector) \<times> setup_world" where
  "lx_finishNew env fd f w =
     (case lx_ensureMarkedRoute f w of
        (Some e, f, w) \<Rightarrow> (Inl (''marked route: '' @ e), cancel (closeFd fd w))
      | (None, f, w) \<Rightarrow>
          (case lx_setupIptables f w of
             (Some e, w) \<Rightarrow>
               let (f, w) = lx_cleanupMarkedRoute f w
               in (Inl (''failed to setup iptables: '' @ e), cancel (closeFd fd w))
           | (None, w) \<Rightarrow>
               let maxQLen = nfqueueMaxQueueLenFromSysctl env;
                   w = (if maxQLen > 0 then su_log (''nfqueue: max queue '' @ decimal maxQLen) w else w)
               in (case en_open env \<lparr>NfQueue = lx_nfqueueNum f, MaxPacketLen = maxIPv4DatagramLen, MaxQueueLen = maxQLen\<rparr> of
                     Some e \<Rightarrow>
                       let w = lx_cleanupIptables f w;
                           (f, w) = lx_cleanupMarkedRoute f w
                       in (Inl (''failed to open nfqueue: '' @ e), cancel (closeFd fd w))
                   | None \<Rightarrow>
                       let w = w\<lparr>su_queue := True\<rparr>;
                           rcv = netlinkRecvBufFromSysctl env;
                           w = (case en_readbuf env rcv of
                                  Some e \<Rightarrow> su_log (''nfqueue: recv buffer unchanged: '' @ e) w
                                | None \<Rightarrow> if rcv < desiredNetlinkRcvBuf
                                         then su_log (''nfqueue: recv buffer '' @ decimal_int rcv) w else w)
                       in (Inr f, w))))"

text \<open>The raw socket and its options, then the rest.\<close>

definition lx_openSocket ::
  "lx_env \<Rightarrow> LinuxInjector \<Rightarrow> setup_world \<Rightarrow> (string + LinuxInjector) \<times> setup_world" where
  "lx_openSocket env f w =
     (case en_socket env of
        Inl e \<Rightarrow> (Inl (''failed to create raw socket: '' @ e), cancel w)
      | Inr fd \<Rightarrow>
          let w = w\<lparr>su_fds := fd # su_fds w\<rparr> in
          (case en_hdrincl env of
             Some e \<Rightarrow> (Inl (''IP_HDRINCL: '' @ e), cancel (closeFd fd w))
           | None \<Rightarrow>
               (case en_mark env (lx_fwMark f) of
                  Some e \<Rightarrow> (Inl (''SO_MARK: '' @ e), cancel (closeFd fd w))
                | None \<Rightarrow>
                    (case en_mtudisc env of
                       Some e \<Rightarrow> (Inl (''IP_MTU_DISCOVER: '' @ e), cancel (closeFd fd w))
                     | None \<Rightarrow> lx_finishNew env fd (f\<lparr>lx_rawFd := fd\<rparr>) w))))"

definition newNFQueueFakeTcpInjector ::
  "lx_env \<Rightarrow> (nat \<Rightarrow> FakeInjectiveConnection) \<Rightarrow> string \<Rightarrow> string list \<Rightarrow> u16 \<Rightarrow> setup_world \<Rightarrow>
   ((string + LinuxInjector) \<times> setup_world) option" where
  "newNFQueueFakeTcpInjector env store interfaceIP connectIPv4s connectPort w =
     (if connectIPv4s = [] then Some (Inl ''no upstream IPv4 addresses'', w)
      else let connectIP = connectIPv4s ! 0 in
      (case randomNFQueueID env of
         Inl e \<Rightarrow> Some (Inl (''nfqueue queue id: '' @ e), cancel w)
       | Inr qid \<Rightarrow>
           (case randomFwMark (en_rand4 env) 0 of
              None \<Rightarrow> None
            | Some (Inl e) \<Rightarrow> Some (Inl (''fw mark: '' @ e), cancel w)
            | Some (Inr mark) \<Rightarrow>
                let mtu = nicMTUForLocalIPv4 (en_interfaces env) interfaceIP;
                    f = \<lparr>Connections = Map.empty, byLocalPort = Map.empty, heap = store, lx_rawFd = -1,
                         lx_connectIP = connectIP, lx_connectPort = connectPort, lx_nicMTU = mtu,
                         lx_nfqueueNum = qid, lx_fwMark = mark, lx_fwRulePref = 0, lx_fwRuleTable = []\<rparr>;
                    w = (if mtu = 0 then su_log (''injector: fallback MSS '' @ decimal fallbackTCPPayloadMax) w else w)
                in Some (lx_openSocket env f w))))"

text \<open>\<^verbatim>\<open>Start\<close> up to the point where it waits for the context; \<open>regErr\<close> is what registering the callback
  returns.\<close>

definition lx_Start :: "string option \<Rightarrow> setup_world \<Rightarrow> setup_world" where
  "lx_Start regErr w =
     (case regErr of
        Some e \<Rightarrow> (su_log (''nfqueue register error: '' @ e) w)\<lparr>su_openErr := Some e, su_ready := True\<rparr>
      | None \<Rightarrow> w\<lparr>su_ready := True\<rparr>)"

text \<open>\<^verbatim>\<open>WaitInjectorReady\<close> returns once the ready channel is closed; \<^const>\<open>None\<close> is waiting.\<close>

definition lx_WaitInjectorReady :: "setup_world \<Rightarrow> string option option" where
  "lx_WaitInjectorReady w = (if su_ready w then Some (su_openErr w) else None)"

definition lx_Close :: "LinuxInjector \<Rightarrow> setup_world \<Rightarrow> LinuxInjector \<times> setup_world" where
  "lx_Close f w =
     (if su_closed w then (f, w)
      else let w = cancel w;
               w = w\<lparr>su_queue := False, su_closed := True\<rparr>;
               (f, w) = (if lx_rawFd f \<ge> 0 then (f\<lparr>lx_rawFd := -1\<rparr>, closeFd (lx_rawFd f) w) else (f, w));
               w = lx_cleanupIptables f w
           in lx_cleanupMarkedRoute f w)"

section \<open>What has to be undone\<close>

text \<open>
  The command that undoes a command. A rule is named by the command that deletes it. \<open>installed\<close> are the rules
  a sequence of commands leaves in the system: a command that fails changes nothing. \<open>owed\<close> are the rules whose
  deletion has not been tried: a successful insertion adds one, running the deletion takes it out even if it
  fails. The code ignores the failures of deletions.
\<close>

fun undo_of :: "string list \<Rightarrow> string list option" where
  "undo_of (a # b # cs) =
     (if a = ''iptables'' \<and> b = ''-I'' then Some (a # ''-D'' # cs)
      else if a = ''ip'' \<and> b = ''rule'' \<and> cs \<noteq> [] \<and> hd cs = ''add'' then Some (a # b # ''del'' # tl cs)
      else None)"
| "undo_of _ = None"

definition owed_step :: "string list list \<Rightarrow> string list \<times> bool \<Rightarrow> string list list" where
  "owed_step ps ev =
     (let ps = remove1 (fst ev) ps in
      case undo_of (fst ev) of
        None \<Rightarrow> ps
      | Some u \<Rightarrow> if snd ev then ps @ [u] else ps)"

definition owed :: "setup_world \<Rightarrow> string list list" where
  "owed w = foldl owed_step [] (su_cmds w)"

definition installed_step :: "string list list \<Rightarrow> string list \<times> bool \<Rightarrow> string list list" where
  "installed_step ps ev = (if snd ev then owed_step ps ev else ps)"

definition installed :: "setup_world \<Rightarrow> string list list" where
  "installed w = foldl installed_step [] (su_cmds w)"

fun deletes :: "string list \<Rightarrow> bool" where
  "deletes (a # b # cs) = (a = ''iptables'' \<and> b = ''-D'' \<or> a = ''ip'' \<and> b = ''rule'' \<and> cs \<noteq> [] \<and> hd cs = ''del'')"
| "deletes _ = False"

definition failed_deletions :: "setup_world \<Rightarrow> string list list" where
  "failed_deletions w = [c. (c, ok) \<leftarrow> su_cmds w, deletes c, \<not> ok]"

lemma undo_deletes: "undo_of c = Some u \<Longrightarrow> deletes u"
  by (cases c rule: undo_of.cases) (auto split: if_splits)

text \<open>What is still installed was not deleted, or its deletion failed.\<close>

lemma installed_bounds:
  "mset (owed w) \<subseteq># mset (installed w)" "mset (installed w) \<subseteq># mset (owed w) + mset (failed_deletions w)"
proof -
  define fd where "fd evs = [c. (c, ok) \<leftarrow> evs, deletes c, \<not> ok]" for evs :: "(string list \<times> bool) list"
  have "list_all deletes (foldl owed_step [] evs) \<and> mset (foldl owed_step [] evs) \<subseteq># mset (foldl installed_step [] evs) \<and>
    mset (foldl installed_step [] evs) \<subseteq># mset (foldl owed_step [] evs) + mset (fd evs)" for evs
  proof (induction evs rule: rev_induct)
    case (snoc ev evs)
    obtain c ok where ev: "ev = (c, ok)" by fastforce
    let ?o = "foldl owed_step [] evs" and ?i = "foldl installed_step [] evs"
    have fd: "fd (evs @ [ev]) = fd evs @ (if deletes c \<and> \<not> ok then [c] else [])" by (simp add: fd_def ev)
    define us where "us = (case undo_of c of None \<Rightarrow> [] | Some u \<Rightarrow> [u])"
    have o: "foldl owed_step [] (evs @ [ev]) = remove1 c ?o @ (if ok then us else [])"
      by (simp add: ev owed_step_def us_def split: option.split)
    have i: "foldl installed_step [] (evs @ [ev]) = (if ok then remove1 c ?i @ us else ?i)"
      by (simp add: ev installed_step_def owed_step_def us_def split: option.split)
    have "list_all deletes us" using undo_deletes [of c] by (simp add: us_def split: option.split)
    then have d: "list_all deletes (remove1 c ?o @ (if ok then us else []))"
      using snoc.IH by (auto simp: list_all_iff dest: notin_set_remove1)
    have count: "count (mset ?o) x \<le> count (mset ?i) x" "count (mset ?i) x \<le> count (mset ?o) x + count (mset (fd evs)) x" for x
      using snoc.IH by (simp_all add: subseteq_mset_def)
    have lo: "mset (remove1 c ?o @ (if ok then us else [])) \<subseteq># mset (if ok then remove1 c ?i @ us else ?i)"
      unfolding subseteq_mset_def
    proof
      fix x show "count (mset (remove1 c ?o @ (if ok then us else []))) x \<le> count (mset (if ok then remove1 c ?i @ us else ?i)) x"
        using count(1) [of x] by simp linarith
    qed
    have c: "\<not> deletes c \<Longrightarrow> remove1 c ?o = ?o" using snoc.IH by (auto simp: list_all_iff intro: remove1_idem)
    have hi: "mset (if ok then remove1 c ?i @ us else ?i) \<subseteq># mset (remove1 c ?o @ (if ok then us else [])) + mset (fd (evs @ [ev]))"
      unfolding fd subseteq_mset_def
    proof
      fix x show "count (mset (if ok then remove1 c ?i @ us else ?i)) x \<le>
          count (mset (remove1 c ?o @ (if ok then us else [])) + mset (fd evs @ (if deletes c \<and> \<not> ok then [c] else []))) x"
        using count(2) [of x] c by (cases ok; cases "deletes c") auto
    qed
    show ?case unfolding o i using d lo hi by blast
  qed (simp add: fd_def)
  then show "mset (owed w) \<subseteq># mset (installed w)" "mset (installed w) \<subseteq># mset (owed w) + mset (failed_deletions w)"
    by (simp_all add: owed_def installed_def failed_deletions_def fd_def)
qed

definition ruleDel :: "LinuxInjector \<Rightarrow> string list" where
  "ruleDel f = [''ip'', ''rule'', ''del'', ''pref'', decimal (lx_fwRulePref f), ''fwmark'', fwMarkArg f,
     ''lookup'', lx_fwRuleTable f]"

definition routeOwed :: "LinuxInjector \<Rightarrow> string list list" where
  "routeOwed f = (if lx_fwRulePref f = 0 then [] else [ruleDel f])"

lemma owed_output:
  "combinedOutput cmd w = (out, err, w') \<Longrightarrow> owed w' = owed_step (owed w) (cmd, err = None)"
  by (auto simp: combinedOutput_def owed_def split: list.splits)

lemma owed_runCmd:
  "runCmd name args w = (err, w') \<Longrightarrow> owed w' = owed_step (owed w) (name # args, err = None)"
  using owed_output by (fastforce simp: runCmd_def split: prod.splits option.splits)

lemma owed_log [simp]: "owed (su_log m w) = owed w"
  by (simp add: owed_def su_log_def)

lemma owed_updates [simp]:
  "owed (closeFd fd w) = owed w" "owed (cancel w) = owed w" "owed (w\<lparr>su_queue := b\<rparr>) = owed w"
  "owed (w\<lparr>su_fds := fds\<rparr>) = owed w" "owed (w\<lparr>su_closed := b\<rparr>) = owed w"
  by (simp_all add: owed_def closeFd_def cancel_def)

text \<open>The commands that only query leave the debts alone.\<close>

lemma owed_query [simp]:
  "owed_step [] ([''ip'', ''route'', ''get'', d], ok) = []" "owed_step [] ([''ip'', ''route'', ''get'', d, ''mark'', m], ok) = []"
  "owed_step [ruleDel f] ([''ip'', ''route'', ''get'', d, ''mark'', m], ok) = [ruleDel f]"
  by (simp_all add: owed_step_def ruleDel_def)

lemma owed_add:
  "owed_step [] ([''ip'', ''rule'', ''add'', ''pref'', decimal p, ''fwmark'', fwMarkArg f, ''lookup'', t], ok) =
     (if ok then [ruleDel (f\<lparr>lx_fwRulePref := p, lx_fwRuleTable := t\<rparr>)] else [])"
  by (simp add: owed_step_def ruleDel_def fwMarkArg_def)

text \<open>What commands do not touch.\<close>

definition held :: "setup_world \<Rightarrow> int list \<times> bool \<times> bool \<times> bool" where
  "held w = (su_fds w, su_queue w, su_canceled w, su_closed w)"

lemma held_output: "combinedOutput cmd w = (out, err, w') \<Longrightarrow> held w' = held w"
  by (auto simp: combinedOutput_def held_def split: list.splits)

lemma held_runCmd: "runCmd name args w = (err, w') \<Longrightarrow> held w' = held w"
  using held_output by (fastforce simp: runCmd_def split: prod.splits option.splits)

lemma held_log [simp]: "held (su_log m w) = held w"
  by (simp add: held_def su_log_def)

lemma addRuleLoop_owed:
  assumes "addRuleLoop (fwMarkArg f) table basePref i addErr f w = (err, f', w')"
    and "owed w = []" and "lx_fwRulePref f = 0" and "i < 500 \<or> addErr \<noteq> None"
  shows "held w' = held w \<and>
    (if err = None then owed w' = [ruleDel f'] \<and> lx_fwRulePref f' \<noteq> 0 \<and>
       f' = f\<lparr>lx_fwRulePref := lx_fwRulePref f', lx_fwRuleTable := table\<rparr>
     else owed w' = [] \<and> f' = f)"
  using assms
proof (induction "500 - i" arbitrary: i addErr w)
  case 0
  then show ?case by (auto simp: addRuleLoop.simps [of _ _ _ i])
next
  case (Suc n)
  let ?pref = "12000 + ((basePref - 12000 + i) mod 500)"
  let ?args = "[''rule'', ''add'', ''pref'', decimal ?pref, ''fwmark'', fwMarkArg f, ''lookup'', table]"
  obtain e w1 where e: "runCmd ''ip'' ?args w = (e, w1)" by fastforce
  have h: "held w1 = held w" by (rule held_runCmd [OF e])
  have o: "owed w1 = (if e = None then [ruleDel (f\<lparr>lx_fwRulePref := ?pref, lx_fwRuleTable := table\<rparr>)] else [])"
    using owed_runCmd [OF e] Suc.prems(2) owed_add [of ?pref f table "e = None"] by simp
  have i: "i < 500" using Suc.hyps(2) by simp
  have step: "addRuleLoop (fwMarkArg f) table basePref i addErr f w =
      (case e of None \<Rightarrow> (None, f\<lparr>lx_fwRulePref := ?pref, lx_fwRuleTable := table\<rparr>, w1)
       | Some x \<Rightarrow> addRuleLoop (fwMarkArg f) table basePref (i + 1) (Some x) f w1)"
    unfolding addRuleLoop.simps [of _ _ _ i] Let_def e using i by (simp split: option.split)
  show ?case
  proof (cases e)
    case None
    then have "err = None" "f' = f\<lparr>lx_fwRulePref := ?pref, lx_fwRuleTable := table\<rparr>" "w' = w1"
      using Suc.prems(1) step by simp_all
    then show ?thesis using None h o by simp
  next
    case (Some x)
    then have "addRuleLoop (fwMarkArg f) table basePref (i + 1) (Some x) f w1 = (err, f', w')"
      using Suc.prems(1) step by simp
    from Suc.hyps(1) [OF _ this] Suc.hyps(2) Suc.prems(3) Some h o show ?thesis by simp
  qed
qed

lemma cleanupMarkedRoute_owed:
  assumes "lx_cleanupMarkedRoute f w = (f', w')" and "lx_fwRulePref f = 0 \<or> lx_fwRuleTable f \<noteq> []"
  shows "held w' = held w \<and> owed w' = foldl (\<lambda>ps c. remove1 c ps) (owed w) (routeOwed f)"
proof (cases "lx_fwRulePref f = 0")
  case True
  then show ?thesis using assms by (simp add: lx_cleanupMarkedRoute_def routeOwed_def)
next
  case False
  obtain e w1 where e: "runCmd ''ip'' [''rule'', ''del'', ''pref'', decimal (lx_fwRulePref f),
      ''fwmark'', fwMarkArg f, ''lookup'', lx_fwRuleTable f] w = (e, w1)" by fastforce
  then have "w' = w1" using assms False by (simp add: lx_cleanupMarkedRoute_def Let_def)
  then show ?thesis
    using held_runCmd [OF e] owed_runCmd [OF e] False by (simp add: routeOwed_def owed_step_def ruleDel_def)
qed

text \<open>Successful steps of the set-up delete nothing.\<close>

lemma failed_output: "combinedOutput cmd w = (out, err, w') \<Longrightarrow> \<not> deletes cmd \<Longrightarrow> failed_deletions w' = failed_deletions w"
  by (auto simp: combinedOutput_def failed_deletions_def split: list.splits)

lemma failed_runCmd: "runCmd name args w = (err, w') \<Longrightarrow> \<not> deletes (name # args) \<Longrightarrow> failed_deletions w' = failed_deletions w"
  using failed_output by (fastforce simp: runCmd_def split: prod.splits option.splits)

lemma failed_log [simp]: "failed_deletions (su_log m w) = failed_deletions w"
  by (simp add: failed_deletions_def su_log_def)

lemma failed_updates [simp]:
  "failed_deletions (closeFd fd w) = failed_deletions w" "failed_deletions (cancel w) = failed_deletions w"
  "failed_deletions (w\<lparr>su_queue := b\<rparr>) = failed_deletions w" "failed_deletions (w\<lparr>su_fds := fds\<rparr>) = failed_deletions w"
  by (simp_all add: failed_deletions_def closeFd_def cancel_def)

lemma addRuleLoop_failed:
  "addRuleLoop mark table basePref i addErr f w = (err, f', w') \<Longrightarrow> failed_deletions w' = failed_deletions w"
proof (induction mark table basePref i addErr f w rule: addRuleLoop.induct)
  case (1 mark table basePref i addErr f w)
  show ?case
  proof (cases "i < 500")
    case True
    let ?pref = "12000 + ((basePref - 12000 + i) mod 500)"
    obtain e w1 where e: "runCmd ''ip'' [''rule'', ''add'', ''pref'', decimal ?pref, ''fwmark'', mark, ''lookup'', table] w = (e, w1)"
      by fastforce
    then have "failed_deletions w1 = failed_deletions w" by (rule failed_runCmd) simp
    then show ?thesis
      using 1 True e by (cases e) (simp_all add: addRuleLoop.simps [of _ _ _ i])
  next
    case False
    then show ?thesis using 1(2) by (simp add: addRuleLoop.simps [of _ _ _ i])
  qed
qed

lemma ensureMarkedRoute_failed:
  assumes "lx_ensureMarkedRoute f w = (None, f', w')"
  shows "failed_deletions w' = failed_deletions w"
proof -
  obtain e1 w1 where e1: "runCmd ''ip'' [''route'', ''get'', lx_connectIP f, ''mark'', fwMarkArg f] w = (e1, w1)" by fastforce
  obtain r w2 where r: "routeTableForDestination (lx_connectIP f) w1 = (r, w2)" by fastforce
  obtain out e where oe: "combinedOutput [''ip'', ''route'', ''get'', lx_connectIP f] w1 = (out, e, w2)"
    using r by (auto simp: routeTableForDestination_def split: prod.splits option.splits)
  have 12: "failed_deletions w1 = failed_deletions w" "failed_deletions w2 = failed_deletions w"
    using failed_runCmd [OF e1] failed_output [OF oe] by simp_all
  show ?thesis
  proof (cases e1)
    case None
    then show ?thesis using assms e1 12 by (simp add: lx_ensureMarkedRoute_def)
  next
    case (Some x)
    then obtain table where t: "r = Inr table" "table \<noteq> []"
      using assms [unfolded lx_ensureMarkedRoute_def Let_def e1] r by (cases r) (auto split: if_splits)
    obtain ae f1 w3 where l: "addRuleLoop (fwMarkArg f) table (12000 + unat (lx_nfqueueNum f mod 500)) 0 None f w2 = (ae, f1, w3)"
      by (metis prod_cases3)
    obtain e4 w4 where e4: "runCmd ''ip'' [''route'', ''get'', lx_connectIP f1, ''mark'', fwMarkArg f] w3 = (e4, w4)" by fastforce
    have 34: "failed_deletions w3 = failed_deletions w" "failed_deletions w4 = failed_deletions w"
      using addRuleLoop_failed [OF l] failed_runCmd [OF e4] 12 by simp_all
    show ?thesis
      using assms [unfolded lx_ensureMarkedRoute_def Let_def e1] Some r t l e4 34
      by (auto split: if_splits option.splits prod.splits)
  qed
qed

lemma setupIptables_failed:
  assumes "lx_setupIptables f w = (None, w')"
  shows "failed_deletions w' = failed_deletions w"
proof -
  obtain e1 w1 where e1: "runCmd ''iptables'' (outputRule ''-I'' f) w = (e1, w1)" by fastforce
  obtain e2 w2 where e2: "runCmd ''iptables'' (inputRule ''-I'' f) w1 = (e2, w2)" by fastforce
  have "failed_deletions w1 = failed_deletions w" "failed_deletions w2 = failed_deletions w"
    using failed_runCmd [OF e1] failed_runCmd [OF e2] by (simp_all add: outputRule_def inputRule_def)
  then show ?thesis using assms e1 e2 by (auto simp: lx_setupIptables_def split: option.splits prod.splits)
qed

lemma construction_failed:
  assumes "newNFQueueFakeTcpInjector env store interfaceIP connectIPv4s connectPort w = Some (Inr f, w')"
  shows "failed_deletions w' = failed_deletions w"
proof -
  have finish: "failed_deletions w' = failed_deletions v" if fin: "lx_finishNew env fd g v = (Inr f, w')" for fd g v
  proof -
    obtain g1 w1 where 1: "lx_ensureMarkedRoute g v = (None, g1, w1)"
      using fin by (auto simp: lx_finishNew_def split: prod.splits option.splits)
    then obtain w2 where 2: "lx_setupIptables g1 w1 = (None, w2)"
      using fin by (auto simp: lx_finishNew_def split: prod.splits option.splits)
    have "failed_deletions w' = failed_deletions w2"
      using fin 1 2 by (auto simp: lx_finishNew_def Let_def split: prod.splits option.splits if_splits)
    then show ?thesis using ensureMarkedRoute_failed [OF 1] setupIptables_failed [OF 2] by simp
  qed
  have "\<exists>g v. lx_openSocket env g v = (Inr f, w') \<and> failed_deletions v = failed_deletions w"
    using assms by (auto simp: newNFQueueFakeTcpInjector_def Let_def split: sum.splits option.splits if_splits) (metis failed_log)+
  then obtain g v where v: "lx_openSocket env g v = (Inr f, w')" "failed_deletions v = failed_deletions w" by blast
  then show ?thesis
    by (auto simp: lx_openSocket_def Let_def dest!: finish split: sum.splits option.splits)
qed

text \<open>What the commands are built from.\<close>

definition same_setup :: "LinuxInjector \<Rightarrow> LinuxInjector \<Rightarrow> bool" where
  "same_setup f f' \<longleftrightarrow> lx_rawFd f' = lx_rawFd f \<and> lx_connectIP f' = lx_connectIP f \<and> lx_connectPort f' = lx_connectPort f \<and>
     lx_nfqueueNum f' = lx_nfqueueNum f \<and> lx_fwMark f' = lx_fwMark f"

lemma same_setup_refl [simp]: "same_setup f f"
  by (simp add: same_setup_def)

lemma ensureMarkedRoute_owed:
  assumes "lx_ensureMarkedRoute f w = (err, f', w')" and "owed w = []" and "lx_fwRulePref f = 0"
  shows "held w' = held w \<and> (lx_fwRulePref f' = 0 \<or> lx_fwRuleTable f' \<noteq> []) \<and>
    same_setup f f' \<and>
    owed w' = (if err = None then routeOwed f' else [])"
proof -
  obtain e1 w1 where e1: "runCmd ''ip'' [''route'', ''get'', lx_connectIP f, ''mark'', fwMarkArg f] w = (e1, w1)" by fastforce
  have 1: "held w1 = held w" "owed w1 = []" using held_runCmd [OF e1] owed_runCmd [OF e1] assms(2) by simp_all
  obtain r w2 where r: "routeTableForDestination (lx_connectIP f) w1 = (r, w2)" by fastforce
  obtain out e where oe: "combinedOutput [''ip'', ''route'', ''get'', lx_connectIP f] w1 = (out, e, w2)"
    using r by (auto simp: routeTableForDestination_def split: prod.splits option.splits)
  have 2: "held w2 = held w" "owed w2 = []" using held_output [OF oe] owed_output [OF oe] 1 by simp_all
  let ?b = "12000 + unat (lx_nfqueueNum f mod 500)"
  show ?thesis
  proof (cases "e1 = None \<or> (\<exists>x. r = Inl x) \<or> r = Inr []")
    case True
    then have "w' = w1 \<and> f' = f \<and> err = None \<or> w' = w2 \<and> f' = f \<and> err \<noteq> None"
      using assms(1) [unfolded lx_ensureMarkedRoute_def Let_def e1] r by (auto split: option.splits)
    then show ?thesis using 1 2 assms(3) by (auto simp: routeOwed_def)
  next
    case False
    then obtain x table where x: "e1 = Some x" "r = Inr table" "table \<noteq> []" by (cases e1; cases r) auto
    obtain ae f1 w3 where l: "addRuleLoop (fwMarkArg f) table ?b 0 None f w2 = (ae, f1, w3)" by (metis prod_cases3)
    have 3: "held w3 = held w"
      "ae = None \<Longrightarrow> owed w3 = [ruleDel f1] \<and> lx_fwRulePref f1 \<noteq> 0 \<and>
         f1 = f\<lparr>lx_fwRulePref := lx_fwRulePref f1, lx_fwRuleTable := table\<rparr>"
      "ae \<noteq> None \<Longrightarrow> owed w3 = [] \<and> f1 = f"
      using addRuleLoop_owed [OF l 2(2) assms(3)] 2(1) by (auto split: if_splits)
    show ?thesis
    proof (cases "lx_fwRulePref f1 = 0")
      case True
      then have "ae \<noteq> None" using 3(2) by auto
      moreover have "(err, f', w') = (ae, f1, w3)"
        using assms(1) [unfolded lx_ensureMarkedRoute_def Let_def e1] x r l True by simp
      ultimately show ?thesis using 3 assms(3) by auto
    next
      case False
      then have ae: "ae = None" using 3(3) assms(3) by (cases ae) auto
      from 3(2) [OF ae] have f1: "owed w3 = [ruleDel f1]" "f1 = f\<lparr>lx_fwRulePref := lx_fwRulePref f1, lx_fwRuleTable := table\<rparr>"
        by auto
      have t: "lx_fwRuleTable f1 \<noteq> []" using arg_cong [OF f1(2), of lx_fwRuleTable] x(3) by simp
      obtain e4 w4 where e4: "runCmd ''ip'' [''route'', ''get'', lx_connectIP f1, ''mark'', fwMarkArg f] w3 = (e4, w4)" by fastforce
      have 4: "held w4 = held w" "owed w4 = [ruleDel f1]"
        using held_runCmd [OF e4] owed_runCmd [OF e4] 3(1) f1(1) by simp_all
      obtain f5 w5 where c: "lx_cleanupMarkedRoute f1 w4 = (f5, w5)" by fastforce
      have 5: "held w5 = held w" "owed w5 = []" "f5 = f1\<lparr>lx_fwRulePref := 0, lx_fwRuleTable := []\<rparr>"
        using cleanupMarkedRoute_owed [OF c] 4 t False c
        by (auto simp: routeOwed_def lx_cleanupMarkedRoute_def Let_def split: prod.splits)
      have "err = None \<and> f' = f1 \<and> held w' = held w4 \<and> owed w' = owed w4 \<or> err \<noteq> None \<and> f' = f5 \<and> w' = w5"
        using assms(1) [unfolded lx_ensureMarkedRoute_def Let_def e1] x r l False e4 c by (auto split: option.splits)
      moreover have "same_setup f f1" by (subst f1(2)) (simp add: same_setup_def)
      moreover have "same_setup f f5" using \<open>same_setup f f1\<close> by (simp add: 5(3) same_setup_def)
      ultimately show ?thesis using 4 5 t False by (auto simp: routeOwed_def)
    qed
  qed
qed

lemma same_setup_rules:
  "same_setup f f' \<Longrightarrow> outputRule op f' = outputRule op f" "same_setup f f' \<Longrightarrow> inputRule op f' = inputRule op f"
  by (simp_all add: same_setup_def outputRule_def inputRule_def fwMarkArg_def)

definition iptablesOwed :: "LinuxInjector \<Rightarrow> string list list" where
  "iptablesOwed f = [''iptables'' # outputRule ''-D'' f, ''iptables'' # inputRule ''-D'' f]"

lemma owed_iptables:
  "owed_step ps (''iptables'' # outputRule ''-I'' f, ok) =
     remove1 (''iptables'' # outputRule ''-I'' f) ps @ (if ok then [''iptables'' # outputRule ''-D'' f] else [])"
  "owed_step ps (''iptables'' # inputRule ''-I'' f, ok) =
     remove1 (''iptables'' # inputRule ''-I'' f) ps @ (if ok then [''iptables'' # inputRule ''-D'' f] else [])"
  "owed_step ps (''iptables'' # outputRule ''-D'' f, ok) = remove1 (''iptables'' # outputRule ''-D'' f) ps"
  "owed_step ps (''iptables'' # inputRule ''-D'' f, ok) = remove1 (''iptables'' # inputRule ''-D'' f) ps"
  by (simp_all add: owed_step_def outputRule_def inputRule_def)

lemma routeOwed_not_iptables [simp]: "remove1 (''iptables'' # cs) (routeOwed f) = routeOwed f"
  by (simp add: routeOwed_def ruleDel_def)

lemma rules_differ [simp]:
  "outputRule op f \<noteq> inputRule op' f'" "inputRule op f \<noteq> outputRule op' f'"
  "outputRule ''-I'' f \<noteq> outputRule ''-D'' f'" "inputRule ''-I'' f \<noteq> inputRule ''-D'' f'"
  "outputRule ''-D'' f \<noteq> outputRule ''-I'' f'" "inputRule ''-D'' f \<noteq> inputRule ''-I'' f'"
  by (simp_all add: outputRule_def inputRule_def)

lemma remove1_routeOwed:
  "remove1 (''iptables'' # cs) (routeOwed f @ ds) = routeOwed f @ remove1 (''iptables'' # cs) ds"
  by (simp add: remove1_append routeOwed_def ruleDel_def)

lemma setupIptables_owed:
  assumes "lx_setupIptables f w = (err, w')" and "owed w = routeOwed g"
  shows "held w' = held w \<and> owed w' = routeOwed g @ (if err = None then iptablesOwed f else [])"
proof -
  obtain e1 w1 where e1: "runCmd ''iptables'' (outputRule ''-I'' f) w = (e1, w1)" by fastforce
  obtain e2 w2 where e2: "runCmd ''iptables'' (inputRule ''-I'' f) w1 = (e2, w2)" by fastforce
  obtain e3 w3 where e3: "runCmd ''iptables'' (outputRule ''-D'' f) w2 = (e3, w3)" by fastforce
  have o: "owed w1 = routeOwed g @ (if e1 = None then [''iptables'' # outputRule ''-D'' f] else [])"
    "owed w2 = remove1 (''iptables'' # inputRule ''-I'' f) (owed w1) @ (if e2 = None then [''iptables'' # inputRule ''-D'' f] else [])"
    "owed w3 = remove1 (''iptables'' # outputRule ''-D'' f) (owed w2)"
    using owed_runCmd [OF e1] owed_runCmd [OF e2] owed_runCmd [OF e3] assms(2) by (simp_all add: owed_iptables)
  have h: "held w1 = held w" "held w2 = held w" "held w3 = held w"
    using held_runCmd [OF e1] held_runCmd [OF e2] held_runCmd [OF e3] by simp_all
  show ?thesis
    using assms(1) e1 e2 e3 h o
    by (cases e1; cases e2) (auto simp: lx_setupIptables_def iptablesOwed_def remove1_routeOwed)
qed

lemma cleanupIptables_owed:
  assumes "owed w = routeOwed g @ iptablesOwed f"
  shows "held (lx_cleanupIptables f w) = held w \<and> owed (lx_cleanupIptables f w) = routeOwed g"
proof -
  obtain e1 w1 where e1: "runCmd ''iptables'' (outputRule ''-D'' f) w = (e1, w1)" by fastforce
  obtain e2 w2 where e2: "runCmd ''iptables'' (inputRule ''-D'' f) w1 = (e2, w2)" by fastforce
  show ?thesis
    using assms e1 e2 owed_runCmd [OF e1] owed_runCmd [OF e2] held_runCmd [OF e1] held_runCmd [OF e2]
    by (simp add: lx_cleanupIptables_def owed_iptables iptablesOwed_def remove1_routeOwed)
qed

lemma held_eq:
  "held w' = held w \<longleftrightarrow> su_fds w' = su_fds w \<and> su_queue w' = su_queue w \<and> su_canceled w' = su_canceled w \<and> su_closed w' = su_closed w"
  by (simp add: held_def)

lemma log_fields [simp]:
  "su_fds (su_log m w) = su_fds w" "su_queue (su_log m w) = su_queue w" "su_canceled (su_log m w) = su_canceled w"
  "su_closed (su_log m w) = su_closed w" "su_cmds (su_log m w) = su_cmds w"
  by (simp_all add: su_log_def)

lemma close_fields [simp]:
  "su_fds (cancel w) = su_fds w" "su_queue (cancel w) = su_queue w" "su_closed (cancel w) = su_closed w" "su_canceled (cancel w)"
  "su_fds (closeFd fd w) = remove1 fd (su_fds w)" "su_queue (closeFd fd w) = su_queue w" "su_closed (closeFd fd w) = su_closed w"
  by (simp_all add: cancel_def closeFd_def)

text \<open>The states a construction ends in.\<close>

definition failed_clean :: "int list \<Rightarrow> bool \<Rightarrow> setup_world \<Rightarrow> bool" where
  "failed_clean fds q w \<longleftrightarrow> owed w = [] \<and> su_fds w = fds \<and> su_queue w = q"

definition running :: "LinuxInjector \<Rightarrow> setup_world \<Rightarrow> bool" where
  "running f w \<longleftrightarrow> owed w = routeOwed f @ iptablesOwed f \<and> su_queue w \<and> (lx_fwRulePref f = 0 \<or> lx_fwRuleTable f \<noteq> [])"

lemma cleanup_fails_clean:
  assumes "lx_cleanupMarkedRoute f w = (f', w')" and "owed w = routeOwed f" and "lx_fwRulePref f = 0 \<or> lx_fwRuleTable f \<noteq> []"
  shows "failed_clean (remove1 fd (su_fds w)) (su_queue w) (cancel (closeFd fd w'))"
proof -
  have "foldl (\<lambda>ps c. remove1 c ps) (routeOwed f) (routeOwed f) = []" by (simp add: routeOwed_def)
  then show ?thesis using cleanupMarkedRoute_owed [OF assms(1,3)] assms(2) by (simp add: failed_clean_def held_eq)
qed

lemma finishNew_owed:
  assumes "lx_finishNew env fd f w = (r, w')" and "owed w = []" and "lx_fwRulePref f = 0"
  shows "case r of
      Inl e \<Rightarrow> failed_clean (remove1 fd (su_fds w)) (su_queue w) w'
    | Inr f' \<Rightarrow> running f' w' \<and> su_fds w' = su_fds w \<and> su_closed w' = su_closed w \<and> same_setup f f'"
proof -
  obtain e1 f1 w1 where 1: "lx_ensureMarkedRoute f w = (e1, f1, w1)" by (metis prod_cases3)
  note r1 = ensureMarkedRoute_owed [OF 1 assms(2,3)]
  obtain e2 w2 where 2: "lx_setupIptables f1 w1 = (e2, w2)" by fastforce
  show ?thesis
  proof (cases e1)
    case (Some x)
    then have "r = Inl (''marked route: '' @ x)" "w' = cancel (closeFd fd w1)" using assms(1) 1 by (simp_all add: lx_finishNew_def)
    then show ?thesis using r1 Some by (auto simp: failed_clean_def held_eq)
  next
    case None
    have r2: "held w2 = held w1" "owed w2 = routeOwed f1 @ (if e2 = None then iptablesOwed f1 else [])"
      using setupIptables_owed [OF 2, of f1] r1 None by simp_all
    obtain f3 w3 where 3: "lx_cleanupMarkedRoute f1 w2 = (f3, w3)" by fastforce
    show ?thesis
    proof (cases e2)
      case (Some y)
      then have "r = Inl (''failed to setup iptables: '' @ y)" "w' = cancel (closeFd fd w3)"
        using assms(1) 1 2 3 None by (simp_all add: lx_finishNew_def)
      then show ?thesis using cleanup_fails_clean [OF 3, of fd] r1 r2 Some by (simp add: held_eq)
    next
      case None
      define w4 where "w4 = (if nfqueueMaxQueueLenFromSysctl env > 0
        then su_log (''nfqueue: max queue '' @ decimal (nfqueueMaxQueueLenFromSysctl env)) w2 else w2)"
      have r4: "held w4 = held w" "owed w4 = routeOwed f1 @ iptablesOwed f1" using r1 r2 None by (simp_all add: w4_def)
      obtain f5 w5 where 5: "lx_cleanupMarkedRoute f1 (lx_cleanupIptables f1 w4) = (f5, w5)" by fastforce
      show ?thesis
      proof (cases "en_open env \<lparr>NfQueue = lx_nfqueueNum f1, MaxPacketLen = maxIPv4DatagramLen,
          MaxQueueLen = nfqueueMaxQueueLenFromSysctl env\<rparr>")
        case (Some z)
        then have "r = Inl (''failed to open nfqueue: '' @ z)" "w' = cancel (closeFd fd w5)"
          using assms(1) 1 2 5 \<open>e1 = None\<close> None by (simp_all add: lx_finishNew_def Let_def w4_def)
        then show ?thesis
          using cleanup_fails_clean [OF 5, of fd] cleanupIptables_owed [OF r4(2)] r1 r4 by (simp add: held_eq)
      next
        case opened: None
        have "r = Inr f1" "owed w' = owed w4" "su_fds w' = su_fds w4" "su_queue w'" "su_closed w' = su_closed w4"
          using assms(1) 1 2 \<open>e1 = None\<close> None opened
          by (auto simp: lx_finishNew_def Let_def w4_def split: option.splits if_splits)
        then show ?thesis using r1 r4 by (simp add: running_def held_eq)
      qed
    qed
  qed
qed

lemma openSocket_owed:
  assumes "lx_openSocket env f w = (r, w')" and "owed w = []" and "lx_fwRulePref f = 0"
  shows "case r of
      Inl e \<Rightarrow> failed_clean (su_fds w) (su_queue w) w'
    | Inr f \<Rightarrow> running f w' \<and> su_fds w' = lx_rawFd f # su_fds w \<and> su_closed w' = su_closed w \<and>
        en_socket env = Inr (lx_rawFd f)"
proof (cases "en_socket env")
  case (Inl e)
  then show ?thesis using assms by (auto simp: lx_openSocket_def failed_clean_def)
next
  case (Inr fd)
  let ?w = "w\<lparr>su_fds := fd # su_fds w\<rparr>"
  show ?thesis
  proof (cases "en_hdrincl env = None \<and> en_mark env (lx_fwMark f) = None \<and> en_mtudisc env = None")
    case False
    then have "(\<exists>e. r = Inl e) \<and> w' = cancel (closeFd fd ?w)"
      using assms(1) Inr by (auto simp: lx_openSocket_def Let_def split: option.splits)
    then show ?thesis using assms(2) by (auto simp: failed_clean_def)
  next
    case True
    then have "lx_finishNew env fd (f\<lparr>lx_rawFd := fd\<rparr>) ?w = (r, w')"
      using assms(1) Inr by (simp add: lx_openSocket_def)
    from finishNew_owed [OF this] assms(2,3) Inr show ?thesis
      by (cases r) (simp_all add: same_setup_def)
  qed
qed

lemma construction_result:
  assumes "newNFQueueFakeTcpInjector env store interfaceIP connectIPv4s connectPort w = Some (r, w')" and "su_cmds w = []"
  shows "case r of
      Inl e \<Rightarrow> failed_clean (su_fds w) (su_queue w) w'
    | Inr f \<Rightarrow> running f w' \<and> su_fds w' = lx_rawFd f # su_fds w \<and> su_closed w' = su_closed w \<and>
        en_socket env = Inr (lx_rawFd f)"
proof (cases "connectIPv4s = [] \<or> (\<forall>q. randomNFQueueID env \<noteq> Inr q) \<or> (\<forall>m. randomFwMark (en_rand4 env) 0 \<noteq> Some (Inr m))")
  case True
  then have "(\<exists>e. r = Inl e) \<and> (w' = w \<or> w' = cancel w)"
    using assms(1) by (auto simp: newNFQueueFakeTcpInjector_def Let_def split: sum.splits option.splits if_splits)
  then show ?thesis using assms(2) by (auto simp: failed_clean_def owed_def cancel_def)
next
  case False
  then obtain q m where qm: "randomNFQueueID env = Inr q" "randomFwMark (en_rand4 env) 0 = Some (Inr m)" by auto
  define mtu where "mtu = nicMTUForLocalIPv4 (en_interfaces env) interfaceIP"
  define f where "f = \<lparr>Connections = Map.empty, byLocalPort = Map.empty, heap = store, lx_rawFd = -1,
    lx_connectIP = connectIPv4s ! 0, lx_connectPort = connectPort, lx_nicMTU = mtu,
    lx_nfqueueNum = q, lx_fwMark = m, lx_fwRulePref = 0, lx_fwRuleTable = []\<rparr>"
  define w0 where "w0 = (if mtu = 0 then su_log (''injector: fallback MSS '' @ decimal fallbackTCPPayloadMax) w else w)"
  have o: "lx_openSocket env f w0 = (r, w')"
    using assms(1) False qm by (simp add: newNFQueueFakeTcpInjector_def Let_def f_def w0_def mtu_def)
  have "owed w0 = []" using assms(2) by (simp add: w0_def owed_def)
  moreover have "su_fds w0 = su_fds w" "su_queue w0 = su_queue w" "su_closed w0 = su_closed w"
    by (simp_all add: w0_def)
  ultimately show ?thesis using openSocket_owed [OF o] by (cases r) (simp_all add: f_def)
qed

text \<open>
  C26. Setting up the nfqueue injector is all or nothing, as far as the system executes the clean-up: when
  the constructor reports an error, the raw socket is closed, no queue is open, and an \<^verbatim>\<open>iptables\<close> or
  policy-routing rule it inserted is still there only if the command deleting it was run and failed (the code
  ignores that); when it succeeds, the socket and the queue are open and exactly the two \<^verbatim>\<open>iptables\<close> rules and
  the routing rule the injector records, if it needed one, are installed.
\<close>

theorem construction_all_or_nothing:
  assumes "newNFQueueFakeTcpInjector env store interfaceIP connectIPv4s connectPort w = Some (r, w')" and "su_cmds w = []"
  shows "case r of
      Inl e \<Rightarrow> mset (installed w') \<subseteq># mset (failed_deletions w') \<and> su_fds w' = su_fds w \<and> su_queue w' = su_queue w
    | Inr f \<Rightarrow> mset (installed w') = mset (routeOwed f @ iptablesOwed f) \<and> su_queue w' \<and> su_fds w' = lx_rawFd f # su_fds w"
proof (cases r)
  case (Inl e)
  then show ?thesis using construction_result [OF assms] installed_bounds(2) [of w'] by (simp add: failed_clean_def)
next
  case (Inr f)
  have "failed_deletions w' = []" using construction_failed [OF assms(1) [unfolded Inr]] assms(2) by (simp add: failed_deletions_def)
  then have "mset (installed w') = mset (owed w')" using installed_bounds [of w'] by (simp add: subset_mset.order_antisym)
  then show ?thesis using construction_result [OF assms] Inr by (simp add: running_def)
qed

lemma Start_fields [simp]:
  "owed (lx_Start e w) = owed w" "su_fds (lx_Start e w) = su_fds w" "su_queue (lx_Start e w) = su_queue w"
  "su_closed (lx_Start e w) = su_closed w"
  by (simp_all add: lx_Start_def owed_def split: option.split)

lemma Close_undoes:
  assumes "running f w" and "su_fds w = lx_rawFd f # fds" and "0 \<le> lx_rawFd f" and "\<not> su_closed w"
    and "lx_Close f w = (f', w')"
  shows "owed w' = [] \<and> su_fds w' = fds \<and> \<not> su_queue w' \<and> su_canceled w' \<and> lx_Close f' w' = (f', w')"
proof -
  define g where "g = f\<lparr>lx_rawFd := -1\<rparr>"
  define u where "u = closeFd (lx_rawFd f) ((cancel w)\<lparr>su_queue := False, su_closed := True\<rparr>)"
  have g: "routeOwed g = routeOwed f" "iptablesOwed g = iptablesOwed f" "lx_fwRulePref g = 0 \<or> lx_fwRuleTable g \<noteq> []"
    using assms(1) by (simp_all add: g_def routeOwed_def ruleDel_def iptablesOwed_def outputRule_def inputRule_def fwMarkArg_def running_def)
  have u: "owed u = routeOwed g @ iptablesOwed g" "su_fds u = fds" "\<not> su_queue u" "su_canceled u" "su_closed u"
    using assms(1,2) g by (simp_all add: u_def running_def closeFd_def cancel_def owed_def)
  have c: "lx_cleanupMarkedRoute g (lx_cleanupIptables g u) = (f', w')"
    using assms(3-5) by (simp add: lx_Close_def Let_def g_def u_def)
  have e: "foldl (\<lambda>ps c. remove1 c ps) (routeOwed g) (routeOwed g) = []" by (simp add: routeOwed_def)
  have "held w' = held u" "owed w' = []"
    using cleanupMarkedRoute_owed [OF c g(3)] cleanupIptables_owed [OF u(1)] e by simp_all
  then show ?thesis using u by (simp add: held_eq lx_Close_def)
qed

lemma cmds_runCmd: "\<exists>ok. su_cmds (snd (runCmd name args w)) = su_cmds w @ [(name # args, ok)]"
  by (auto simp: runCmd_def combinedOutput_def split: list.split option.split)

lemma Close_runs:
  assumes "lx_fwRulePref f = 0 \<or> lx_fwRuleTable f \<noteq> []" and "0 \<le> lx_rawFd f" and "\<not> su_closed w" and "lx_Close f w = (f', w')"
  shows "mset (routeOwed f @ iptablesOwed f) \<subseteq># mset (map fst (su_cmds w'))"
proof -
  define g where "g = f\<lparr>lx_rawFd := -1\<rparr>"
  define u where "u = closeFd (lx_rawFd f) ((cancel w)\<lparr>su_queue := False, su_closed := True\<rparr>)"
  have c: "lx_cleanupMarkedRoute g (lx_cleanupIptables g u) = (f', w')" using assms by (simp add: lx_Close_def Let_def g_def u_def)
  define w1 where "w1 = snd (runCmd ''iptables'' (outputRule ''-D'' g) u)"
  define w2 where "w2 = snd (runCmd ''iptables'' (inputRule ''-D'' g) w1)"
  have ipt: "lx_cleanupIptables g u = w2" by (simp add: lx_cleanupIptables_def w1_def w2_def case_prod_unfold)
  have g: "routeOwed g = routeOwed f" "iptablesOwed g = iptablesOwed f"
    by (simp_all add: g_def routeOwed_def ruleDel_def iptablesOwed_def outputRule_def inputRule_def fwMarkArg_def)
  obtain ok1 ok2 where "su_cmds w2 = su_cmds u @ [(''iptables'' # outputRule ''-D'' g, ok1), (''iptables'' # inputRule ''-D'' g, ok2)]"
    using cmds_runCmd [of "''iptables''" "outputRule ''-D'' g" u] cmds_runCmd [of "''iptables''" "inputRule ''-D'' g" w1]
    by (auto simp: w1_def w2_def)
  then have 2: "map fst (su_cmds w2) = map fst (su_cmds u) @ iptablesOwed g" by (simp add: iptablesOwed_def)
  have "map fst (su_cmds w') = map fst (su_cmds w2) @ routeOwed g"
  proof (cases "lx_fwRulePref g = 0")
    case True
    then show ?thesis using c ipt by (simp add: lx_cleanupMarkedRoute_def routeOwed_def)
  next
    case False
    then have "w' = snd (runCmd ''ip'' [''rule'', ''del'', ''pref'', decimal (lx_fwRulePref g), ''fwmark'', fwMarkArg g, ''lookup'', lx_fwRuleTable g] w2)"
      using c ipt assms(1) by (auto simp: lx_cleanupMarkedRoute_def Let_def case_prod_unfold g_def)
    then show ?thesis
      using cmds_runCmd [of "''ip''" "[''rule'', ''del'', ''pref'', decimal (lx_fwRulePref g), ''fwmark'', fwMarkArg g, ''lookup'', lx_fwRuleTable g]" w2] False
      by (auto simp: routeOwed_def ruleDel_def)
  qed
  then show ?thesis using 2 g by (simp add: add.commute add.left_commute)
qed

lemma Close_forgets:
  assumes "\<not> su_closed w" and "lx_fwRulePref f = 0 \<or> lx_fwRuleTable f \<noteq> []" and "lx_Close f w = (f', w')"
  shows "lx_fwRulePref f' = 0"
  using assms by (auto simp: lx_Close_def lx_cleanupMarkedRoute_def Let_def split: prod.splits if_splits)

text \<open>
  C27. \<^verbatim>\<open>Close\<close> tries to undo the whole set-up, once: after a successful construction and \<^verbatim>\<open>Start\<close>, whether or
  not registering succeeded, closing the injector runs the command that deletes it for every rule the
  constructor inserted, so that a rule is still installed only if its deletion failed, closes the raw socket
  and the queue, and cancels the context. Failures of deletions are not noticed: the record of the routing
  rule is cleared in any case, and closing a second time does nothing.
\<close>

theorem close_undoes_setup:
  assumes "newNFQueueFakeTcpInjector env store interfaceIP connectIPv4s connectPort w = Some (Inr f, w1)"
    and "su_cmds w = []" and "\<not> su_closed w" and "\<And>fd. en_socket env = Inr fd \<Longrightarrow> 0 \<le> fd"
    and "lx_Close f (lx_Start regErr w1) = (f2, w2)"
  shows "mset (routeOwed f @ iptablesOwed f) \<subseteq># mset (map fst (su_cmds w2)) \<and>
    mset (installed w2) \<subseteq># mset (failed_deletions w2) \<and> failed_deletions w1 = [] \<and>
    su_fds w2 = su_fds w \<and> \<not> su_queue w2 \<and> su_canceled w2 \<and>
    lx_fwRulePref f2 = 0 \<and> lx_Close f2 w2 = (f2, w2)"
proof -
  note c = construction_result [OF assms(1,2), simplified]
  have r: "running f (lx_Start regErr w1)" "su_fds (lx_Start regErr w1) = lx_rawFd f # su_fds w" "\<not> su_closed (lx_Start regErr w1)"
    "0 \<le> lx_rawFd f"
    using c assms(3,4) by (simp_all add: running_def)
  have "owed w2 = [] \<and> su_fds w2 = su_fds w \<and> \<not> su_queue w2 \<and> su_canceled w2 \<and> lx_Close f2 w2 = (f2, w2)"
    by (rule Close_undoes [OF r(1,2,4,3) assms(5)])
  moreover have "failed_deletions w1 = []"
    using construction_failed [OF assms(1)] assms(2) by (simp add: failed_deletions_def)
  moreover have "lx_fwRulePref f2 = 0"
    using r(1) by (intro Close_forgets [OF r(3) _ assms(5)]) (simp add: running_def)
  moreover have "mset (routeOwed f @ iptablesOwed f) \<subseteq># mset (map fst (su_cmds w2))"
    using r by (intro Close_runs [OF _ _ _ assms(5)]) (simp_all add: running_def)
  ultimately show ?thesis using installed_bounds(2) [of w2] by simp
qed

text \<open>
  C31. Drawing the firewall mark ends as soon as a draw fails or gives a usable value, and the mark is
  never zero and fits the positive range of a 32-bit integer.
\<close>

theorem randomFwMark_terminates:
  assumes "\<And>j. j < k \<Longrightarrow> \<exists>b. rd j = Inr b \<and> markOf b = 0" and "rd k = Inr b" and "markOf b \<noteq> 0"
  shows "randomFwMark rd 0 = Some (Inr (unat (markOf b))) \<and> 0 < unat (markOf b) \<and> unat (markOf b) < 2 ^ 31"
proof
  have "randomFwMark rd i = Some (Inr (unat (markOf b)))" if "i \<le> k" for i
    using that
  proof (induction "k - i" arbitrary: i)
    case 0
    then show ?case using assms(2,3) by (simp add: randomFwMark.simps [of rd i])
  next
    case (Suc n)
    have "i < k" using Suc.hyps(2) by simp
    then obtain b' where "rd i = Inr b'" "markOf b' = 0" using assms(1) by blast
    moreover have "randomFwMark rd (i + 1) = Some (Inr (unat (markOf b)))" using Suc by simp
    ultimately show ?case by (simp add: randomFwMark.simps [of rd i])
  qed
  then show "randomFwMark rd 0 = Some (Inr (unat (markOf b)))" by simp
  have "markOf b = take_bit 31 (be32 (b ! 0) (b ! 1) (b ! 2) (b ! 3))"
    by (simp add: markOf_def take_bit_eq_mask mask_eq_exp_minus_1)
  then have "unat (markOf b) < 2 ^ 31"
    by (metis take_bit_nat_less_exp unsigned_take_bit_eq)
  moreover have "unat (markOf b) \<noteq> 0" using assms(3) by (simp add: unsigned_eq_0_iff)
  ultimately show "0 < unat (markOf b) \<and> unat (markOf b) < 2 ^ 31" by simp
qed

theorem randomFwMark_terminates_witness:
  "randomFwMark (\<lambda>i. if i = 0 then Inr [0x80, 0, 0, 0] else Inr [0, 0, 0, 77]) 0 = Some (Inr 77)"
proof -
  have m: "markOf [0x80, 0, 0, 0] = 0" "markOf [0, 0, 0, 77] = 77" by code_simp+
  then show ?thesis
    using randomFwMark_terminates [of 1 "\<lambda>i. if i = 0 then Inr [0x80, 0, 0, 0] else Inr [0, 0, 0, 77]" "[0, 0, 0, 77]"]
    by simp
qed

definition sample_env :: lx_env where
  "sample_env = \<lparr>en_files = \<lambda>_. None, en_interfaces = None, en_rand2 = Inr [0, 9], en_rand4 = \<lambda>_. Inr [0, 0, 0, 77],
     en_socket = Inr 5, en_hdrincl = None, en_mark = \<lambda>_. None, en_mtudisc = None, en_open = \<lambda>_. None, en_readbuf = \<lambda>_. None\<rparr>"

definition sample_setup :: setup_world where
  "sample_setup = \<lparr>su_cmds = [], su_answers = [], su_fds = [], su_queue = False, su_canceled = False, su_closed = False,
     su_ready = False, su_openErr = None, su_logs = []\<rparr>"

lemma sample_mark: "randomFwMark (en_rand4 sample_env) 0 = Some (Inr 77)"
proof -
  have "markOf [0, 0, 0, 77] = 77" by code_simp
  then show ?thesis by (simp add: randomFwMark.simps [of _ 0] sample_env_def)
qed

lemma sample_new_returns:
  "\<exists>f w. newNFQueueFakeTcpInjector (sample_env\<lparr>en_open := \<lambda>_. e\<rparr>) store ''10.0.0.2'' [''104.19.229.21''] 443 sample_setup =
     Some (case e of None \<Rightarrow> Inr f | Some x \<Rightarrow> Inl (''failed to open nfqueue: '' @ x), w)"
proof -
  have "su_answers w = [] \<Longrightarrow> \<exists>w'. runCmd n args w = (None, w') \<and> su_answers w' = []" for n args w
    by (auto simp: runCmd_def combinedOutput_def)
  then have run: "su_answers w = [] \<Longrightarrow> fst (runCmd n args w) = None \<and> su_answers (snd (runCmd n args w)) = []" for n args w
    by (metis fst_conv snd_conv)
  have route: "\<exists>w'. lx_ensureMarkedRoute f w = (None, f, w') \<and> su_answers w' = []"
    if a: "su_answers w = []" for f w
  proof -
    obtain w1 where "runCmd ''ip'' [''route'', ''get'', lx_connectIP f, ''mark'', fwMarkArg f] w = (None, w1)" "su_answers w1 = []"
      using run [OF a, of "''ip''" "[''route'', ''get'', lx_connectIP f, ''mark'', fwMarkArg f]"] by (metis prod.collapse)
    then show ?thesis by (simp add: lx_ensureMarkedRoute_def)
  qed
  have ipt: "\<exists>w'. lx_setupIptables f w = (None, w')" if a: "su_answers w = []" for f w
  proof -
    obtain w1 where w1: "runCmd ''iptables'' (outputRule ''-I'' f) w = (None, w1)" "su_answers w1 = []"
      using run [OF a, of "''iptables''" "outputRule ''-I'' f"] by (metis prod.collapse)
    obtain w2 where "runCmd ''iptables'' (inputRule ''-I'' f) w1 = (None, w2)"
      using run [OF w1(2), of "''iptables''" "inputRule ''-I'' f"] by (metis prod.collapse)
    then show ?thesis using w1 by (simp add: lx_setupIptables_def)
  qed
  have fin: "\<exists>f' w'. lx_finishNew (sample_env\<lparr>en_open := \<lambda>_. e\<rparr>) 5 f w =
      (case e of None \<Rightarrow> Inr f' | Some x \<Rightarrow> Inl (''failed to open nfqueue: '' @ x), w')" if a: "su_answers w = []" for f w
  proof -
    obtain w1 where w1: "lx_ensureMarkedRoute f w = (None, f, w1)" "su_answers w1 = []"
      using route [OF a] by blast
    obtain w2 where "lx_setupIptables f w1 = (None, w2)" using ipt [OF w1(2)] by blast
    then show ?thesis using w1 by (auto simp: lx_finishNew_def Let_def split: option.split prod.split)
  qed
  let ?env = "sample_env\<lparr>en_open := \<lambda>_. e\<rparr>"
  have env: "randomNFQueueID ?env = Inr (be16 0 9)" "randomFwMark (en_rand4 ?env) 0 = Some (Inr 77)" "en_socket ?env = Inr 5"
    "en_hdrincl ?env = None" "en_mark ?env = (\<lambda>_. None)" "en_mtudisc ?env = None"
    using sample_mark by (simp_all add: sample_env_def randomNFQueueID_def)
  have sock: "\<exists>f' w'. lx_openSocket ?env f w =
      (case e of None \<Rightarrow> Inr f' | Some x \<Rightarrow> Inl (''failed to open nfqueue: '' @ x), w')" if a: "su_answers w = []" for f w
    using fin [of "w\<lparr>su_fds := 5 # su_fds w\<rparr>" "f\<lparr>lx_rawFd := 5\<rparr>"] a env by (simp add: lx_openSocket_def Let_def)
  have "su_answers sample_setup = []" "su_answers (su_log m sample_setup) = []" for m
    by (simp_all add: sample_setup_def su_log_def)
  then show ?thesis using env(1,2) by (simp add: newNFQueueFakeTcpInjector_def Let_def sock)
qed

theorem construction_all_or_nothing_witness:
  "\<exists>w'. newNFQueueFakeTcpInjector (sample_env\<lparr>en_open := \<lambda>_. Some ''busy''\<rparr>) (\<lambda>_. undefined) ''10.0.0.2'' [''104.19.229.21''] 443 sample_setup =
     Some (Inl ''failed to open nfqueue: busy'', w') \<and> mset (installed w') \<subseteq># mset (failed_deletions w') \<and> su_fds w' = []"
proof -
  obtain w' where w': "newNFQueueFakeTcpInjector (sample_env\<lparr>en_open := \<lambda>_. Some ''busy''\<rparr>) (\<lambda>_. undefined) ''10.0.0.2''
      [''104.19.229.21''] 443 sample_setup = Some (Inl ''failed to open nfqueue: busy'', w')"
    using sample_new_returns [of "Some ''busy''" "\<lambda>_. undefined", simplified] by blast
  then show ?thesis using construction_all_or_nothing [OF w'] by (simp add: sample_setup_def)
qed

theorem close_undoes_setup_witness:
  "\<exists>f w1. newNFQueueFakeTcpInjector (sample_env\<lparr>en_open := \<lambda>_. None\<rparr>) (\<lambda>_. undefined) ''10.0.0.2'' [''104.19.229.21''] 443 sample_setup =
     Some (Inr f, w1) \<and> mset (installed (snd (lx_Close f (lx_Start None w1)))) \<subseteq># mset (failed_deletions (snd (lx_Close f (lx_Start None w1)))) \<and>
     su_fds (snd (lx_Close f (lx_Start None w1))) = []"
proof -
  obtain f w1 where 1: "newNFQueueFakeTcpInjector (sample_env\<lparr>en_open := \<lambda>_. None\<rparr>) (\<lambda>_. undefined) ''10.0.0.2''
      [''104.19.229.21''] 443 sample_setup = Some (Inr f, w1)"
    using sample_new_returns [of None "\<lambda>_. undefined", simplified] by blast
  obtain f2 w2 where "lx_Close f (lx_Start None w1) = (f2, w2)" by fastforce
  then show ?thesis
    using 1 close_undoes_setup [OF 1, of None f2 w2] by (auto simp: sample_setup_def sample_env_def)
qed

end
