(* ===== verification/Windows_Active.thy ===== *)
theory Windows_Active
  imports Flow_Table Injection_Run
begin

text \<open>
  Model of \<^verbatim>\<open>injection/injector_windows.go\<close>: the WinDivert injector that diverts the packets of the
  flow and reinjects every one of them. The address WinDivert attaches to a packet is a type
  parameter, and what its \<^verbatim>\<open>Send\<close> returns is an argument (\<open>wd_SendErr\<close>).
\<close>

section \<open>State\<close>

record WindowsInjector = flow_table +
  wd_handle :: "int option"
  wd_nicMTU :: int
  wd_filter :: string

text \<open>\<open>wd_shutdown\<close> and \<open>wd_shutdownLate\<close> are the two loads of the shutdown flag in \<^verbatim>\<open>sendPacket\<close>.\<close>

record 'a wd_env =
  wd_shutdown :: bool
  wd_shutdownLate :: bool
  wd_SendErr :: "byte list \<Rightarrow> 'a \<Rightarrow> string option"

definition wd_sendPacket :: "'a wd_env \<Rightarrow> byte list \<Rightarrow> 'a \<Rightarrow> string option \<times> 'a effect list" where
  "wd_sendPacket env raw addr =
     (if wd_shutdown env then (None, [])
      else let err = wd_SendErr env raw addr in
        (err, [WdSend raw addr] @
          (case err of
             None \<Rightarrow> []
           | Some e \<Rightarrow> if \<not> wd_shutdownLate env then [LogF (''WinDivert send error: '' @ e)] else [])))"

section \<open>Handlers\<close>

definition wd_onUnexpectedPacket ::
  "'a wd_env \<Rightarrow> byte list \<Rightarrow> 'a \<Rightarrow> FakeInjectiveConnection \<Rightarrow> string \<Rightarrow> 'a handled" where
  "wd_onUnexpectedPacket env raw addr conn info =
     (trySend ''unexpected_close'' (conn\<lparr>Monitor := False\<rparr>),
      [LogF (''injector: '' @ info @ '' '' @ PacketSummary raw)] @ closeSocks conn @ snd (wd_sendPacket env raw addr))"

definition wd_onInboundPacket ::
  "'a wd_env \<Rightarrow> byte list \<Rightarrow> 'a \<Rightarrow> FakeInjectiveConnection \<Rightarrow> 'a handled" where
  "wd_onInboundPacket env raw addr conn =
     (if SynSeq conn = -1 then
        wd_onUnexpectedPacket env raw addr conn ''unexpected inbound packet, no syn sent!''
      else let flags = GetTCPFlags raw;
               payloadLen = TCPPayloadLen raw;
               seqNum = TCPSeqNum raw;
               ackNum = TCPAckNum raw
      in if ACK flags \<and> SYN flags \<and> \<not> RST flags \<and> \<not> FIN flags \<and> payloadLen = 0 then
           (if SynAckSeq conn \<noteq> -1 \<and> SynAckSeq conn \<noteq> int (unat seqNum) then
              wd_onUnexpectedPacket env raw addr conn
                (info2 ''unexpected inbound syn-ack, seq change!'' seqNum (SynAckSeq conn))
            else let expectedAck = (of_int (SynSeq conn) + 1) AND 0xffffffff :: u32 in
            if ackNum \<noteq> expectedAck then
              wd_onUnexpectedPacket env raw addr conn
                (info2 ''unexpected inbound syn-ack, ack not matched!'' ackNum (SynSeq conn))
            else (conn\<lparr>SynAckSeq := int (unat seqNum)\<rparr>, snd (wd_sendPacket env raw addr)))
         else if ACK flags \<and> \<not> SYN flags \<and> \<not> RST flags \<and> FakeInjectInProgress conn \<and> \<not> FakeSent conn then
           (conn\<lparr>PostFakeAckObserved := True\<rparr>, snd (wd_sendPacket env raw addr))
         else if ACK flags \<and> \<not> SYN flags \<and> \<not> RST flags \<and> FakeSent conn \<and> SynAckSeq conn \<noteq> -1 then
           (let strict = postFakeInboundStrictOK seqNum ackNum conn;
                permissive = postFakeInboundPermissiveOK flags in
            if \<not> strict \<and> \<not> permissive then
              wd_onUnexpectedPacket env raw addr conn (after_fake_info seqNum ackNum conn strict)
            else (trySend ''fake_data_ack_recv'' (conn\<lparr>Monitor := False\<rparr>), snd (wd_sendPacket env raw addr)))
         else wd_onUnexpectedPacket env raw addr conn ''unexpected inbound packet'')"

definition wd_onOutboundPacket ::
  "'a wd_env \<Rightarrow> byte list \<Rightarrow> 'a \<Rightarrow> FakeInjectiveConnection \<Rightarrow> 'a handled" where
  "wd_onOutboundPacket env raw addr conn =
     (if FakeSent conn then (conn, snd (wd_sendPacket env raw addr))
      else if FakeInjectInProgress conn then (conn, snd (wd_sendPacket env raw addr))
      else let flags = GetTCPFlags raw;
               payloadLen = TCPPayloadLen raw;
               seqNum = TCPSeqNum raw;
               ackNum = TCPAckNum raw
      in if SYN flags \<and> \<not> ACK flags \<and> \<not> RST flags \<and> \<not> FIN flags \<and> payloadLen = 0 then
           (if ackNum \<noteq> 0 then
              wd_onUnexpectedPacket env raw addr conn ''unexpected outbound syn, ack_num is not zero!''
            else if SynSeq conn \<noteq> -1 \<and> SynSeq conn \<noteq> int (unat seqNum) then
              wd_onUnexpectedPacket env raw addr conn
                (info2 ''unexpected outbound syn, seq not matched!'' seqNum (SynSeq conn))
            else (conn\<lparr>SynSeq := int (unat seqNum)\<rparr>, snd (wd_sendPacket env raw addr)))
         else if ACK flags \<and> \<not> SYN flags \<and> \<not> RST flags \<and> \<not> FIN flags \<and> payloadLen = 0 then
           (let expectedSeq = (of_int (SynSeq conn) + 1) AND 0xffffffff :: u32 in
            if SynSeq conn = -1 \<or> expectedSeq \<noteq> seqNum then
              wd_onUnexpectedPacket env raw addr conn
                (info2 ''unexpected outbound ack, seq not matched!'' seqNum (SynSeq conn))
            else let expectedAck = (of_int (SynAckSeq conn) + 1) AND 0xffffffff :: u32 in
            if SynAckSeq conn = -1 \<or> ackNum \<noteq> expectedAck then
              wd_onUnexpectedPacket env raw addr conn
                (info2 ''unexpected outbound ack, ack not matched!'' ackNum (SynAckSeq conn))
            else (conn\<lparr>FakeInjectInProgress := True\<rparr>, snd (wd_sendPacket env raw addr) @ [GoInjectAddr raw addr]))
         else wd_onUnexpectedPacket env raw addr conn ''unexpected outbound packet'')"

section \<open>Flows\<close>

definition wd_bindObservedTuple :: "nat \<Rightarrow> string \<Rightarrow> u16 \<Rightarrow> WindowsInjector \<Rightarrow> WindowsInjector" where
  "wd_bindObservedTuple r srcIP srcPort f =
     (if srcPort = 0 then f
      else let conn = heap f r in
      if SrcPort conn = srcPort \<and> ipv4Equal (SrcIP conn) srcIP then f
      else let oldID = ID conn;
               oldPort = SrcPort conn;
               conn = conn\<lparr>SrcIP := srcIP, SrcPort := srcPort,
                 ID := quad srcIP srcPort (DstIP conn) (DstPort conn)\<rparr>;
               f = update_conn r conn f;
               f = f\<lparr>Connections := (Connections f)(oldID := None)\<rparr>;
               f = f\<lparr>byLocalPort := (byLocalPort f)(oldPort := None)\<rparr>;
               f = f\<lparr>Connections := (Connections f)(ID conn \<mapsto> r)\<rparr>
           in f\<lparr>byLocalPort := (byLocalPort f)(srcPort \<mapsto> r)\<rparr>)"

definition wd_lookupConnQuad ::
  "WindowsInjector \<Rightarrow> string \<Rightarrow> u16 \<Rightarrow> string \<Rightarrow> u16 \<Rightarrow> (nat \<times> bool) option \<times> WindowsInjector" where
  "wd_lookupConnQuad f srcIP srcPort dstIP dstPort =
     (case Connections f (quad srcIP srcPort dstIP dstPort) of
        Some v \<Rightarrow> (Some (v, True), f)
      | None \<Rightarrow> (case Connections f (quad dstIP dstPort srcIP srcPort) of
          Some v \<Rightarrow> (Some (v, False), f)
        | None \<Rightarrow>
            let byDst = (case byLocalPort f dstPort of
                  None \<Rightarrow> None
                | Some v \<Rightarrow> if ipv4Equal srcIP (DstIP (heap f v)) \<and> srcPort = DstPort (heap f v)
                            then Some (v, False) else None)
            in (case byLocalPort f srcPort of
                  None \<Rightarrow> (byDst, f)
                | Some v \<Rightarrow> if ipv4Equal dstIP (DstIP (heap f v)) \<and> dstPort = DstPort (heap f v)
                            then (Some (v, True), wd_bindObservedTuple v srcIP srcPort f)
                            else (byDst, f))))"

definition wd_RegisterConn :: "nat \<Rightarrow> WindowsInjector \<Rightarrow> WindowsInjector" where
  "wd_RegisterConn r f =
     (let conn = heap f r;
          f = f\<lparr>Connections := (Connections f)(ID conn \<mapsto> r)\<rparr>
      in f\<lparr>byLocalPort := (byLocalPort f)(SrcPort conn \<mapsto> r)\<rparr>)"

definition wd_UnregisterConn :: "nat \<Rightarrow> WindowsInjector \<Rightarrow> WindowsInjector" where
  "wd_UnregisterConn r f =
     (let conn = heap f r;
          f = f\<lparr>Connections := (Connections f)(ID conn := None)\<rparr>
      in f\<lparr>byLocalPort := (byLocalPort f)(SrcPort conn := None)\<rparr>)"

definition wd_inject ::
  "'a wd_env \<Rightarrow> byte list \<Rightarrow> 'a \<Rightarrow> WindowsInjector \<Rightarrow> WindowsInjector \<times> 'a effect list" where
  "wd_inject env raw addr f =
     (if length raw < 40 then (f, snd (wd_sendPacket env raw addr))
      else if IPVersion raw \<noteq> 4 then (f, snd (wd_sendPacket env raw addr))
      else let srcIP = IP_String (IPv4SrcAddr raw);
               dstIP = IP_String (IPv4DstAddr raw);
               srcPort = TCPSrcPort raw;
               dstPort = TCPDstPort raw
      in (case wd_lookupConnQuad f srcIP srcPort dstIP dstPort of
            (None, f) \<Rightarrow> (f, snd (wd_sendPacket env raw addr))
          | (Some (r, outb), f) \<Rightarrow>
              let c = heap f r in
              if \<not> Monitor c then (f, snd (wd_sendPacket env raw addr))
              else let (c, es) = (if outb then wd_onOutboundPacket env raw addr c
                                  else wd_onInboundPacket env raw addr c)
                   in (update_conn r c f, es)))"

section \<open>Injection\<close>

text \<open>\<^verbatim>\<open>sendPacket\<close> as the injection goroutine calls it.\<close>

definition wd_sendInjected :: "bool \<Rightarrow> bool \<Rightarrow> byte list \<Rightarrow> inj_world \<Rightarrow> string option \<times> inj_world" where
  "wd_sendInjected shutdown shutdownLate raw w =
     (if shutdown then (None, w)
      else (case w_syscall raw w of
              (None, w) \<Rightarrow> (None, w)
            | (Some e, w) \<Rightarrow>
                (Some e, if \<not> shutdownLate then w_log (''WinDivert send error: '' @ e) w else w)))"

definition wd_runFakeInjection :: "bool \<Rightarrow> bool \<Rightarrow> WindowsInjector \<Rightarrow> byte list \<Rightarrow> inj_world \<Rightarrow> inj_world" where
  "wd_runFakeInjection shutdown shutdownLate f rawCopy w =
     (case w_IsMonitoring (w_sleep 1000000 w) of
        (False, w) \<Rightarrow> endInjection w
      | (True, w) \<Rightarrow>
          if BypassMethod (iw_conn w) \<noteq> ''wrong_seq'' then
            endInjection (w_locked AbortUnexpectedCloseLocked
              (w_log (''not implemented bypass method: '' @ BypassMethod (iw_conn w)) w))
          else endInjection (repeatAndConclude (wd_nicMTU f) rawCopy (wd_sendInjected shutdown shutdownLate) w))"

section \<open>The contracts\<close>

interpretation windows_active: injector_backend "\<lambda>(env, addr) raw c. wd_onInboundPacket env raw addr c" "\<lambda>(env, addr) raw c. wd_onOutboundPacket env raw addr c"
  "\<lambda>(env, addr) raw. snd (wd_sendPacket env raw addr)" "\<lambda>(env, addr) raw. [GoInjectAddr raw addr]"
proof (unfold_locales, unfold split_paired_all case_prod_conv)
  fix env addr raw c
  define h :: "outcome \<Rightarrow> 'a handled"
    where "h out = (apply_outcome out c, outcome_effects (snd (wd_sendPacket env raw addr)) [GoInjectAddr raw addr] raw c out)" for out
  have leaf: "wd_onUnexpectedPacket env raw addr c info = h (Unexpected info)"
    "(c\<lparr>SynAckSeq := int (unat q)\<rparr>, snd (wd_sendPacket env raw addr)) = h (LearnSynAck q)"
    "(c\<lparr>SynSeq := int (unat q)\<rparr>, snd (wd_sendPacket env raw addr)) = h (LearnSyn q)"
    "(c\<lparr>PostFakeAckObserved := True\<rparr>, snd (wd_sendPacket env raw addr)) = h NoteAck"
    "(trySend ''fake_data_ack_recv'' (c\<lparr>Monitor := False\<rparr>), snd (wd_sendPacket env raw addr)) = h FakeAcked"
    "(c\<lparr>FakeInjectInProgress := True\<rparr>, snd (wd_sendPacket env raw addr) @ [GoInjectAddr raw addr]) = h StartInjection"
    "(c, snd (wd_sendPacket env raw addr)) = h PassOn" for info q
    by (simp_all add: h_def wd_onUnexpectedPacket_def apply_outcome_def outcome_effects_def)
  show "wd_onInboundPacket env raw addr c = (apply_outcome (inbound (seg_of raw) c) c,
      outcome_effects (snd (wd_sendPacket env raw addr)) [GoInjectAddr raw addr] raw c (inbound (seg_of raw) c))"
    unfolding wd_onInboundPacket_def Let_def leaf h_def [symmetric] by (rule inbound_code)
  show "wd_onOutboundPacket env raw addr c = (apply_outcome (outbound (seg_of raw) c) c,
      outcome_effects (snd (wd_sendPacket env raw addr)) [GoInjectAddr raw addr] raw c (outbound (seg_of raw) c))"
    unfolding wd_onOutboundPacket_def Let_def leaf h_def [symmetric] by (rule outbound_code)
qed

interpretation windows_flows: flow_lookup wd_RegisterConn wd_UnregisterConn wd_lookupConnQuad
  by unfold_locales
    (simp_all add: wd_RegisterConn_def wd_UnregisterConn_def wd_lookupConnQuad_def Let_def split: option.split)

text \<open>Until shutdown, \<^verbatim>\<open>sendPacket\<close> sends.\<close>

interpretation windows_sends: live_sender "wd_sendInjected False late" "\<lambda>p. p" "\<lambda>p. True"
proof
  fix p w w' e
  show "iw_conn (snd (wd_sendInjected False late p w)) = iw_conn w"
    "iw_moves (snd (wd_sendInjected False late p w)) = iw_moves w"
    by (auto simp: wd_sendInjected_def w_syscall_def w_log_def split: option.split list.split)
  show "map (\<lambda>p. p) (iw_wire w') = map (\<lambda>p. p) (iw_wire w) @ [p]" if "wd_sendInjected False late p w = (None, w')"
    using that by (auto simp: wd_sendInjected_def w_syscall_def split: option.splits list.splits)
  show "iw_wire w' = iw_wire w" if "wd_sendInjected False late p w = (Some e, w')"
    using that by (auto simp: wd_sendInjected_def w_syscall_def w_log_def split: option.splits list.splits if_splits)
  show "\<exists>w'. wd_sendInjected False late p w = (None, w') \<and> list_all ((=) None) (iw_results w')"
    if "list_all ((=) None) (iw_results w)" "True"
    using that by (auto simp: wd_sendInjected_def w_syscall_def split: list.split)
qed

end
