(* ===== verification/Windows_Passive.thy ===== *)
theory Windows_Passive
  imports Flow_Table Injection_Run
begin

text \<open>
  Model of \<^verbatim>\<open>injection/injector_windows_passive.go\<close>: the WinDivert injector that sniffs the flow on
  one handle and sends the fake on another.
\<close>

section \<open>State\<close>

record WindowsPassiveInjector = flow_table +
  wdp_sniff :: "int option"
  wdp_inject :: "int option"
  wdp_nicMTU :: int
  wdp_filter :: string

section \<open>Handlers\<close>

definition wdp_onUnexpectedPacket ::
  "byte list \<Rightarrow> FakeInjectiveConnection \<Rightarrow> string \<Rightarrow> unit handled" where
  "wdp_onUnexpectedPacket raw conn info =
     (trySend ''unexpected_close'' (conn\<lparr>Monitor := False\<rparr>),
      [LogF (''injector: '' @ info @ '' '' @ PacketSummary raw)] @ closeSocks conn)"

definition wdp_onInboundPacket ::
  "byte list \<Rightarrow> FakeInjectiveConnection \<Rightarrow> unit handled" where
  "wdp_onInboundPacket raw conn =
     (if SynSeq conn = -1 then
        wdp_onUnexpectedPacket raw conn ''unexpected inbound packet, no syn sent!''
      else let flags = GetTCPFlags raw;
               payloadLen = TCPPayloadLen raw;
               seqNum = TCPSeqNum raw;
               ackNum = TCPAckNum raw
      in if ACK flags \<and> SYN flags \<and> \<not> RST flags \<and> \<not> FIN flags \<and> payloadLen = 0 then
           (if SynAckSeq conn \<noteq> -1 \<and> SynAckSeq conn \<noteq> int (unat seqNum) then
              wdp_onUnexpectedPacket raw conn
                (info2 ''unexpected inbound syn-ack, seq change!'' seqNum (SynAckSeq conn))
            else let expectedAck = (of_int (SynSeq conn) + 1) AND 0xffffffff :: u32 in
            if ackNum \<noteq> expectedAck then
              wdp_onUnexpectedPacket raw conn
                (info2 ''unexpected inbound syn-ack, ack not matched!'' ackNum (SynSeq conn))
            else (conn\<lparr>SynAckSeq := int (unat seqNum)\<rparr>, []))
         else if ACK flags \<and> \<not> SYN flags \<and> \<not> RST flags \<and> FakeInjectInProgress conn \<and> \<not> FakeSent conn then
           (conn\<lparr>PostFakeAckObserved := True\<rparr>, [])
         else if ACK flags \<and> \<not> SYN flags \<and> \<not> RST flags \<and> FakeSent conn \<and> SynAckSeq conn \<noteq> -1 then
           (let strict = postFakeInboundStrictOK seqNum ackNum conn in
            if \<not> strict \<and> \<not> postFakeInboundPermissiveOK flags then
              wdp_onUnexpectedPacket raw conn (after_fake_info seqNum ackNum conn strict)
            else (trySend ''fake_data_ack_recv'' (conn\<lparr>Monitor := False\<rparr>), []))
         else wdp_onUnexpectedPacket raw conn ''unexpected inbound packet'')"

definition wdp_onOutboundPacket ::
  "byte list \<Rightarrow> FakeInjectiveConnection \<Rightarrow> unit handled" where
  "wdp_onOutboundPacket raw conn =
     (if FakeSent conn \<or> FakeInjectInProgress conn then (conn, [])
      else let flags = GetTCPFlags raw;
               payloadLen = TCPPayloadLen raw;
               seqNum = TCPSeqNum raw;
               ackNum = TCPAckNum raw
      in if SYN flags \<and> \<not> ACK flags \<and> \<not> RST flags \<and> \<not> FIN flags \<and> payloadLen = 0 then
           (if ackNum \<noteq> 0 then
              wdp_onUnexpectedPacket raw conn ''unexpected outbound syn, ack_num is not zero!''
            else if SynSeq conn \<noteq> -1 \<and> SynSeq conn \<noteq> int (unat seqNum) then
              wdp_onUnexpectedPacket raw conn
                (info2 ''unexpected outbound syn, seq not matched!'' seqNum (SynSeq conn))
            else (conn\<lparr>SynSeq := int (unat seqNum)\<rparr>, []))
         else if ACK flags \<and> \<not> SYN flags \<and> \<not> RST flags \<and> \<not> FIN flags \<and> payloadLen = 0 then
           (let expectedSeq = (of_int (SynSeq conn) + 1) AND 0xffffffff :: u32 in
            if SynSeq conn = -1 \<or> expectedSeq \<noteq> seqNum then
              wdp_onUnexpectedPacket raw conn
                (info2 ''unexpected outbound ack, seq not matched!'' seqNum (SynSeq conn))
            else let expectedAck = (of_int (SynAckSeq conn) + 1) AND 0xffffffff :: u32 in
            if SynAckSeq conn = -1 \<or> ackNum \<noteq> expectedAck then
              wdp_onUnexpectedPacket raw conn
                (info2 ''unexpected outbound ack, ack not matched!'' ackNum (SynAckSeq conn))
            else (conn\<lparr>FakeInjectInProgress := True\<rparr>, [GoInject raw]))
         else wdp_onUnexpectedPacket raw conn ''unexpected outbound packet'')"

section \<open>Flows\<close>

definition wdp_bindObservedTuple :: "nat \<Rightarrow> string \<Rightarrow> u16 \<Rightarrow> WindowsPassiveInjector \<Rightarrow> WindowsPassiveInjector" where
  "wdp_bindObservedTuple r srcIP srcPort f =
     (if srcPort = 0 then f
      else let conn = heap f r in
      if SrcPort conn = srcPort \<and> ipv4Equal (SrcIP conn) srcIP then f
      else let oldID = ID conn;
               oldPort = SrcPort conn;
               conn = conn\<lparr>SrcIP := srcIP, SrcPort := srcPort,
                 ID := quad srcIP srcPort (DstIP conn) (DstPort conn)\<rparr>;
               f = update_conn r conn f;
               f = f\<lparr>Connections := (Connections f)(oldID := None)\<rparr>;
               f = f\<lparr>byLocalPort := (byLocalPort f)(oldPort := None)\<rparr>;
               f = f\<lparr>Connections := (Connections f)(ID conn \<mapsto> r)\<rparr>
           in f\<lparr>byLocalPort := (byLocalPort f)(srcPort \<mapsto> r)\<rparr>)"

definition wdp_lookupConnQuad ::
  "WindowsPassiveInjector \<Rightarrow> string \<Rightarrow> u16 \<Rightarrow> string \<Rightarrow> u16 \<Rightarrow> (nat \<times> bool) option \<times> WindowsPassiveInjector" where
  "wdp_lookupConnQuad f srcIP srcPort dstIP dstPort =
     (case Connections f (quad srcIP srcPort dstIP dstPort) of
        Some v \<Rightarrow> (Some (v, True), f)
      | None \<Rightarrow> (case Connections f (quad dstIP dstPort srcIP srcPort) of
          Some v \<Rightarrow> (Some (v, False), f)
        | None \<Rightarrow>
            let byDst = (case byLocalPort f dstPort of
                  None \<Rightarrow> None
                | Some v \<Rightarrow> if ipv4Equal srcIP (DstIP (heap f v)) \<and> srcPort = DstPort (heap f v)
                            then Some (v, False) else None)
            in (case byLocalPort f srcPort of
                  None \<Rightarrow> (byDst, f)
                | Some v \<Rightarrow> if ipv4Equal dstIP (DstIP (heap f v)) \<and> dstPort = DstPort (heap f v)
                            then (Some (v, True), wdp_bindObservedTuple v srcIP srcPort f)
                            else (byDst, f))))"

definition wdp_RegisterConn :: "nat \<Rightarrow> WindowsPassiveInjector \<Rightarrow> WindowsPassiveInjector" where
  "wdp_RegisterConn r f =
     (let conn = heap f r;
          f = f\<lparr>Connections := (Connections f)(ID conn \<mapsto> r)\<rparr>
      in f\<lparr>byLocalPort := (byLocalPort f)(SrcPort conn \<mapsto> r)\<rparr>)"

definition wdp_UnregisterConn :: "nat \<Rightarrow> WindowsPassiveInjector \<Rightarrow> WindowsPassiveInjector" where
  "wdp_UnregisterConn r f =
     (let conn = heap f r;
          f = f\<lparr>Connections := (Connections f)(ID conn := None)\<rparr>
      in f\<lparr>byLocalPort := (byLocalPort f)(SrcPort conn := None)\<rparr>)"

definition wdp_onPacket :: "byte list \<Rightarrow> WindowsPassiveInjector \<Rightarrow> WindowsPassiveInjector \<times> unit effect list" where
  "wdp_onPacket raw f =
     (if length raw < 40 \<or> IPVersion raw \<noteq> 4 then (f, [])
      else let srcIP = IP_String (IPv4SrcAddr raw);
               dstIP = IP_String (IPv4DstAddr raw);
               srcPort = TCPSrcPort raw;
               dstPort = TCPDstPort raw
      in (case wdp_lookupConnQuad f srcIP srcPort dstIP dstPort of
            (None, f) \<Rightarrow> (f, [])
          | (Some (r, outb), f) \<Rightarrow>
              let c = heap f r in
              if \<not> Monitor c then (f, [])
              else let (c, es) = (if outb then wdp_onOutboundPacket raw c
                                  else wdp_onInboundPacket raw c)
                   in (update_conn r c f, es)))"

section \<open>Injection\<close>

definition wdp_sendPacket :: "bool \<Rightarrow> bool \<Rightarrow> byte list \<Rightarrow> inj_world \<Rightarrow> string option \<times> inj_world" where
  "wdp_sendPacket shutdown shutdownLate raw w =
     (if shutdown then (None, w)
      else (case w_syscall raw w of
              (None, w) \<Rightarrow> (None, w)
            | (Some e, w) \<Rightarrow>
                (Some e, if \<not> shutdownLate then w_log (''WinDivert passive send error: '' @ e) w else w)))"

definition wdp_runFakeInjection :: "bool \<Rightarrow> bool \<Rightarrow> WindowsPassiveInjector \<Rightarrow> byte list \<Rightarrow> inj_world \<Rightarrow> inj_world" where
  "wdp_runFakeInjection shutdown shutdownLate f rawCopy w =
     (case w_IsMonitoring (w_sleep 1000000 w) of
        (False, w) \<Rightarrow> endInjection w
      | (True, w) \<Rightarrow>
          if BypassMethod (iw_conn w) \<noteq> ''wrong_seq'' then
            endInjection (w_locked AbortUnexpectedCloseLocked
              (w_log (''not implemented bypass method: '' @ BypassMethod (iw_conn w)) w))
          else endInjection (repeatAndConclude (wdp_nicMTU f) rawCopy (wdp_sendPacket shutdown shutdownLate) w))"

section \<open>The contracts\<close>

interpretation windows_passive: injector_backend "\<lambda>(u :: unit) raw c. wdp_onInboundPacket raw c" "\<lambda>(u :: unit) raw c. wdp_onOutboundPacket raw c"
  "\<lambda>(u :: unit) raw. []" "\<lambda>(u :: unit) raw. [GoInject raw]"
proof
  fix raw c
  define h :: "outcome \<Rightarrow> unit handled"
    where "h out = (apply_outcome out c, outcome_effects ([]) [GoInject raw] raw c out)" for out
  have leaf: "wdp_onUnexpectedPacket raw c info = h (Unexpected info)"
    "(c\<lparr>SynAckSeq := int (unat q)\<rparr>, []) = h (LearnSynAck q)"
    "(c\<lparr>SynSeq := int (unat q)\<rparr>, []) = h (LearnSyn q)"
    "(c\<lparr>PostFakeAckObserved := True\<rparr>, []) = h NoteAck"
    "(trySend ''fake_data_ack_recv'' (c\<lparr>Monitor := False\<rparr>), []) = h FakeAcked"
    "(c\<lparr>FakeInjectInProgress := True\<rparr>, [GoInject raw]) = h StartInjection"
    "(c, []) = h PassOn" for info q
    by (simp_all add: h_def wdp_onUnexpectedPacket_def apply_outcome_def outcome_effects_def)
  show "wdp_onInboundPacket raw c = (apply_outcome (inbound (seg_of raw) c) c,
      outcome_effects ([]) [GoInject raw] raw c (inbound (seg_of raw) c))"
    unfolding wdp_onInboundPacket_def Let_def leaf h_def [symmetric] by (rule inbound_code)
  show "wdp_onOutboundPacket raw c = (apply_outcome (outbound (seg_of raw) c) c,
      outcome_effects ([]) [GoInject raw] raw c (outbound (seg_of raw) c))"
    unfolding wdp_onOutboundPacket_def Let_def leaf h_def [symmetric] disj_code [of "FakeSent c" "FakeInjectInProgress c"] by (rule outbound_code)
qed

interpretation windows_passive_flows: flow_lookup wdp_RegisterConn wdp_UnregisterConn wdp_lookupConnQuad
  by unfold_locales
    (simp_all add: wdp_RegisterConn_def wdp_UnregisterConn_def wdp_lookupConnQuad_def Let_def split: option.split)

interpretation windows_passive_sends: live_sender "wdp_sendPacket False late" "\<lambda>p. p" "\<lambda>p. True"
  by unfold_locales
    (auto simp: wdp_sendPacket_def w_syscall_def w_log_def split: option.splits list.splits if_splits)

end
