(* ===== verification/Packet_Steps.thy ===== *)
theory Packet_Steps
  imports Linux_Active Linux_Passive Darwin Windows_Active Windows_Passive
begin

text \<open>
  What a captured packet can do to a connection, as a step relation: the connection is rebound
  to an observed source address (Windows), or an outcome of the handshake machine is applied.
  Every packet entry point of the five injectors makes only such steps, on the connection it
  looked up and on no other; the invariants of a connection are then proved once, by rule
  induction.
\<close>

section \<open>The step relation\<close>

inductive conn_step :: "FakeInjectiveConnection \<Rightarrow> FakeInjectiveConnection \<Rightarrow> bool" where
  rebind: "conn_step c (c\<lparr>SrcIP := ip, SrcPort := port, ID := i\<rparr>)"
| in_packet: "Monitor c \<Longrightarrow> conn_step c (apply_outcome (inbound s c) c)"
| out_packet: "Monitor c \<Longrightarrow> conn_step c (apply_outcome (outbound s c) c)"

inductive_cases conn_stepE: "conn_step c c'"

abbreviation conn_steps :: "FakeInjectiveConnection \<Rightarrow> FakeInjectiveConnection \<Rightarrow> bool" where
  "conn_steps \<equiv> conn_step\<^sup>*\<^sup>*"

lemma conn_step_ok: "conn_step c c' \<Longrightarrow> conn_ok c \<Longrightarrow> conn_ok c'"
  by (induction rule: conn_step.induct)
    (simp add: conn_ok_def, erule conn_ok_inbound, erule conn_ok_outbound)

lemma conn_steps_ok: "conn_steps c c' \<Longrightarrow> conn_ok c \<Longrightarrow> conn_ok c'"
  by (induction rule: rtranclp_induct) (auto intro: conn_step_ok)

lemma conn_le_trans:
  assumes "conn_le a b" and "conn_le b c"
  shows "conn_le a c"
proof -
  note a = assms(1) [unfolded conn_le_def] and b = assms(2) [unfolded conn_le_def]
  have "Monitor c \<longrightarrow> Monitor a" "FakeInjectInProgress a \<longrightarrow> FakeInjectInProgress c"
    "PostFakeAckObserved a \<longrightarrow> PostFakeAckObserved c" using a b by blast+
  moreover have "SynSeq a \<noteq> -1 \<longrightarrow> SynSeq c = SynSeq a" using a b by metis
  moreover have "SynAckSeq a \<noteq> -1 \<longrightarrow> SynAckSeq c = SynAckSeq a" using a b by metis
  moreover have "FakeData c = FakeData a" "FakeSent c = FakeSent a" using a b by simp_all
  moreover have "prefix (T2aChan a) (T2aChan c)" using a b prefix_order.trans by blast
  ultimately show ?thesis unfolding conn_le_def by blast
qed
lemma conn_step_le: "conn_step c c' \<Longrightarrow> conn_le c c'"
  by (induction rule: conn_step.induct)
    (simp add: conn_le_def, rule conn_le_inbound, rule conn_le_outbound)

lemma conn_steps_le: "conn_steps c c' \<Longrightarrow> conn_le c c'"
  by (induction rule: rtranclp_induct) (simp, erule conn_le_trans, erule conn_step_le)

text \<open>Without \<^verbatim>\<open>FakeSent\<close> no packet produces the success signal.\<close>

lemma conn_step_signal:
  assumes "conn_step c c'" and "\<not> FakeSent c" and "''fake_data_ack_recv'' \<notin> set (T2aChan c)"
  shows "''fake_data_ack_recv'' \<notin> set (T2aChan c')"
  using assms
  by (induction rule: conn_step.induct)
    (auto simp: inbound_def outbound_def apply_outcome_def trySend_def split: if_splits)

lemma conn_steps_signal:
  assumes "conn_steps c c'" and "\<not> FakeSent c" and "''fake_data_ack_recv'' \<notin> set (T2aChan c)"
  shows "''fake_data_ack_recv'' \<notin> set (T2aChan c')"
  using assms
proof (induction rule: rtranclp_induct)
  case (step b c')
  then have "\<not> FakeSent b" using conn_steps_le [OF step.hyps(1)] by (simp add: conn_le_def)
  with conn_step_signal [OF step.hyps(2)] step.IH [OF step.prems] show ?case by simp
qed

section \<open>The entry points\<close>

text \<open>A packet entry point takes steps on each connection of the store.\<close>

definition heap_steps :: "'x flow_table_scheme \<Rightarrow> 'y flow_table_scheme \<Rightarrow> bool" where
  "heap_steps f f' \<longleftrightarrow> (\<forall>r. conn_steps (heap f r) (heap f' r))"

lemma heap_steps_refl [simp]: "heap_steps f f"
  by (simp add: heap_steps_def)

lemma heap_steps_linkHdr [simp]:
  "heap_steps f1 (f1\<lparr>lxp_linkHdr := h\<rparr>)" "heap_steps f2 (f2\<lparr>dw_linkHdr := h\<rparr>)"
  by (simp_all add: heap_steps_def)

lemma heap_steps_trans: "heap_steps f g \<Longrightarrow> heap_steps g h \<Longrightarrow> heap_steps f h"
  unfolding heap_steps_def by (meson rtranclp_trans)

lemma heap_steps_ok: "heap_steps f g \<Longrightarrow> conn_ok (heap f r) \<Longrightarrow> conn_ok (heap g r)"
  unfolding heap_steps_def by (blast intro: conn_steps_ok)

lemma heap_steps_le: "heap_steps f g \<Longrightarrow> conn_le (heap f r) (heap g r)"
  unfolding heap_steps_def by (blast intro: conn_steps_le)

lemma heap_steps_signal:
  "heap_steps f g \<Longrightarrow> \<not> FakeSent (heap f r) \<Longrightarrow> ''fake_data_ack_recv'' \<notin> set (T2aChan (heap f r)) \<Longrightarrow>
    ''fake_data_ack_recv'' \<notin> set (T2aChan (heap g r))"
  by (rule conn_steps_signal [of "heap f r"]) (simp_all add: heap_steps_def)

text \<open>Dispatching a packet to the connection found.\<close>

lemma heap_steps_dispatch:
  assumes "heap g = heap f" and "conn_step (heap f r) (fst res)"
  shows "heap_steps f (fst (case res of (c, es) \<Rightarrow> (update_conn r c g, es)))"
  using assms by (auto simp: heap_steps_def update_conn_def case_prod_unfold)

text \<open>The handlers of each backend make one step.\<close>

lemma handler_steps:
  assumes "Monitor c"
  shows "conn_step c (fst (lx_onInboundPacket pid raw c))" "conn_step c (fst (lx_onOutboundPacket pid raw c))"
    "conn_step c (fst (lxp_onInboundPacket raw c))" "conn_step c (fst (lxp_onOutboundPacket raw c))"
    "conn_step c (fst (dw_onInboundPacket raw c))" "conn_step c (fst (dw_onOutboundPacket raw c))"
    "conn_step c (fst (wd_onInboundPacket env raw addr c))" "conn_step c (fst (wd_onOutboundPacket env raw addr c))"
    "conn_step c (fst (wdp_onInboundPacket raw c))" "conn_step c (fst (wdp_onOutboundPacket raw c))"
  using in_packet [OF assms] out_packet [OF assms]
    windows_active.inbound_refines [of "(env, addr)" raw c] windows_active.outbound_refines [of "(env, addr)" raw c]
  by (simp_all add: linux_active.inbound_refines linux_active.outbound_refines
      linux_passive.inbound_refines linux_passive.outbound_refines darwin.inbound_refines darwin.outbound_refines
      windows_passive.inbound_refines windows_passive.outbound_refines)

lemma lx_processPacket_steps: "heap_steps f (fst (lx_processPacket verdictErr a f))"
  by (auto simp: lx_processPacket_def Let_def split: option.split intro!: heap_steps_dispatch handler_steps)

lemma lxp_onFrame_steps: "heap_steps f (fst (lxp_onFrame frame f))"
  by (auto simp: lxp_onFrame_def lxp_captureLinkHeader_def Let_def split: option.split
      intro!: heap_steps_dispatch handler_steps)

lemma dw_onFrame_steps: "heap_steps f (fst (dw_onFrame frame f))"
  by (auto simp: dw_onFrame_def dw_captureLinkHeader_def Let_def split: option.split
      intro!: heap_steps_dispatch handler_steps)

lemma wd_bind_steps: "heap_steps f (wd_bindObservedTuple r srcIP srcPort f)"
  using rebind [of "heap f r"]
  by (auto simp: wd_bindObservedTuple_def Let_def heap_steps_def update_conn_def)

lemma wdp_bind_steps: "heap_steps f (wdp_bindObservedTuple r srcIP srcPort f)"
  using rebind [of "heap f r"]
  by (auto simp: wdp_bindObservedTuple_def Let_def heap_steps_def update_conn_def)

lemma wd_lookup_steps: "heap_steps f (snd (wd_lookupConnQuad f a b c d))"
  by (auto simp: wd_lookupConnQuad_def Let_def wd_bind_steps split: option.split)

lemma wdp_lookup_steps: "heap_steps f (snd (wdp_lookupConnQuad f a b c d))"
  by (auto simp: wdp_lookupConnQuad_def Let_def wdp_bind_steps split: option.split)

lemma wd_inject_steps: "heap_steps f (fst (wd_inject env raw addr f))"
proof -
  obtain l f' where l: "wd_lookupConnQuad f (IP_String (IPv4SrcAddr raw)) (TCPSrcPort raw)
      (IP_String (IPv4DstAddr raw)) (TCPDstPort raw) = (l, f')" by fastforce
  have f': "heap_steps f f'" using wd_lookup_steps [of f] l by (metis snd_conv)
  have "heap_steps f' (fst (case res of (c, es) \<Rightarrow> (update_conn r c f', es)))"
    if "conn_step (heap f' r) (fst res)" for r and res :: "'a handled"
    using that by (intro heap_steps_dispatch) simp_all
  from heap_steps_trans [OF f' this] f' l show ?thesis
    by (auto simp: wd_inject_def Let_def handler_steps split: option.split)
qed

lemma wdp_onPacket_steps: "heap_steps f (fst (wdp_onPacket raw f))"
proof -
  obtain l f' where l: "wdp_lookupConnQuad f (IP_String (IPv4SrcAddr raw)) (TCPSrcPort raw)
      (IP_String (IPv4DstAddr raw)) (TCPDstPort raw) = (l, f')" by fastforce
  have f': "heap_steps f f'" using wdp_lookup_steps [of f] l by (metis snd_conv)
  have "heap_steps f' (fst (case res of (c, es) \<Rightarrow> (update_conn r c f', es)))"
    if "conn_step (heap f' r) (fst res)" for r and res :: "unit handled"
    using that by (intro heap_steps_dispatch) simp_all
  from heap_steps_trans [OF f' this] f' l show ?thesis
    by (auto simp: wdp_onPacket_def Let_def handler_steps split: option.split)
qed

end
