(* ===== verification/Session.thy ===== *)
theory Session
  imports Packet_Steps
begin

text \<open>
  Everything the injector does to a connection, as one step relation: the steps of captured packets and
  the steps of the injection goroutine. Every \<^verbatim>\<open>runFakeInjection\<close>, interleaved with any other such steps,
  makes only steps of the relation; so what holds along its paths holds for the connection the proxy
  handler waits on, whatever the scheduling.
\<close>

section \<open>The steps of an injector\<close>

inductive injector_step :: "FakeInjectiveConnection \<Rightarrow> FakeInjectiveConnection \<Rightarrow> bool" where
  packet: "conn_step c c' \<Longrightarrow> injector_step c c'"
| sent: "injector_step c (c\<lparr>FakeSent := True\<rparr>)"
| signal: "FakeSent c \<Longrightarrow> injector_step c (fst (signalIfMonitoring c))"
| aborted: "injector_step c (fst (AbortUnexpectedCloseLocked c :: unit handled))"
| ended: "injector_step c (c\<lparr>FakeInjectInProgress := False\<rparr>)"

inductive_cases injector_stepE: "injector_step c c'"

abbreviation injector_steps :: "FakeInjectiveConnection \<Rightarrow> FakeInjectiveConnection \<Rightarrow> bool" where
  "injector_steps \<equiv> injector_step\<^sup>*\<^sup>*"

lemma conn_steps_injector: "conn_steps c c' \<Longrightarrow> injector_steps c c'"
  by (erule mono_rtranclp [rule_format, rotated]) (rule packet)

lemma heap_steps_injector: "heap_steps f g \<Longrightarrow> injector_steps (heap f r) (heap g r)"
  by (simp add: heap_steps_def conn_steps_injector)

text \<open>Monitoring is never resumed, messages are only appended, \<^verbatim>\<open>FakeSent\<close> is never reset, and the success
  message is only in the channel when \<^verbatim>\<open>FakeSent\<close> is set.\<close>

definition success_sound :: "FakeInjectiveConnection \<Rightarrow> bool" where
  "success_sound c \<longleftrightarrow> (''fake_data_ack_recv'' \<in> set (T2aChan c) \<longrightarrow> FakeSent c)"

definition later :: "FakeInjectiveConnection \<Rightarrow> FakeInjectiveConnection \<Rightarrow> bool" where
  "later c c' \<longleftrightarrow> (Monitor c' \<longrightarrow> Monitor c) \<and> (FakeSent c \<longrightarrow> FakeSent c') \<and> prefix (T2aChan c) (T2aChan c') \<and>
     FakeData c' = FakeData c \<and> (success_sound c \<longrightarrow> success_sound c')"

lemma later_refl [simp]: "later c c"
  by (simp add: later_def)

lemma later_trans: "later a b \<Longrightarrow> later b c \<Longrightarrow> later a c"
  unfolding later_def using prefix_order.trans by auto

lemma conn_step_later:
  assumes "conn_step c c'"
  shows "later c c'"
proof -
  have le: "conn_le c c'" using assms by (rule conn_step_le)
  then have "success_sound c \<longrightarrow> success_sound c'"
    using conn_step_signal [OF assms] by (auto simp: success_sound_def conn_le_def)
  with le show ?thesis unfolding later_def conn_le_def by auto
qed

lemma trySend_later:
  assumes "m = ''fake_data_ack_recv'' \<longrightarrow> FakeSent c"
  shows "later c (trySend m (c\<lparr>Monitor := False\<rparr>))"
  using assms T2aChan_trySend [of "c\<lparr>Monitor := False\<rparr>" m]
  by (auto simp: later_def success_sound_def trySend_def)

lemma injector_step_later: "injector_step c c' \<Longrightarrow> later c c'"
  by (induction rule: injector_step.induct)
    (auto simp: conn_step_later signalIfMonitoring_def AbortUnexpectedCloseLocked_def intro: trySend_later,
     auto simp: later_def success_sound_def)

lemma injector_steps_later: "injector_steps c c' \<Longrightarrow> later c c'"
  by (induction rule: rtranclp_induct) (auto intro: later_trans injector_step_later)

section \<open>The injection goroutine makes such steps\<close>

definition move_steps :: "(FakeInjectiveConnection \<Rightarrow> FakeInjectiveConnection) \<Rightarrow> bool" where
  "move_steps m \<longleftrightarrow> (\<forall>c. injector_steps c (m c))"

definition follows :: "inj_world \<Rightarrow> inj_world \<Rightarrow> bool" where
  "follows w w' \<longleftrightarrow> (list_all move_steps (iw_moves w) \<longrightarrow>
     injector_steps (iw_conn w) (iw_conn w') \<and> list_all move_steps (iw_moves w'))"

lemma follows_refl [simp]: "follows w w"
  by (simp add: follows_def)

lemma follows_trans: "follows u v \<Longrightarrow> follows v w \<Longrightarrow> follows u w"
  unfolding follows_def by (meson rtranclp_trans)

lemma follows_interfere: "follows w (interfere w)"
  by (auto simp: follows_def interfere_def move_steps_def split: list.split)

lemma follows_start: "follows w (interfere (w_sleep d w))"
  by (simp add: w_sleep_def follows_interfere)

lemma follows_IsMonitoring: "follows w (snd (w_IsMonitoring w))"
  by (simp add: w_IsMonitoring_def Let_def follows_interfere)

lemma follows_log: "follows w (w_log m w)"
  by (simp add: follows_def w_log_def)

lemma follows_conn: "injector_step (iw_conn w) c \<Longrightarrow> follows w (w\<lparr>iw_conn := c, iw_effects := es\<rparr>)"
  by (simp add: follows_def r_into_rtranclp)

lemma follows_store: "(\<And>c. injector_step c (f c)) \<Longrightarrow> follows w (w_store f w)"
  unfolding w_store_def Let_def
  by (rule follows_trans [OF follows_interfere]) (simp add: follows_def r_into_rtranclp)

lemma follows_locked: "(\<And>c. injector_step c (fst (f c))) \<Longrightarrow> follows w (w_locked f w)"
  unfolding w_locked_def Let_def case_prod_unfold by (rule follows_trans [OF follows_interfere follows_conn])

lemma follows_end: "follows w (endInjection w)"
  unfolding endInjection_def by (rule follows_store [OF ended])

lemma follows_conclude: "follows w (concludeInjection w)"
proof -
  define w1 where "w1 = w_store (\<lambda>c. c\<lparr>FakeSent := True\<rparr>) w"
  have w1: "follows w w1" "FakeSent (iw_conn w1)"
    using follows_store [OF sent] by (simp_all add: w1_def w_store_def Let_def)
  have signal: "follows w1 (w_locked signalIfMonitoring (interfere w1))"
    unfolding follows_def
  proof
    assume m: "list_all move_steps (iw_moves w1)"
    let ?w = "interfere (interfere w1)"
    have w2: "injector_steps (iw_conn w1) (iw_conn ?w)" "list_all move_steps (iw_moves ?w)"
      using follows_trans [OF follows_interfere follows_interfere] m unfolding follows_def by blast+
    then have "FakeSent (iw_conn ?w)" using injector_steps_later [OF w2(1)] w1(2) by (simp add: later_def)
    then have "injector_steps (iw_conn w1) (fst (signalIfMonitoring (iw_conn ?w)))"
      using w2(1) injector_step.signal by (meson rtranclp.rtrancl_into_rtrancl)
    with w2(2) show "injector_steps (iw_conn w1) (iw_conn (w_locked signalIfMonitoring (interfere w1))) \<and>
        list_all move_steps (iw_moves (w_locked signalIfMonitoring (interfere w1)))"
      by (simp add: w_locked_def Let_def case_prod_unfold)
  qed
  from follows_trans [OF w1(1) signal] follows_trans [OF w1(1) follows_interfere]
  show ?thesis by (simp add: concludeInjection_def Let_def flip: w1_def)
qed

lemma follows_abort: "follows w (w_locked AbortUnexpectedCloseLocked w)"
  by (rule follows_locked [OF aborted])

sublocale raw_sender \<subseteq> steps: world_relation send w_sleep "Some w_IsMonitoring" follows
  by unfold_locales
    (auto simp: w_sleep_def continues_def follows_IsMonitoring intro: follows_trans,
     simp add: follows_def send_conn send_moves)

context raw_sender
begin

lemma repeatLoop_follows: "repeatLoop nicMTU rawCopy send repeat i w = (d, w') \<Longrightarrow> follows w w'"
proof (induction "nat (repeat - int i)" arbitrary: i w rule: less_induct)
  case less
  show ?case
  proof (cases "int i < repeat")
    case True
    obtain b w1 where w1: "w_IsMonitoring w = (b, w1)" by fastforce
    let ?conn = "iw_conn w1"
    obtain x w2 where x: "injectWrongSeqClientHello nicMTU rawCopy ?conn (Some w_IsMonitoring) send w_sleep w1 = (x, w2)" by fastforce
    have 1: "follows w w1" using follows_IsMonitoring [of w] w1 by simp
    have 2: "follows w w2" using follows_trans [OF 1, of w2] steps.inject_rel [of w1 nicMTU rawCopy ?conn] x by simp
    have abort: "follows w (w_locked AbortUnexpectedCloseLocked (w_log m w2))" for m
      by (rule follows_trans [OF follows_trans [OF 2 follows_log] follows_abort])
    have IH: "follows w w'" if "follows w v" "repeatLoop nicMTU rawCopy send repeat (i + 1) v = (d, w')" for v
      using follows_trans [OF that(1) less.hyps [OF _ that(2)]] True by simp
    show ?thesis
    proof (cases "b \<and> x = None")
      case ok: True
      obtain m where m: "repeatLoop nicMTU rawCopy send repeat i w =
          (if int (i + 1) < repeat \<and> FakeDelay ?conn > 0 then
             (case sleepWhileContinue (FakeDelay ?conn) (Some w_IsMonitoring) w_sleep (w_log m w2) of
                (False, w) \<Rightarrow> (False, w)
              | (True, w) \<Rightarrow> repeatLoop nicMTU rawCopy send repeat (i + 1) w)
           else repeatLoop nicMTU rawCopy send repeat (i + 1) (w_log m w2))"
        using True ok w1 x by (simp add: repeatLoop.simps [of nicMTU rawCopy send repeat i w] Let_def)
      have 3: "follows w (w_log m w2)" using 2 follows_log by (rule follows_trans)
      obtain c v where v: "sleepWhileContinue (FakeDelay ?conn) (Some w_IsMonitoring) w_sleep (w_log m w2) = (c, v)" by fastforce
      have "follows w v"
        using follows_trans [OF 3, of v] steps.sleepLoop_rel [of "w_log m w2" "FakeDelay ?conn"] v
        by (simp add: sleepWhileContinue_def)
      then show ?thesis using less.prems m v IH 3 by (cases c) (auto split: if_splits)
    next
      case False
      then have "\<not> b \<and> w' = w1 \<or> w' = w2 \<or> (\<exists>m. w' = w_locked AbortUnexpectedCloseLocked (w_log m w2))"
        using less.prems [unfolded repeatLoop.simps [of _ _ _ repeat i w] Let_def w1] x True
        by (cases b; cases x) (auto split: inject_error.splits)
      with 1 2 abort show ?thesis by auto
    qed
  qed (use less.prems in \<open>simp add: repeatLoop.simps\<close>)
qed

lemma repeatAndConclude_follows: "follows w (repeatAndConclude nicMTU rawCopy send w)"
  using repeatLoop_follows follows_trans [OF repeatLoop_follows follows_conclude]
  by (auto simp: repeatAndConclude_def Let_def split: prod.splits bool.splits)

lemma run_locked_follows:
  "follows w0 (let w = interfere (w_sleep 1000000 w0); conn = iw_conn w
     in if \<not> Monitor conn then endInjection w
        else if BypassMethod conn \<noteq> ''wrong_seq'' then
          let w = w_log (''not implemented bypass method: '' @ BypassMethod conn) w;
              (c, es) = AbortUnexpectedCloseLocked (iw_conn w)
          in endInjection (w\<lparr>iw_conn := c, iw_effects := iw_effects w @ es\<rparr>)
        else endInjection (repeatAndConclude nicMTU rawCopy send w))"
proof -
  let ?w = "interfere (w_sleep 1000000 w0)"
  have "follows w0 ?w" by (rule follows_start)
  note trans = follows_trans [OF follows_trans [OF this] follows_end]
  have "follows ?w (w_log m ?w\<lparr>iw_conn := fst (AbortUnexpectedCloseLocked (iw_conn (w_log m ?w)) :: unit handled), iw_effects := es\<rparr>)" for m es
    by (rule follows_trans [OF follows_log follows_conn [OF aborted]])
  with trans [OF this] trans [OF follows_refl] trans [OF repeatAndConclude_follows] show ?thesis
    by (simp add: Let_def case_prod_unfold)
qed

lemma run_windows_follows:
  "follows w0 (case w_IsMonitoring (w_sleep 1000000 w0) of
       (False, w) \<Rightarrow> endInjection w
     | (True, w) \<Rightarrow>
         if BypassMethod (iw_conn w) \<noteq> ''wrong_seq'' then
           endInjection (w_locked AbortUnexpectedCloseLocked
             (w_log (''not implemented bypass method: '' @ BypassMethod (iw_conn w)) w))
         else endInjection (repeatAndConclude nicMTU rawCopy send w))"
proof -
  obtain b w where w: "w_IsMonitoring (w_sleep 1000000 w0) = (b, w)" by fastforce
  then have "follows w0 w" using follows_IsMonitoring [of "w_sleep 1000000 w0"] by (simp add: w_sleep_def)
  note trans = follows_trans [OF follows_trans [OF this] follows_end]
  from trans [OF follows_trans [OF follows_log follows_abort]] trans [OF follows_refl] trans [OF repeatAndConclude_follows] w
  show ?thesis by (cases b) simp_all
qed

end

lemma runs_follow:
  "follows w (lx_runFakeInjectionLocked f1 rawCopy w)" "follows w (lxp_runFakeInjection f2 rawCopy w)"
  "follows w (dw_runFakeInjection f3 rawCopy w)" "follows w (wd_runFakeInjection False late f4 rawCopy w)"
  "follows w (wdp_runFakeInjection False late f5 rawCopy w)"
  unfolding lx_runFakeInjectionLocked_def lxp_runFakeInjection_def dw_runFakeInjection_def wd_runFakeInjection_def wdp_runFakeInjection_def
  by (rule linux_raw.run_locked_follows linux_frames.run_locked_follows darwin_frames.run_locked_follows
      windows_sends.run_windows_follows windows_passive_sends.run_windows_follows)+

end
