(* ===== verification/Config.thy ===== *)
theory Config
  imports Go_Strings
begin

text \<open>
  Model of \<^verbatim>\<open>network/network.go\<close> (the address check), \<^verbatim>\<open>config/connect.go\<close> (the configuration from the
  listen and connect addresses) and \<^verbatim>\<open>config/file.go\<close> (the INI file). Durations are nanoseconds. The
  resolver, the file system and the floating-point product in \<^verbatim>\<open>time.ParseDuration\<close> are parameters.
\<close>

section \<open>Addresses\<close>

definition IsIPv4 :: "string \<Rightarrow> bool" where
  "IsIPv4 s = (case ParseIP s of None \<Rightarrow> False | Some ip \<Rightarrow> IP_To4 ip \<noteq> None)"

record Config =
  ListenHost :: string
  ListenPort :: int
  ConnectIP :: string
  ConnectIPv4s :: "string list"
  ConnectPort :: int
  FakeSNI :: string
  UTLSClientHello :: string

datatype connect_error =
    BadListenAddr string string
  | BadListenPort string
  | BadConnectAddr string string
  | BadConnectPort string
  | BadListenHost string
  | NeedsFakeSNI
  | ResolveFailed string string
  | NoIPv4Address string

text \<open>The loop over the resolved addresses: IPv4 only, in order, each text once.\<close>

fun distinctIPv4s :: "byte list list \<Rightarrow> string list \<Rightarrow> string list" where
  "distinctIPv4s [] ip4s = ip4s"
| "distinctIPv4s (ip # ips) ip4s =
     (case IP_To4 ip of
        None \<Rightarrow> distinctIPv4s ips ip4s
      | Some v \<Rightarrow>
          let s = IP_String (Some v) in
          if s \<in> set ip4s then distinctIPv4s ips ip4s else distinctIPv4s ips (ip4s @ [s]))"

definition connectFromCLI ::
  "(string \<Rightarrow> string + byte list list) \<Rightarrow> string \<Rightarrow> string \<Rightarrow> string \<Rightarrow> bool \<Rightarrow> connect_error + Config" where
  "connectFromCLI LookupIP listenAddr connectAddr fakeSNIOverride allowListenPortZero =
     (case SplitHostPort listenAddr of
        Inl e \<Rightarrow> Inl (BadListenAddr listenAddr e)
      | Inr (listenHost, listenPortStr) \<Rightarrow>
     (case Atoi listenPortStr of
        None \<Rightarrow> Inl (BadListenPort listenAddr)
      | Some listenPort \<Rightarrow>
     let minListenPort = (if allowListenPortZero then 0 else 1) in
     if listenPort < minListenPort \<or> listenPort > 65535 then Inl (BadListenPort listenAddr)
     else
     (case SplitHostPort connectAddr of
        Inl e \<Rightarrow> Inl (BadConnectAddr connectAddr e)
      | Inr (connectHost, connectPortStr) \<Rightarrow>
     (case Atoi connectPortStr of
        None \<Rightarrow> Inl (BadConnectPort connectAddr)
      | Some connectPort \<Rightarrow>
     if connectPort < 1 \<or> connectPort > 65535 then Inl (BadConnectPort connectAddr)
     else if listenHost \<noteq> [] \<and> \<not> IsIPv4 listenHost then Inl (BadListenHost listenHost)
     else
     let connectHost = TrimSpace connectHost;
         fakeSNIOverride = TrimSpace fakeSNIOverride;
         cfg = \<lparr>ListenHost = listenHost, ListenPort = listenPort, ConnectIP = [], ConnectIPv4s = [],
                ConnectPort = connectPort, FakeSNI = [], UTLSClientHello = []\<rparr>
     in
     if IsIPv4 connectHost then
       let cfg = cfg\<lparr>ConnectIP := connectHost, ConnectIPv4s := [connectHost]\<rparr> in
       if fakeSNIOverride \<noteq> [] then Inr (cfg\<lparr>FakeSNI := fakeSNIOverride\<rparr>) else Inl NeedsFakeSNI
     else
     (case LookupIP connectHost of
        Inl e \<Rightarrow> Inl (ResolveFailed connectHost e)
      | Inr ips \<Rightarrow>
          let ip4s = distinctIPv4s ips [] in
          if length ip4s = 0 then Inl (NoIPv4Address connectHost)
          else Inr (cfg\<lparr>ConnectIP := ip4s ! 0, ConnectIPv4s := ip4s,
                        FakeSNI := (if fakeSNIOverride \<noteq> [] then fakeSNIOverride else connectHost)\<rparr>))))))"

definition ConnectFromCLI ::
  "(string \<Rightarrow> string + byte list list) \<Rightarrow> string \<Rightarrow> string \<Rightarrow> string \<Rightarrow> connect_error + Config" where
  "ConnectFromCLI LookupIP listenAddr connectAddr fakeSNIOverride =
     connectFromCLI LookupIP listenAddr connectAddr fakeSNIOverride False"

definition ConnectFromCLIAllowListenPortZero ::
  "(string \<Rightarrow> string + byte list list) \<Rightarrow> string \<Rightarrow> string \<Rightarrow> string \<Rightarrow> connect_error + Config" where
  "ConnectFromCLIAllowListenPortZero LookupIP listenAddr connectAddr fakeSNIOverride =
     connectFromCLI LookupIP listenAddr connectAddr fakeSNIOverride True"

section \<open>Durations\<close>

text \<open>\<^verbatim>\<open>leadingInt\<close> and \<^verbatim>\<open>leadingFraction\<close> of package \<^verbatim>\<open>time\<close>: the value, for a fraction also the number
  of digits in its scale, and the rest.\<close>

fun leadingInt :: "nat \<Rightarrow> string \<Rightarrow> (nat \<times> string) option" where
  "leadingInt x [] = Some (x, [])"
| "leadingInt x (c # cs) =
     (if \<not> is_digit c then Some (x, c # cs)
      else if x > 2 ^ 63 div 10 then None
      else let x = x * 10 + (code c - 48) in
      if x > 2 ^ 63 then None else leadingInt x cs)"

fun leadingFraction :: "nat \<Rightarrow> nat \<Rightarrow> bool \<Rightarrow> string \<Rightarrow> nat \<times> nat \<times> string" where
  "leadingFraction x scale overflow [] = (x, scale, [])"
| "leadingFraction x scale overflow (c # cs) =
     (if \<not> is_digit c then (x, scale, c # cs)
      else if overflow then leadingFraction x scale overflow cs
      else if x > (2 ^ 63 - 1) div 10 then leadingFraction x scale True cs
      else let y = x * 10 + (code c - 48) in
      if y > 2 ^ 63 then leadingFraction x scale True cs
      else leadingFraction y (scale + 1) overflow cs)"

definition unitMap :: "string \<rightharpoonup> nat" where
  "unitMap = map_of [(''ns'', 1), (''us'', 1000), (''ms'', 1000000), (''s'', 1000000000),
     (''m'', 60 * 1000000000), (''h'', 3600 * 1000000000)]"

text \<open>One pass of the loop of \<^verbatim>\<open>time.ParseDuration\<close>: a number and its unit. \<open>fracNanos f unit scale\<close> is
  the float64 product \<^verbatim>\<open>float64(f) * (float64(unit) / 10^scale)\<close>, truncated.\<close>

definition durationPart :: "(nat \<Rightarrow> nat \<Rightarrow> nat \<Rightarrow> nat) \<Rightarrow> string \<Rightarrow> (nat \<times> string) option" where
  "durationPart fracNanos s =
     (case s of
        [] \<Rightarrow> None
      | c # _ \<Rightarrow>
          if \<not> (c = CHR ''.'' \<or> is_digit c) then None
          else (case leadingInt 0 s of
                  None \<Rightarrow> None
                | Some (v, s1) \<Rightarrow>
          let pre = (length s \<noteq> length s1);
              (f, scale, s2, post) =
                (case s1 of
                   d # t \<Rightarrow> if d = CHR ''.'' then (let (f, scale, r) = leadingFraction 0 0 False t in (f, scale, r, length t \<noteq> length r))
                            else (0, 0, s1, False)
                 | [] \<Rightarrow> (0, 0, s1, False))
          in
          if \<not> pre \<and> \<not> post then None
          else
          let u = takeWhile (\<lambda>c. \<not> (c = CHR ''.'' \<or> is_digit c)) s2;
              s3 = drop (length u) s2
          in
          if u = [] then None
          else (case unitMap u of
                  None \<Rightarrow> None
                | Some unit \<Rightarrow>
                    if v > 2 ^ 63 div unit then None
                    else
                    let v = v * unit;
                        v = (if f > 0 then v + fracNanos f unit scale else v)
                    in if f > 0 \<and> v > 2 ^ 63 then None else Some (v, s3))))"

lemma leadingInt_length: "leadingInt x s = Some (v, r) \<Longrightarrow> length r \<le> length s"
  by (induction x s rule: leadingInt.induct) (auto simp: Let_def split: if_splits)

lemma leadingFraction_length: "leadingFraction x k ov s = (f, sc, r) \<Longrightarrow> length r \<le> length s"
  by (induction s arbitrary: x k ov) (auto simp: Let_def split: if_splits intro: le_SucI)

lemma durationPart_length: "durationPart fn s = Some (v, r) \<Longrightarrow> length r < length s"
proof -
  assume a: "durationPart fn s = Some (v, r)"
  have "length (drop (length (takeWhile P t)) t) < length s" if "takeWhile P t \<noteq> []" "length t \<le> length s" for P t
    using that by (cases t) auto
  with a show ?thesis
    by (fastforce simp: durationPart_def Let_def split: list.splits option.splits if_splits prod.splits
        dest!: leadingInt_length leadingFraction_length)
qed

function durationLoop :: "(nat \<Rightarrow> nat \<Rightarrow> nat \<Rightarrow> nat) \<Rightarrow> nat \<Rightarrow> string \<Rightarrow> nat option" where
  "durationLoop fn d s =
     (if s = [] then Some d
      else case durationPart fn s of
             None \<Rightarrow> None
           | Some (v, s') \<Rightarrow>
               let d = (d + v) mod 2 ^ 64 in
               if d > 2 ^ 63 then None else durationLoop fn d s')"
  by pat_completeness auto
termination
  by (relation "measure (\<lambda>(fn, d, s). length s)") (auto dest!: durationPart_length)

declare durationLoop.simps [simp del]

definition ParseDuration :: "(nat \<Rightarrow> nat \<Rightarrow> nat \<Rightarrow> nat) \<Rightarrow> string \<Rightarrow> int option" where
  "ParseDuration fracNanos s =
     (let (neg, s) = (case s of c # cs \<Rightarrow> if c = CHR ''-'' \<or> c = CHR ''+'' then (c = CHR ''-'', cs) else (False, s)
                      | [] \<Rightarrow> (False, s))
      in if s = ''0'' then Some 0
         else if s = [] then None
         else (case durationLoop fracNanos 0 s of
                 None \<Rightarrow> None
               | Some d \<Rightarrow> if neg then Some (- int d)
                          else if d > 2 ^ 63 - 1 then None else Some (int d)))"

section \<open>The configuration file\<close>

record FileOptions =
  fo_Listen :: string
  fo_Connect :: string
  fo_FakeSNI :: string
  fo_FakeRepeat :: int
  fo_FakeDelay :: int
  fo_AckTimeout :: int
  fo_Injector :: string
  fo_UTLS :: string
  fo_EnableFragment :: bool
  fo_FragmentDelay :: int
  fo_SNIChunk :: int
  fo_seen :: "string set"

definition emptyFileOptions :: FileOptions where
  "emptyFileOptions =
     \<lparr>fo_Listen = [], fo_Connect = [], fo_FakeSNI = [], fo_FakeRepeat = 0, fo_FakeDelay = 0, fo_AckTimeout = 0,
      fo_Injector = [], fo_UTLS = [], fo_EnableFragment = False, fo_FragmentDelay = 0, fo_SNIChunk = 0, fo_seen = {}\<rparr>"

definition normalizeConfigKey :: "string \<Rightarrow> string" where
  "normalizeConfigKey s =
     (let s = ToLower (TrimSpace s);
          s = dropWhile (\<lambda>c. c = CHR ''-'') s
      in ReplaceAll s CHR ''_'' ''-'')"

definition Has :: "FileOptions \<Rightarrow> string \<Rightarrow> bool" where
  "Has opts key \<longleftrightarrow> normalizeConfigKey key \<in> fo_seen opts"

definition stripInlineComment :: "string \<Rightarrow> string" where
  "stripInlineComment s =
     (let s = TrimSpace s;
          kept = takeWhile (\<lambda>r. \<not> (r = CHR ''#'' \<or> r = CHR '';'')) s
      in if length kept < length s then TrimSpace kept else s)"

definition parseConfigBool :: "string \<Rightarrow> bool option" where
  "parseConfigBool s =
     (let s = ToLower (TrimSpace s) in
      if s \<in> {''1'', ''true'', ''yes'', ''y'', ''on'', ''enable'', ''enabled''} then Some True
      else if s \<in> {''0'', ''false'', ''no'', ''n'', ''off'', ''disable'', ''disabled''} then Some False
      else None)"

datatype option_error =
    NotANumber string string
  | NotADuration string string
  | NotABoolean string string
  | UnknownKey string

definition setFileOption ::
  "(nat \<Rightarrow> nat \<Rightarrow> nat \<Rightarrow> nat) \<Rightarrow> FileOptions \<Rightarrow> string \<Rightarrow> string \<Rightarrow> option_error + FileOptions" where
  "setFileOption fracNanos opts key val =
     (let number = (\<lambda>upd. case Atoi val of None \<Rightarrow> Inl (NotANumber key val) | Some n \<Rightarrow> Inr (upd n));
          duration = (\<lambda>upd. case ParseDuration fracNanos val of None \<Rightarrow> Inl (NotADuration key val) | Some d \<Rightarrow> Inr (upd d));
          r = (if key = ''listen'' then Inr (opts\<lparr>fo_Listen := val\<rparr>)
               else if key = ''connect'' then Inr (opts\<lparr>fo_Connect := val\<rparr>)
               else if key = ''fake-sni'' then Inr (opts\<lparr>fo_FakeSNI := val\<rparr>)
               else if key = ''fake-repeat'' then number (\<lambda>n. opts\<lparr>fo_FakeRepeat := n\<rparr>)
               else if key = ''fake-delay'' then duration (\<lambda>d. opts\<lparr>fo_FakeDelay := d\<rparr>)
               else if key = ''ack-timeout'' then duration (\<lambda>d. opts\<lparr>fo_AckTimeout := d\<rparr>)
               else if key = ''injector'' then Inr (opts\<lparr>fo_Injector := val\<rparr>)
               else if key = ''utls'' then Inr (opts\<lparr>fo_UTLS := val\<rparr>)
               else if key = ''enable-fragment'' then
                 (case parseConfigBool val of None \<Rightarrow> Inl (NotABoolean key val) | Some b \<Rightarrow> Inr (opts\<lparr>fo_EnableFragment := b\<rparr>))
               else if key = ''fragment-delay'' then duration (\<lambda>d. opts\<lparr>fo_FragmentDelay := d\<rparr>)
               else if key = ''sni-chunk'' then number (\<lambda>n. opts\<lparr>fo_SNIChunk := n\<rparr>)
               else Inl (UnknownKey key))
      in case r of
           Inl e \<Rightarrow> Inl e
         | Inr opts \<Rightarrow> Inr (opts\<lparr>fo_seen := insert key (fo_seen opts)\<rparr>))"

text \<open>\<^verbatim>\<open>bufio.Scanner\<close> with its default line splitting: the lines without their line ends and a
  trailing carriage return; a line of 64 KiB or more stops the scan with an error.\<close>

definition MaxScanTokenSize :: nat where
  "MaxScanTokenSize = 65536"

function rawLines :: "string \<Rightarrow> string list" where
  "rawLines data =
     (if data = [] then []
      else let line = takeWhile (\<lambda>c. c \<noteq> CHR 0x0A) data
           in line # rawLines (drop (length line + 1) data))"
  by pat_completeness auto
termination
  by (relation "measure length") auto

declare rawLines.simps [simp del]

definition dropCR :: "string \<Rightarrow> string" where
  "dropCR s = (if s \<noteq> [] \<and> last s = CHR 0x0D then butlast s else s)"

datatype file_error =
    OpenError string
  | ExpectedKeyValue nat
  | BadOption nat option_error
  | LineTooLong

text \<open>The loop over the lines; \<open>lineNo\<close> counts the lines read before.\<close>

fun loadLines ::
  "(nat \<Rightarrow> nat \<Rightarrow> nat \<Rightarrow> nat) \<Rightarrow> nat \<Rightarrow> FileOptions \<Rightarrow> string list \<Rightarrow> file_error + FileOptions" where
  "loadLines fracNanos lineNo opts [] = Inr opts"
| "loadLines fracNanos lineNo opts (raw # rest) =
     (if length raw \<ge> MaxScanTokenSize then Inl LineTooLong
      else let lineNo = lineNo + 1; line = TrimSpace (dropCR raw) in
      if line = [] \<or> HasPrefix line ''#'' \<or> HasPrefix line '';'' then loadLines fracNanos lineNo opts rest
      else if HasPrefix line ''['' \<and> HasSuffix line '']'' then loadLines fracNanos lineNo opts rest
      else let (k, v, ok) = Cut line CHR ''='';
               (k, v, ok) = (if \<not> ok then Cut line CHR '':'' else (k, v, ok))
      in if \<not> ok then Inl (ExpectedKeyValue lineNo)
      else let key = normalizeConfigKey k;
               val = TrimSpace (stripInlineComment v)
      in case setFileOption fracNanos opts key val of
           Inl e \<Rightarrow> Inl (BadOption lineNo e)
         | Inr opts \<Rightarrow> loadLines fracNanos lineNo opts rest)"

definition LoadFileOptions ::
  "(nat \<Rightarrow> nat \<Rightarrow> nat \<Rightarrow> nat) \<Rightarrow> (string \<Rightarrow> string + string) \<Rightarrow> string \<Rightarrow> file_error + FileOptions" where
  "LoadFileOptions fracNanos Open path =
     (case Open path of
        Inl e \<Rightarrow> Inl (OpenError e)
      | Inr data \<Rightarrow> loadLines fracNanos 0 emptyFileOptions (rawLines data))"

section \<open>Reading back numbers and durations\<close>

abbreviation value_of :: "nat \<Rightarrow> string \<Rightarrow> nat" where
  "value_of x ds \<equiv> foldl (\<lambda>acc c. acc * 10 + (code c - 48)) x ds"

lemma value_of_mono: "x \<le> value_of x ds"
proof (induction ds arbitrary: x)
  case (Cons c ds)
  have "x \<le> x * 10 + (code c - 48)" by simp
  also have "\<dots> \<le> value_of (x * 10 + (code c - 48)) ds" by (rule Cons)
  finally show ?case by simp
qed simp

lemma leadingInt_digits:
  "list_all is_digit ds \<Longrightarrow> value_of x ds \<le> 2 ^ 63 \<Longrightarrow> r = [] \<or> \<not> is_digit (hd r) \<Longrightarrow>
    leadingInt x (ds @ r) = Some (value_of x ds, r)"
proof (induction ds arbitrary: x)
  case Nil
  then show ?case by (cases r) auto
next
  case (Cons c cs)
  have "x * 10 + (code c - 48) \<le> 2 ^ 63"
    using Cons.prems(2) value_of_mono [of "x * 10 + (code c - 48)" cs] by simp
  then show ?case using Cons by (simp add: Let_def)
qed

lemma decimal_is_digits: "list_all is_digit (decimal n)"
  by (auto simp: list_all_iff is_digit_decimal)

lemma decimal_head: "\<exists>c cs. decimal n = c # cs \<and> is_digit c \<and> c \<noteq> CHR ''-'' \<and> c \<noteq> CHR ''+''"
proof -
  obtain c cs where d: "decimal n = c # cs" using decimal_nonempty [of n] by (cases "decimal n") auto
  then have "is_digit c" using decimal_is_digits [of n] by simp
  moreover have "\<not> is_digit CHR ''-''" "\<not> is_digit CHR ''+''" by (simp_all add: is_digit_def)
  ultimately show ?thesis using d by metis
qed

lemma leadingInt_decimal:
  "n \<le> 2 ^ 63 \<Longrightarrow> \<not> is_digit (hd r) \<Longrightarrow> leadingInt 0 (decimal n @ r) = Some (n, r)"
  using leadingInt_digits [OF decimal_is_digits, of 0 n r] undecimal_decimal [of n] by simp

lemma digits_decimal: "digits (decimal n) = Some n"
  using undecimal_decimal [of n] by (simp add: digits_def decimal_is_digits del: undecimal.simps)

lemma Atoi_decimal_int: "- (2 ^ 63) \<le> n \<Longrightarrow> n < 2 ^ 63 \<Longrightarrow> Atoi (decimal_int n) = Some n"
proof (cases "n < 0")
  case True
  then show "- (2 ^ 63) \<le> n \<Longrightarrow> ?thesis" by (simp add: Atoi_def decimal_int_def digits_decimal)
next
  case False
  obtain c cs where "decimal (nat n) = c # cs" "c \<noteq> CHR ''-''" "c \<noteq> CHR ''+''" using decimal_head by blast
  with False show "n < 2 ^ 63 \<Longrightarrow> ?thesis"
    using digits_decimal [of "nat n"] by (simp add: Atoi_def decimal_int_def)
qed

definition printDuration :: "int \<Rightarrow> string" where
  "printDuration d = decimal_int d @ ''ns''"

lemma durationPart_ns: "n \<le> 2 ^ 63 \<Longrightarrow> durationPart fn (decimal n @ ''ns'') = Some (n, [])"
  using decimal_head [of n] leadingInt_decimal [of n "''ns''"]
  by (auto simp: durationPart_def Let_def unitMap_def is_digit_def)

lemma durationLoop_ns: "n \<le> 2 ^ 63 \<Longrightarrow> durationLoop fn 0 (decimal n @ ''ns'') = Some n"
  by (subst durationLoop.simps) (simp add: durationPart_ns Let_def durationLoop.simps [of fn n])

lemma ParseDuration_print: "- (2 ^ 63) \<le> d \<Longrightarrow> d < 2 ^ 63 \<Longrightarrow> ParseDuration fn (printDuration d) = Some d"
proof (cases "d < 0")
  case True
  obtain c cs where "decimal (nat (- d)) = c # cs" using decimal_head by blast
  with True show "- (2 ^ 63) \<le> d \<Longrightarrow> ?thesis"
    using durationLoop_ns [of "nat (- d)" fn] by (simp add: ParseDuration_def printDuration_def decimal_int_def)
next
  case False
  obtain c cs where "decimal (nat d) = c # cs" "c \<noteq> CHR ''-''" "c \<noteq> CHR ''+''" using decimal_head by blast
  with False show "d < 2 ^ 63 \<Longrightarrow> ?thesis"
    using durationLoop_ns [of "nat d" fn] by (simp add: ParseDuration_def printDuration_def decimal_int_def)
qed

section \<open>Reading back a configuration file\<close>

definition config_keys :: "string list" where
  "config_keys = [''listen'', ''connect'', ''fake-sni'', ''fake-repeat'', ''fake-delay'', ''ack-timeout'', ''injector'',
     ''utls'', ''enable-fragment'', ''fragment-delay'', ''sni-chunk'']"

definition trimmed :: "string \<Rightarrow> bool" where
  "trimmed s \<longleftrightarrow> s = [] \<or> \<not> is_space (hd s) \<and> \<not> is_space (last s)"

definition clean_value :: "string \<Rightarrow> bool" where
  "clean_value v \<longleftrightarrow> trimmed v \<and> CHR ''#'' \<notin> set v \<and> CHR '';'' \<notin> set v \<and> CHR 0x0A \<notin> set v \<and> length v < 65000"

lemma TrimSpace_trimmed [simp]: "trimmed s \<Longrightarrow> TrimSpace s = s"
  by (cases "s = []") (auto simp: trimmed_def TrimSpace_def dropWhile_eq_self_iff [THEN iffD2] hd_rev)

definition plain_key :: "string \<Rightarrow> bool" where
  "plain_key k \<longleftrightarrow> k \<noteq> [] \<and> normalizeConfigKey k = k \<and> \<not> is_space (hd k) \<and> hd k \<notin> {CHR ''#'', CHR '';'', CHR ''[''} \<and>
     CHR ''='' \<notin> set k \<and> CHR 0x0A \<notin> set k \<and> length k < 20"

lemma config_keys_plain: "list_all plain_key config_keys"
  by code_simp

lemma loadLines_setting:
  assumes "plain_key k" and "clean_value v"
  shows "loadLines fn n opts ((k @ ''='' @ v) # rest) =
    (case setFileOption fn opts k v of Inl e \<Rightarrow> Inl (BadOption (n + 1) e) | Inr opts \<Rightarrow> loadLines fn (n + 1) opts rest)"
proof -
  let ?l = "k @ ''='' @ v"
  have t: "trimmed ?l" "trimmed v" using assms by (auto simp: trimmed_def plain_key_def clean_value_def is_space_def)
  then have "dropCR ?l = ?l" by (auto simp: dropCR_def trimmed_def is_space_def)
  moreover have "takeWhile (\<lambda>x. x \<noteq> CHR ''='') ?l = k"
    using assms(1) by (subst takeWhile_append2) (auto simp: plain_key_def)
  then have "Cut ?l CHR ''='' = (k, v, True)" by (simp add: Cut_def Let_def)
  moreover have "takeWhile (\<lambda>r. \<not> (r = CHR ''#'' \<or> r = CHR '';'')) v = v"
    using assms(2) by (auto simp: takeWhile_eq_all_conv clean_value_def)
  then have "TrimSpace (stripInlineComment v) = v" using t(2) by (simp only: stripInlineComment_def Let_def TrimSpace_trimmed) simp
  moreover have "\<not> HasPrefix ?l ''#''" "\<not> HasPrefix ?l '';''" "\<not> HasPrefix ?l ''[''"
    using assms(1) by (cases k; simp add: HasPrefix_def plain_key_def)+
  moreover have "length ?l < MaxScanTokenSize" "normalizeConfigKey k = k"
    using assms by (simp_all add: MaxScanTokenSize_def plain_key_def clean_value_def)
  ultimately show ?thesis using t(1) by (simp only: loadLines.simps Let_def) simp
qed

lemma rawLines_concat:
  "list_all (\<lambda>l. CHR 0x0A \<notin> set l) ls \<Longrightarrow> rawLines (concat (map (\<lambda>l. l @ [CHR 0x0A]) ls)) = ls"
proof (induction ls)
  case (Cons l ls)
  then have "takeWhile (\<lambda>c. c \<noteq> CHR 0x0A) (l @ [CHR 0x0A] @ concat (map (\<lambda>l. l @ [CHR 0x0A]) ls)) = l"
    by (subst takeWhile_append2) auto
  with Cons show ?case by (subst rawLines.simps) (simp add: Let_def)
qed (simp add: rawLines.simps)

lemma length_decimal: "n < 10 ^ Suc k \<Longrightarrow> length (decimal n) \<le> Suc k"
proof (induction k arbitrary: n)
  case (Suc k)
  then have "length (decimal (n div 10)) \<le> Suc k" by simp
  then show ?case by (subst decimal.simps) simp
qed (simp add: decimal_small)

lemma clean_digits: "list_all is_digit ds \<Longrightarrow> ds \<noteq> [] \<Longrightarrow> length ds < 1000 \<Longrightarrow> clean_value ds"
  "list_all is_digit ds \<Longrightarrow> ds \<noteq> [] \<Longrightarrow> length ds < 1000 \<Longrightarrow> clean_value (CHR ''-'' # ds)"
proof -
  assume ds: "list_all is_digit ds" "ds \<noteq> []" "length ds < 1000"
  have d: "\<not> is_space c \<and> c \<noteq> CHR ''#'' \<and> c \<noteq> CHR '';'' \<and> c \<noteq> CHR 0x0A" if "is_digit c" for c
    using that by (auto simp: is_digit_def is_space_def)
  with ds show "clean_value ds" "clean_value (CHR ''-'' # ds)"
    by (auto simp: clean_value_def trimmed_def list_all_iff is_space_def dest: hd_in_set last_in_set)
qed

definition int64 :: "int \<Rightarrow> bool" where
  "int64 i \<longleftrightarrow> - (2 ^ 63) \<le> i \<and> i < 2 ^ 63"

lemma int64_digits: "int64 i \<Longrightarrow> length (decimal (nat i)) \<le> 20 \<and> length (decimal (nat (- i))) \<le> 20"
  using length_decimal [of "nat i" 19] length_decimal [of "nat (- i)" 19] by (cases "0 \<le> i") (auto simp: int64_def nat_less_iff)

lemma clean_decimal_int: "int64 i \<Longrightarrow> clean_value (decimal_int i)"
  using clean_digits [OF decimal_is_digits decimal_nonempty] int64_digits [of i] by (simp add: decimal_int_def)

lemma clean_printDuration: "int64 d \<Longrightarrow> clean_value (printDuration d)"
proof -
  assume d: "int64 d"
  have "length (decimal_int d) < 1000" using int64_digits [OF d] by (simp add: decimal_int_def)
  then show ?thesis
    using clean_decimal_int [OF d] by (auto simp: clean_value_def printDuration_def trimmed_def decimal_int_def is_space_def)
qed

definition printBool :: "bool \<Rightarrow> string" where
  "printBool b = (if b then ''yes'' else ''no'')"

definition settings :: "FileOptions \<Rightarrow> (string \<times> string) list" where
  "settings opts = zip config_keys
     [fo_Listen opts, fo_Connect opts, fo_FakeSNI opts, decimal_int (fo_FakeRepeat opts), printDuration (fo_FakeDelay opts),
      printDuration (fo_AckTimeout opts), fo_Injector opts, fo_UTLS opts, printBool (fo_EnableFragment opts),
      printDuration (fo_FragmentDelay opts), decimal_int (fo_SNIChunk opts)]"

definition printFile :: "FileOptions \<Rightarrow> string" where
  "printFile opts = concat (map (\<lambda>l. l @ [CHR 0x0A]) (map (\<lambda>(k, v). k @ ''='' @ v) (settings opts)))"

definition writable :: "FileOptions \<Rightarrow> bool" where
  "writable opts \<longleftrightarrow> clean_value (fo_Listen opts) \<and> clean_value (fo_Connect opts) \<and> clean_value (fo_FakeSNI opts) \<and>
     clean_value (fo_Injector opts) \<and> clean_value (fo_UTLS opts) \<and> int64 (fo_FakeRepeat opts) \<and> int64 (fo_FakeDelay opts) \<and>
     int64 (fo_AckTimeout opts) \<and> int64 (fo_FragmentDelay opts) \<and> int64 (fo_SNIChunk opts)"

lemma settings_clean: "writable opts \<Longrightarrow> list_all (\<lambda>(k, v). plain_key k \<and> clean_value v) (settings opts)"
proof -
  assume w: "writable opts"
  have "clean_value (printBool b)" for b by (auto simp: printBool_def clean_value_def trimmed_def is_space_def)
  then show ?thesis
    using w config_keys_plain by (simp add: settings_def config_keys_def writable_def clean_decimal_int clean_printDuration)
qed

fun setAll :: "(nat \<Rightarrow> nat \<Rightarrow> nat \<Rightarrow> nat) \<Rightarrow> FileOptions \<Rightarrow> (string \<times> string) list \<Rightarrow> FileOptions option" where
  "setAll fn opts [] = Some opts"
| "setAll fn opts ((k, v) # kvs) = (case setFileOption fn opts k v of Inl _ \<Rightarrow> None | Inr opts \<Rightarrow> setAll fn opts kvs)"

lemma loadLines_settings:
  "list_all (\<lambda>(k, v). plain_key k \<and> clean_value v) kvs \<Longrightarrow> setAll fn opts kvs = Some opts' \<Longrightarrow>
    loadLines fn n opts (map (\<lambda>(k, v). k @ ''='' @ v) kvs) = Inr opts'"
proof (induction fn opts kvs arbitrary: n rule: setAll.induct)
  case (2 fn opts k v kvs)
  then show ?case
    using loadLines_setting [of k v fn n opts "map (\<lambda>(k, v). k @ ''='' @ v) kvs"]
    by (simp del: loadLines.simps(2) split: sum.splits)
qed simp

lemma parseConfigBool_print: "parseConfigBool (printBool b) = Some b"
proof -
  have "parseConfigBool (printBool True) = Some True" "parseConfigBool (printBool False) = Some False" by code_simp+
  then show ?thesis by (cases b) simp_all
qed

lemma setAll_settings:
  "writable opts \<Longrightarrow> setAll fn emptyFileOptions (settings opts) = Some (opts\<lparr>fo_seen := set config_keys\<rparr>)"
  unfolding set_rev [of config_keys, symmetric]
  by (cases opts)
    (simp add: settings_def config_keys_def setFileOption_def writable_def int64_def Atoi_decimal_int ParseDuration_print
      parseConfigBool_print emptyFileOptions_def del: set_rev)

lemma load_printFile:
  assumes "writable opts" and "Open path = Inr (printFile opts)"
  shows "LoadFileOptions fracNanos Open path = Inr (opts\<lparr>fo_seen := set config_keys\<rparr>)"
proof -
  note clean = settings_clean [OF assms(1)]
  then have "list_all (\<lambda>l. CHR 0x0A \<notin> set l) (map (\<lambda>(k, v). k @ ''='' @ v) (settings opts))"
    by (auto simp: list_all_iff plain_key_def clean_value_def)
  then have "rawLines (printFile opts) = map (\<lambda>(k, v). k @ ''='' @ v) (settings opts)"
    unfolding printFile_def by (rule rawLines_concat)
  then show ?thesis
    using loadLines_settings [OF clean setAll_settings [OF assms(1)]] assms(2) by (simp add: LoadFileOptions_def)
qed

text \<open>
  C13. Writing the options as an INI file and loading it gives them back, with every option marked as set,
  for all texts without comment characters, line ends and outer blanks and all numbers and durations of
  64 bits.
\<close>

theorem config_file_roundtrip:
  assumes "writable opts" and "Open path = Inr (printFile opts)"
  shows "LoadFileOptions fracNanos Open path = Inr (opts\<lparr>fo_seen := set config_keys\<rparr>)"
  using assms by (rule load_printFile)

definition sample_options :: FileOptions where
  "sample_options =
     \<lparr>fo_Listen = '':8080'', fo_Connect = ''1.1.1.1:443'', fo_FakeSNI = ''a.b'', fo_FakeRepeat = 2, fo_FakeDelay = 5000000,
      fo_AckTimeout = 3000000000, fo_Injector = ''passive'', fo_UTLS = ''none'', fo_EnableFragment = True,
      fo_FragmentDelay = 250000000, fo_SNIChunk = 4, fo_seen = set config_keys\<rparr>"

lemma sample_options_writable: "writable sample_options"
  by (simp add: writable_def sample_options_def clean_value_def trimmed_def is_space_def int64_def)

lemma sample_options_seen: "sample_options\<lparr>fo_seen := set config_keys\<rparr> = sample_options"
  by (simp add: sample_options_def)

theorem config_file_roundtrip_witness:
  "writable sample_options \<and> LoadFileOptions (\<lambda>_ _ _. 0) (\<lambda>_. Inr (printFile sample_options)) ''config.ini'' = Inr sample_options"
  using sample_options_writable config_file_roundtrip [OF sample_options_writable] sample_options_seen by simp

end
