(* ===== verification/ClientHello_Legacy.thy ===== *)
theory ClientHello_Legacy
  imports CH_Fragment Go_Strings
begin

text \<open>
  Model of \<^verbatim>\<open>packet/clienthello_legacy.go\<close>, of the name handling in
  \<^verbatim>\<open>packet/utls_clienthello_id.go\<close>, of the framing in \<^verbatim>\<open>packet/clienthello_utls.go\<close> and of
  \<^verbatim>\<open>buildFakeClientHello\<close> in \<^verbatim>\<open>main.go\<close>: the fake ClientHello that is injected. The random bytes are
  arguments; the uTLS library is a parameter.
\<close>

section \<open>The template\<close>

definition MaxLegacyFakeSNILen :: nat where
  "MaxLegacyFakeSNILen = 219"

definition legacyClientHelloTemplateHex :: string where
  "legacyClientHelloTemplateHex =
     ''1603010200010001fc030341d5b549d9cd1adfa7296c8418d157dc7b624c842824ff493b9375bb48d34f2b20'' @
     ''bf018bcc90a7c89a230094815ad0c15b736e38c01209d72d282cb5e2105328150024130213031301c02cc030'' @
     ''c02bc02fcca9cca8c024c028c023c027009f009e006b006700ff0100018f0000000b00090000066d63692e69'' @
     ''72000b000403000102000a00160014001d0017001e0019001801000101010201030104002300000010000e00'' @
     ''0c02683208687474702f312e310016000000170000000d002a0028040305030603080708080809080a080b08'' @
     ''0408050806040105010601030303010302040205020602002b00050403040303002d00020101003300260024'' @
     ''001d0020435bacc4d05f9d41fef44ab3ad55616c36e0613473e2338770efdaa98693d217001500d500000000'' @
     ''0000000000000000000000000000000000000000000000000000000000000000000000000000000000000000'' @
     ''0000000000000000000000000000000000000000000000000000000000000000000000000000000000000000'' @
     ''0000000000000000000000000000000000000000000000000000000000000000000000000000000000000000'' @
     ''0000000000000000000000000000000000000000000000000000000000000000000000000000000000000000'' @
     ''000000000000000000000000000000000000000000000000000000000000000000''"

text \<open>\<^verbatim>\<open>hex.DecodeString\<close>.\<close>

fun hexDecode :: "string \<Rightarrow> byte list option" where
  "hexDecode [] = Some []"
| "hexDecode [c] = None"
| "hexDecode (c # d # cs) =
     (case (hex_value c, hex_value d, hexDecode cs) of
        (Some a, Some b, Some bs) \<Rightarrow> Some (of_nat (16 * a + b) # bs)
      | _ \<Rightarrow> None)"

definition legacyClientHelloTemplate :: "byte list" where
  "legacyClientHelloTemplate = (case hexDecode legacyClientHelloTemplateHex of None \<Rightarrow> [] | Some bs \<Rightarrow> bs)"

text \<open>\<^verbatim>\<open>[]byte(s)\<close>.\<close>

definition bytes_of :: "string \<Rightarrow> byte list" where
  "bytes_of s = map (\<lambda>c. of_nat (code c)) s"

definition legacyTemplateSNI :: "byte list" where
  "legacyTemplateSNI = bytes_of ''mci.ir''"

definition legacyClientHelloStatic1 :: "byte list" where
  "legacyClientHelloStatic1 = subslice legacyClientHelloTemplate 0 11"

definition legacyClientHelloStatic3 :: "byte list" where
  "legacyClientHelloStatic3 = subslice legacyClientHelloTemplate 76 120"

definition legacyClientHelloStatic4 :: "byte list" where
  "legacyClientHelloStatic4 =
     (let sniLen = length legacyTemplateSNI in subslice legacyClientHelloTemplate (127 + sniLen) (262 + sniLen))"

section \<open>Building the record\<close>

definition appendUint16BE :: "byte list \<Rightarrow> u16 \<Rightarrow> byte list" where
  "appendUint16BE buf v = buf @ [ucast (drop_bit 8 v), ucast v]"

definition buildLegacyClientHelloRecordWith :: "byte list \<Rightarrow> byte list \<Rightarrow> byte list \<Rightarrow> byte list \<Rightarrow> byte list" where
  "buildLegacyClientHelloRecordWith rnd sessID targetSNI keyShare =
     (let sniLen = length targetSNI;
          serverNameExt = appendUint16BE [] (of_nat (sniLen + 5));
          serverNameExt = appendUint16BE serverNameExt (of_nat (sniLen + 3));
          serverNameExt = serverNameExt @ [0x00];
          serverNameExt = appendUint16BE serverNameExt (of_nat sniLen);
          serverNameExt = serverNameExt @ targetSNI;
          paddingLen = MaxLegacyFakeSNILen - sniLen;
          paddingExt = appendUint16BE [] (of_nat paddingLen);
          paddingExt = paddingExt @ replicate paddingLen 0
      in legacyClientHelloStatic1 @ rnd @ [0x20] @ sessID @ legacyClientHelloStatic3 @ serverNameExt @
         legacyClientHelloStatic4 @ keyShare @ [0x00, 0x15] @ paddingExt)"

text \<open>The three reads of \<^verbatim>\<open>crypto/rand\<close> are arguments; each gives 32 bytes or fails.\<close>

definition BuildLegacyClientHelloRecord ::
  "(string + byte list) \<Rightarrow> (string + byte list) \<Rightarrow> (string + byte list) \<Rightarrow> string \<Rightarrow> string + byte list" where
  "BuildLegacyClientHelloRecord rand1 rand2 rand3 serverName =
     (if serverName = [] then Inl ''packet: empty server name''
      else let targetSNI = bytes_of serverName in
      if length targetSNI > MaxLegacyFakeSNILen
      then Inl (''packet: server name too long for legacy ClientHello ('' @ decimal (length targetSNI) @
             '' bytes; max '' @ decimal MaxLegacyFakeSNILen @ '')'')
      else (case rand1 of
              Inl e \<Rightarrow> Inl (''packet: random: '' @ e)
            | Inr rnd \<Rightarrow> (case rand2 of
                Inl e \<Rightarrow> Inl (''packet: session id: '' @ e)
              | Inr sessID \<Rightarrow> (case rand3 of
                  Inl e \<Rightarrow> Inl (''packet: key share: '' @ e)
                | Inr keyShare \<Rightarrow> Inr (buildLegacyClientHelloRecordWith rnd sessID targetSNI keyShare)))))"

section \<open>Choosing the fake\<close>

definition LegacyUTLSName :: string where
  "LegacyUTLSName = ''none''"

definition IsLegacyUTLS :: "string \<Rightarrow> bool" where
  "IsLegacyUTLS s = EqualFold (TrimSpace s) LegacyUTLSName"

text \<open>\<^verbatim>\<open>ParseClientHelloID\<close> over the table of names, whose values and whose default are uTLS's.\<close>

definition ParseClientHelloID :: "'id \<Rightarrow> (string \<rightharpoonup> 'id) \<Rightarrow> string \<Rightarrow> string + 'id" where
  "ParseClientHelloID DefaultClientHelloID clientHelloIDByName s =
     (let s = TrimSpace s in
      if IsLegacyUTLS s then Inl (Quote s @ '' selects the legacy ClientHello template (not a uTLS preset)'')
      else if s = [] then Inr DefaultClientHelloID
      else (case clientHelloIDByName (ToLower s) of
              Some i \<Rightarrow> Inr i
            | None \<Rightarrow>
                (case clientHelloIDByName (ToLower (ReplaceAll s CHR ''-'' ''_'')) of
                   Some i \<Rightarrow> Inr i
                 | None \<Rightarrow> Inl (''unknown uTLS ClientHello ID '' @ Quote s @ '' (see -h for valid names)''))))"

definition recordHeaderHandshakeTLS13Client :: "nat \<Rightarrow> byte list" where
  "recordHeaderHandshakeTLS13Client fragmentLen =
     [22, 0x03, 0x03, of_nat (fragmentLen div 256), of_nat fragmentLen]"

text \<open>\<^verbatim>\<open>BuildClientHelloRecord\<close>; \<open>handshakeRaw\<close> is what uTLS builds for the name and preset.\<close>

definition BuildClientHelloRecord ::
  "(string \<Rightarrow> 'id \<Rightarrow> string + byte list) \<Rightarrow> string \<Rightarrow> 'id \<Rightarrow> string + byte list" where
  "BuildClientHelloRecord handshakeRaw serverName i =
     (if serverName = [] then Inl ''packet: empty server name''
      else (case handshakeRaw serverName i of
              Inl e \<Rightarrow> Inl (''packet: build ClientHello: '' @ e)
            | Inr handshake \<Rightarrow>
                if length handshake = 0 then Inl ''packet: empty ClientHello handshake''
                else Inr (recordHeaderHandshakeTLS13Client (length handshake) @ handshake)))"

definition buildFakeClientHello ::
  "(string + byte list) \<Rightarrow> (string + byte list) \<Rightarrow> (string + byte list) \<Rightarrow> 'id \<Rightarrow> (string \<rightharpoonup> 'id) \<Rightarrow>
   (string \<Rightarrow> 'id \<Rightarrow> string + byte list) \<Rightarrow> string \<Rightarrow> string \<Rightarrow> string + byte list" where
  "buildFakeClientHello rand1 rand2 rand3 DefaultClientHelloID clientHelloIDByName handshakeRaw fakeSNI utlsName =
     (if IsLegacyUTLS utlsName then BuildLegacyClientHelloRecord rand1 rand2 rand3 fakeSNI
      else (case ParseClientHelloID DefaultClientHelloID clientHelloIDByName utlsName of
              Inl e \<Rightarrow> Inl e
            | Inr clientHelloID \<Rightarrow> BuildClientHelloRecord handshakeRaw fakeSNI clientHelloID))"

section \<open>Decoding the template\<close>

lemma hex_value_simps:
  "hex_value CHR ''0'' = Some 0"
  "hex_value CHR ''1'' = Some 1"
  "hex_value CHR ''2'' = Some 2"
  "hex_value CHR ''3'' = Some 3"
  "hex_value CHR ''4'' = Some 4"
  "hex_value CHR ''5'' = Some 5"
  "hex_value CHR ''6'' = Some 6"
  "hex_value CHR ''7'' = Some 7"
  "hex_value CHR ''8'' = Some 8"
  "hex_value CHR ''9'' = Some 9"
  "hex_value CHR ''a'' = Some 10"
  "hex_value CHR ''b'' = Some 11"
  "hex_value CHR ''c'' = Some 12"
  "hex_value CHR ''d'' = Some 13"
  "hex_value CHR ''e'' = Some 14"
  "hex_value CHR ''f'' = Some 15"
  by (simp_all add: hex_value_def is_digit_def)

lemma hexDecode_append:
  "hexDecode xs = Some as \<Longrightarrow> hexDecode (xs @ ys) = map_option ((@) as) (hexDecode ys)"
proof (induction xs arbitrary: as rule: hexDecode.induct)
  case (3 c d cs)
  then show ?case by (auto split: option.splits)
next
  case 1
  then show ?case by (cases "hexDecode ys") auto
qed simp

lemma hexDecode_chunks:
  "hexDecode ''1603010200010001fc030341d5b549d9cd1adfa7296c8418d157dc7b624c842824ff493b9375bb48d34f2b20'' =
    Some [22, 3, 1, 2, 0, 1, 0, 1, 252, 3, 3, 65, 213, 181, 73, 217, 205, 26, 223, 167, 41, 108, 132, 24, 209, 87, 220, 123, 98, 76, 132, 40, 36, 255, 73, 59, 147, 117, 187, 72, 211, 79, 43, 32]"
  "hexDecode ''bf018bcc90a7c89a230094815ad0c15b736e38c01209d72d282cb5e2105328150024130213031301c02cc030'' =
    Some [191, 1, 139, 204, 144, 167, 200, 154, 35, 0, 148, 129, 90, 208, 193, 91, 115, 110, 56, 192, 18, 9, 215, 45, 40, 44, 181, 226, 16, 83, 40, 21, 0, 36, 19, 2, 19, 3, 19, 1, 192, 44, 192, 48]"
  "hexDecode ''c02bc02fcca9cca8c024c028c023c027009f009e006b006700ff0100018f0000000b00090000066d63692e69'' =
    Some [192, 43, 192, 47, 204, 169, 204, 168, 192, 36, 192, 40, 192, 35, 192, 39, 0, 159, 0, 158, 0, 107, 0, 103, 0, 255, 1, 0, 1, 143, 0, 0, 0, 11, 0, 9, 0, 0, 6, 109, 99, 105, 46, 105]"
  "hexDecode ''72000b000403000102000a00160014001d0017001e0019001801000101010201030104002300000010000e00'' =
    Some [114, 0, 11, 0, 4, 3, 0, 1, 2, 0, 10, 0, 22, 0, 20, 0, 29, 0, 23, 0, 30, 0, 25, 0, 24, 1, 0, 1, 1, 1, 2, 1, 3, 1, 4, 0, 35, 0, 0, 0, 16, 0, 14, 0]"
  "hexDecode ''0c02683208687474702f312e310016000000170000000d002a0028040305030603080708080809080a080b08'' =
    Some [12, 2, 104, 50, 8, 104, 116, 116, 112, 47, 49, 46, 49, 0, 22, 0, 0, 0, 23, 0, 0, 0, 13, 0, 42, 0, 40, 4, 3, 5, 3, 6, 3, 8, 7, 8, 8, 8, 9, 8, 10, 8, 11, 8]"
  "hexDecode ''0408050806040105010601030303010302040205020602002b00050403040303002d00020101003300260024'' =
    Some [4, 8, 5, 8, 6, 4, 1, 5, 1, 6, 1, 3, 3, 3, 1, 3, 2, 4, 2, 5, 2, 6, 2, 0, 43, 0, 5, 4, 3, 4, 3, 3, 0, 45, 0, 2, 1, 1, 0, 51, 0, 38, 0, 36]"
  "hexDecode ''001d0020435bacc4d05f9d41fef44ab3ad55616c36e0613473e2338770efdaa98693d217001500d500000000'' =
    Some [0, 29, 0, 32, 67, 91, 172, 196, 208, 95, 157, 65, 254, 244, 74, 179, 173, 85, 97, 108, 54, 224, 97, 52, 115, 226, 51, 135, 112, 239, 218, 169, 134, 147, 210, 23, 0, 21, 0, 213, 0, 0, 0, 0]"
  "hexDecode ''0000000000000000000000000000000000000000000000000000000000000000000000000000000000000000'' =
    Some [0, 0, 0, 0, 0, 0, 0, 0, 0, 0, 0, 0, 0, 0, 0, 0, 0, 0, 0, 0, 0, 0, 0, 0, 0, 0, 0, 0, 0, 0, 0, 0, 0, 0, 0, 0, 0, 0, 0, 0, 0, 0, 0, 0]"
  "hexDecode ''0000000000000000000000000000000000000000000000000000000000000000000000000000000000000000'' =
    Some [0, 0, 0, 0, 0, 0, 0, 0, 0, 0, 0, 0, 0, 0, 0, 0, 0, 0, 0, 0, 0, 0, 0, 0, 0, 0, 0, 0, 0, 0, 0, 0, 0, 0, 0, 0, 0, 0, 0, 0, 0, 0, 0, 0]"
  "hexDecode ''0000000000000000000000000000000000000000000000000000000000000000000000000000000000000000'' =
    Some [0, 0, 0, 0, 0, 0, 0, 0, 0, 0, 0, 0, 0, 0, 0, 0, 0, 0, 0, 0, 0, 0, 0, 0, 0, 0, 0, 0, 0, 0, 0, 0, 0, 0, 0, 0, 0, 0, 0, 0, 0, 0, 0, 0]"
  "hexDecode ''0000000000000000000000000000000000000000000000000000000000000000000000000000000000000000'' =
    Some [0, 0, 0, 0, 0, 0, 0, 0, 0, 0, 0, 0, 0, 0, 0, 0, 0, 0, 0, 0, 0, 0, 0, 0, 0, 0, 0, 0, 0, 0, 0, 0, 0, 0, 0, 0, 0, 0, 0, 0, 0, 0, 0, 0]"
  "hexDecode ''000000000000000000000000000000000000000000000000000000000000000000'' =
    Some [0, 0, 0, 0, 0, 0, 0, 0, 0, 0, 0, 0, 0, 0, 0, 0, 0, 0, 0, 0, 0, 0, 0, 0, 0, 0, 0, 0, 0, 0, 0, 0, 0]"
  by (simp_all add: hex_value_simps)

lemma template_bytes:
  "legacyClientHelloTemplate =
     [22, 3, 1, 2, 0, 1, 0, 1, 252, 3, 3, 65, 213, 181, 73, 217, 205, 26, 223, 167, 41, 108, 132, 24, 209, 87, 220, 123, 98, 76, 132, 40, 36, 255, 73, 59, 147, 117, 187, 72, 211, 79, 43, 32] @
     [191, 1, 139, 204, 144, 167, 200, 154, 35, 0, 148, 129, 90, 208, 193, 91, 115, 110, 56, 192, 18, 9, 215, 45, 40, 44, 181, 226, 16, 83, 40, 21, 0, 36, 19, 2, 19, 3, 19, 1, 192, 44, 192, 48] @
     [192, 43, 192, 47, 204, 169, 204, 168, 192, 36, 192, 40, 192, 35, 192, 39, 0, 159, 0, 158, 0, 107, 0, 103, 0, 255, 1, 0, 1, 143, 0, 0, 0, 11, 0, 9, 0, 0, 6, 109, 99, 105, 46, 105] @
     [114, 0, 11, 0, 4, 3, 0, 1, 2, 0, 10, 0, 22, 0, 20, 0, 29, 0, 23, 0, 30, 0, 25, 0, 24, 1, 0, 1, 1, 1, 2, 1, 3, 1, 4, 0, 35, 0, 0, 0, 16, 0, 14, 0] @
     [12, 2, 104, 50, 8, 104, 116, 116, 112, 47, 49, 46, 49, 0, 22, 0, 0, 0, 23, 0, 0, 0, 13, 0, 42, 0, 40, 4, 3, 5, 3, 6, 3, 8, 7, 8, 8, 8, 9, 8, 10, 8, 11, 8] @
     [4, 8, 5, 8, 6, 4, 1, 5, 1, 6, 1, 3, 3, 3, 1, 3, 2, 4, 2, 5, 2, 6, 2, 0, 43, 0, 5, 4, 3, 4, 3, 3, 0, 45, 0, 2, 1, 1, 0, 51, 0, 38, 0, 36] @
     [0, 29, 0, 32, 67, 91, 172, 196, 208, 95, 157, 65, 254, 244, 74, 179, 173, 85, 97, 108, 54, 224, 97, 52, 115, 226, 51, 135, 112, 239, 218, 169, 134, 147, 210, 23, 0, 21, 0, 213, 0, 0, 0, 0] @
     [0, 0, 0, 0, 0, 0, 0, 0, 0, 0, 0, 0, 0, 0, 0, 0, 0, 0, 0, 0, 0, 0, 0, 0, 0, 0, 0, 0, 0, 0, 0, 0, 0, 0, 0, 0, 0, 0, 0, 0, 0, 0, 0, 0] @
     [0, 0, 0, 0, 0, 0, 0, 0, 0, 0, 0, 0, 0, 0, 0, 0, 0, 0, 0, 0, 0, 0, 0, 0, 0, 0, 0, 0, 0, 0, 0, 0, 0, 0, 0, 0, 0, 0, 0, 0, 0, 0, 0, 0] @
     [0, 0, 0, 0, 0, 0, 0, 0, 0, 0, 0, 0, 0, 0, 0, 0, 0, 0, 0, 0, 0, 0, 0, 0, 0, 0, 0, 0, 0, 0, 0, 0, 0, 0, 0, 0, 0, 0, 0, 0, 0, 0, 0, 0] @
     [0, 0, 0, 0, 0, 0, 0, 0, 0, 0, 0, 0, 0, 0, 0, 0, 0, 0, 0, 0, 0, 0, 0, 0, 0, 0, 0, 0, 0, 0, 0, 0, 0, 0, 0, 0, 0, 0, 0, 0, 0, 0, 0, 0] @
     [0, 0, 0, 0, 0, 0, 0, 0, 0, 0, 0, 0, 0, 0, 0, 0, 0, 0, 0, 0, 0, 0, 0, 0, 0, 0, 0, 0, 0, 0, 0, 0, 0]"
  unfolding legacyClientHelloTemplate_def legacyClientHelloTemplateHex_def
  by (simp only: hexDecode_append [OF hexDecode_chunks(1)] hexDecode_append [OF hexDecode_chunks(2)]
      hexDecode_append [OF hexDecode_chunks(3)]
      hexDecode_append [OF hexDecode_chunks(4)]
      hexDecode_append [OF hexDecode_chunks(5)]
      hexDecode_append [OF hexDecode_chunks(6)]
      hexDecode_append [OF hexDecode_chunks(7)]
      hexDecode_append [OF hexDecode_chunks(8)]
      hexDecode_append [OF hexDecode_chunks(9)]
      hexDecode_append [OF hexDecode_chunks(10)]
      hexDecode_append [OF hexDecode_chunks(11)]
      hexDecode_chunks(12) option.map option.case)

lemma length_template: "length legacyClientHelloTemplate = 517"
  by (simp add: template_bytes)

lemma static1: "legacyClientHelloStatic1 = [22, 3, 1, 2, 0, 1, 0, 1, 252, 3, 3]"
  by (simp add: legacyClientHelloStatic1_def template_bytes subslice_def)

lemma static3: "legacyClientHelloStatic3 =
    [0, 36, 19, 2, 19, 3, 19, 1, 192, 44, 192, 48, 192, 43, 192, 47, 204, 169, 204, 168, 192, 36,
     192, 40, 192, 35, 192, 39, 0, 159, 0, 158, 0, 107, 0, 103, 0, 255, 1, 0, 1, 143, 0, 0]"
  by (simp add: legacyClientHelloStatic3_def template_bytes subslice_def)

lemma static4: "legacyClientHelloStatic4 =
    [0, 11, 0, 4, 3, 0, 1, 2, 0, 10, 0, 22, 0, 20, 0, 29, 0, 23, 0, 30, 0, 25,
     0, 24, 1, 0, 1, 1, 1, 2, 1, 3, 1, 4, 0, 35, 0, 0, 0, 16, 0, 14, 0, 12,
     2, 104, 50, 8, 104, 116, 116, 112, 47, 49, 46, 49, 0, 22, 0, 0, 0, 23, 0, 0, 0, 13,
     0, 42, 0, 40, 4, 3, 5, 3, 6, 3, 8, 7, 8, 8, 8, 9, 8, 10, 8, 11, 8, 4,
     8, 5, 8, 6, 4, 1, 5, 1, 6, 1, 3, 3, 3, 1, 3, 2, 4, 2, 5, 2, 6, 2,
     0, 43, 0, 5, 4, 3, 4, 3, 3, 0, 45, 0, 2, 1, 1, 0, 51, 0, 38, 0, 36, 0,
     29, 0, 32]"
  by (simp add: legacyClientHelloStatic4_def template_bytes subslice_def legacyTemplateSNI_def bytes_of_def)

section \<open>The record is a ClientHello with the chosen name\<close>

definition legacy_hello :: "byte list \<Rightarrow> byte list \<Rightarrow> byte list \<Rightarrow> byte list \<Rightarrow> client_hello" where
  "legacy_hello rnd sessID sni keyShare =
     \<lparr>ch_fixed = [3, 3] @ rnd, ch_session = sessID,
      ch_ciphers = [19, 2, 19, 3, 19, 1, 192, 44, 192, 48, 192, 43, 192, 47, 204, 169, 204, 168, 192, 36, 192, 40, 192, 35, 192, 39, 0, 159, 0, 158, 0, 107, 0, 103, 0, 255],
      ch_compression = [0],
      ch_exts =
      [(0, enc_names [(0, sni)]),
       (11, [3, 0, 1, 2]),
       (10, [0, 20, 0, 29, 0, 23, 0, 30, 0, 25, 0, 24, 1, 0, 1, 1, 1, 2, 1, 3, 1, 4]),
       (35, []),
       (16, [0, 12, 2, 104, 50, 8, 104, 116, 116, 112, 47, 49, 46, 49]),
       (22, []),
       (23, []),
       (13, [0, 40, 4, 3, 5, 3, 6, 3, 8, 7, 8, 8, 8, 9, 8, 10, 8, 11, 8, 4, 8, 5, 8, 6, 4, 1, 5, 1, 6, 1, 3, 3, 3, 1, 3, 2, 4, 2, 5, 2, 6, 2]),
       (43, [4, 3, 4, 3, 3]),
       (45, [1, 1]),
       (51, [0, 36, 0, 29, 0, 32] @ keyShare),
       (21, replicate (219 - length sni) 0)]\<rparr>"

lemma appendUint16BE_enc16: "appendUint16BE buf (of_nat n) = buf @ enc16 n"
  by (simp add: appendUint16BE_def enc16_def put16_def)

lemma enc16_consts:
  "enc16 0 = [0, 0]" "enc16 1 = [0, 1]" "enc16 2 = [0, 2]" "enc16 3 = [0, 3]" "enc16 4 = [0, 4]" "enc16 5 = [0, 5]"
  "enc16 10 = [0, 10]" "enc16 11 = [0, 11]" "enc16 13 = [0, 13]" "enc16 14 = [0, 14]" "enc16 16 = [0, 16]"
  "enc16 21 = [0, 21]" "enc16 22 = [0, 22]" "enc16 23 = [0, 23]" "enc16 35 = [0, 35]" "enc16 36 = [0, 36]"
  "enc16 38 = [0, 38]" "enc16 42 = [0, 42]" "enc16 43 = [0, 43]" "enc16 45 = [0, 45]" "enc16 51 = [0, 51]"
  "enc16 399 = [1, 143]" "enc16 512 = [2, 0]"
  by (code_simp)+

lemma legacy_record_encodes:
  assumes "length rnd = 32" and "length sessID = 32" and "length keyShare = 32" and "length sni \<le> 219"
  shows "buildLegacyClientHelloRecordWith rnd sessID sni keyShare = enc_record 3 1 (legacy_hello rnd sessID sni keyShare)"
    "wf_client_hello (legacy_hello rnd sessID sni keyShare)"
    "length (enc_record 3 1 (legacy_hello rnd sessID sni keyShare)) = 517"
proof -
  let ?ch = "legacy_hello rnd sessID sni keyShare"
  have lx: "length (concat (map enc_ext (ch_exts ?ch))) = 399"
    using assms by (simp add: legacy_hello_def enc_names_def)
  have lc: "length (ch_fixed ?ch) = 34" "length (ch_session ?ch) = 32" "length (ch_ciphers ?ch) = 36" "ch_compression ?ch = [0]"
    using assms by (simp_all add: legacy_hello_def)
  have lb: "length (enc_body ?ch) = 508" by (simp add: enc_body_def lx lc)
  have names: "enc_ext (0, enc_names [(0, sni)]) =
      [0, 0] @ enc16 (length sni + 5) @ enc16 (length sni + 3) @ [0] @ enc16 (length sni) @ sni"
  proof -
    have "length (enc_names [(0, sni)]) = length sni + 5" "length (concat (map enc_name [(0, sni)])) = length sni + 3"
      by (simp_all add: enc_names_def)
    then have "enc_ext (0, enc_names [(0, sni)]) =
        enc16 0 @ enc16 (length sni + 5) @ enc16 (length sni + 3) @ enc_name (0, sni)"
      unfolding enc_ext_def enc_names_def by (simp only: fst_conv snd_conv list.map concat.simps append_Nil2)
    then show ?thesis by (simp add: enc_name_def enc16_consts(1))
  qed
  have "length ([0, 36, 0, 29, 0, 32] @ keyShare) = 38" using assms by simp
  then have tail: "enc_ext (51, [0, 36, 0, 29, 0, 32] @ keyShare) = [0, 51, 0, 38, 0, 36, 0, 29, 0, 32] @ keyShare"
    "enc_ext (21, replicate (219 - length sni) 0) = [0, 21] @ enc16 (219 - length sni) @ replicate (219 - length sni) 0"
    unfolding enc_ext_def fst_conv snd_conv by (simp_all only: enc16_consts length_replicate append.simps)
  have e24: "enc24 508 = [0, 1, 252]" by (simp add: enc24_def)
  show "buildLegacyClientHelloRecordWith rnd sessID sni keyShare = enc_record 3 1 ?ch"
    unfolding enc_record_def lb e24 unfolding enc_body_def lx lc
    unfolding legacy_hello_def buildLegacyClientHelloRecordWith_def Let_def static1 static3 static4
      appendUint16BE_enc16 MaxLegacyFakeSNILen_def
    by (simp only: names tail list.map concat.simps client_hello.select_convs)
      (simp add: enc_ext_def enc16_consts, simp add: enc16_def put16_def)
  show "wf_client_hello ?ch" unfolding wf_client_hello_def lb lc by (simp add: legacy_hello_def)
  show "length (enc_record 3 1 ?ch) = 517" by (simp add: enc_record_def lb enc24_def)
qed

lemma legacy_built:
  assumes "length rnd = 32" and "length sessID = 32" and "length keyShare = 32"
  shows "(case BuildLegacyClientHelloRecord (Inr rnd) (Inr sessID) (Inr keyShare) serverName of
      Inr rec \<Rightarrow> serverName \<noteq> [] \<and> length serverName \<le> MaxLegacyFakeSNILen \<and> length rec = 517 \<and> wf_record rec \<and>
        extracted_name rec = Some (bytes_of serverName)
    | Inl e \<Rightarrow> serverName = [] \<or> MaxLegacyFakeSNILen < length serverName)"
proof (cases "serverName = [] \<or> MaxLegacyFakeSNILen < length serverName")
  case True
  then show ?thesis by (auto simp: BuildLegacyClientHelloRecord_def bytes_of_def Let_def)
next
  case False
  let ?sni = "bytes_of serverName" and ?ch = "legacy_hello rnd sessID (bytes_of serverName) keyShare"
  have l: "length ?sni \<le> 219" "?sni \<noteq> []" using False by (simp_all add: bytes_of_def MaxLegacyFakeSNILen_def)
  note r = legacy_record_encodes [OF assms l(1)]
  have "extracted_name (enc_record 3 1 ?ch @ []) = Some ?sni"
    using l(2) by (subst extracted_name_enc [OF r(2), of "[(0, ?sni)]"]) (auto simp: legacy_hello_def)
  moreover have "length (enc_body ?ch) = 508" using r(3) by (simp add: enc_record_def enc24_def)
  then have "wf_record (enc_record 3 1 ?ch)"
    using r(3) enc16_nth [of 512] by (simp add: wf_record_def enc_record_def enc16_consts maxTLSPlaintextRecord_def)
  ultimately show ?thesis
    using False r l by (simp add: BuildLegacyClientHelloRecord_def Let_def MaxLegacyFakeSNILen_def bytes_of_def)
qed

text \<open>
  C24. The fake built from the template is what it should be: for every name of at most 219 bytes and
  any random bytes it is a well-formed TLS record of exactly 517 bytes holding a ClientHello whose
  server name, as \<^verbatim>\<open>sniValueRange\<close> finds it, is the name that was asked for; an empty or a longer
  name is refused.
\<close>

theorem legacy_fake_has_name:
  assumes "length rnd = 32" and "length sessID = 32" and "length keyShare = 32"
  shows "(case BuildLegacyClientHelloRecord (Inr rnd) (Inr sessID) (Inr keyShare) serverName of
      Inr rec \<Rightarrow> serverName \<noteq> [] \<and> length serverName \<le> MaxLegacyFakeSNILen \<and> length rec = 517 \<and> wf_record rec \<and>
        extracted_name rec = Some (bytes_of serverName)
    | Inl e \<Rightarrow> serverName = [] \<or> MaxLegacyFakeSNILen < length serverName)"
  using assms by (rule legacy_built)

theorem legacy_fake_has_name_witness:
  "length (replicate 32 (1 :: byte)) = 32 \<and> ''mci.ir'' \<noteq> [] \<and> length ''mci.ir'' \<le> MaxLegacyFakeSNILen \<and>
   (\<exists>rec. BuildLegacyClientHelloRecord (Inr (replicate 32 1)) (Inr (replicate 32 2)) (Inr (replicate 32 3)) ''mci.ir'' = Inr rec \<and>
      length rec = 517 \<and> wf_record rec \<and> extracted_name rec = Some (bytes_of ''mci.ir''))"
  using legacy_fake_has_name [of "replicate 32 1" "replicate 32 2" "replicate 32 3" "''mci.ir''"]
  by (simp add: MaxLegacyFakeSNILen_def split: sum.splits)

lemma recordHeader_wf:
  assumes "length handshake \<le> maxTLSPlaintextRecord" and "handshake \<noteq> []"
  shows "wf_record (recordHeaderHandshakeTLS13Client (length handshake) @ handshake)"
proof -
  let ?n = "length handshake"
  have n: "?n < 65536" using assms(1) by (simp add: maxTLSPlaintextRecord_def)
  then have "enc16 ?n = [of_nat (?n div 256), of_nat ?n]"
    by (simp add: enc16_def put16_def word_unat_eq_iff unsigned_ucast_eq unsigned_drop_bit_eq unsigned_of_nat
        unat_div_distrib take_bit_nat_eq_self_iff drop_bit_eq_div take_bit_nat_eq_self)
  with enc16_nth [OF n] show ?thesis
    using assms by (simp add: wf_record_def recordHeaderHandshakeTLS13Client_def)
qed

lemma recordHeader_wf_iff:
  "handshake \<noteq> [] \<Longrightarrow>
    wf_record (recordHeaderHandshakeTLS13Client (length handshake) @ handshake) \<longleftrightarrow> length handshake \<le> maxTLSPlaintextRecord"
  using recordHeader_wf [of handshake] by (auto simp: wf_record_def Let_def recordHeaderHandshakeTLS13Client_def)

text \<open>
  C25. Whichever way the fake is chosen, a fake that is built is for a non-empty name. One built from the
  template is a well-formed TLS handshake record with that name. One built with a preset is a five-byte
  handshake record header followed by exactly the message uTLS built for that name and the preset the option
  names; it is a well-formed record, which the record reader of the fragmentation code accepts with nothing
  left over, exactly if that message is no longer than a TLS record may hold. The code does not check this,
  so a longer message gives a malformed fake.
\<close>

theorem built_fake_is_record:
  assumes "length rnd = 32" and "length sessID = 32" and "length keyShare = 32"
    and built: "buildFakeClientHello (Inr rnd) (Inr sessID) (Inr keyShare) dflt byName handshakeRaw fakeSNI utlsName = Inr rec"
  shows "fakeSNI \<noteq> [] \<and>
    (if IsLegacyUTLS utlsName then wf_record rec \<and> extracted_name rec = Some (bytes_of fakeSNI)
     else \<exists>i hs. ParseClientHelloID dflt byName utlsName = Inr i \<and> handshakeRaw fakeSNI i = Inr hs \<and> hs \<noteq> [] \<and>
       take 3 rec = [22, 3, 3] \<and> drop 5 rec = hs \<and> length rec = 5 + length hs \<and>
       (wf_record rec \<longleftrightarrow> length hs \<le> maxTLSPlaintextRecord))"
proof (cases "IsLegacyUTLS utlsName")
  case True
  then show ?thesis
    using built legacy_built [OF assms(1-3), of fakeSNI] by (simp add: buildFakeClientHello_def)
next
  case False
  then obtain i hs where hs: "ParseClientHelloID dflt byName utlsName = Inr i" "fakeSNI \<noteq> []" "handshakeRaw fakeSNI i = Inr hs"
    "hs \<noteq> []" "rec = recordHeaderHandshakeTLS13Client (length hs) @ hs"
    using built by (auto simp: buildFakeClientHello_def BuildClientHelloRecord_def split: sum.splits if_splits)
  moreover have "take 3 rec = [22, 3, 3] \<and> drop 5 rec = hs \<and> length rec = 5 + length hs"
    by (simp add: hs(5) recordHeaderHandshakeTLS13Client_def)
  ultimately show ?thesis using False recordHeader_wf_iff [OF hs(4)] by auto
qed

definition sample_raw :: "string \<Rightarrow> nat \<Rightarrow> string + byte list" where
  "sample_raw name i = (if length name \<le> 600 then Inr (1 # bytes_of name @ [of_nat i]) else Inl ''too long'')"

lemma sample_built:
  "buildFakeClientHello (Inr (replicate 32 1)) (Inr (replicate 32 2)) (Inr (replicate 32 3)) 0 [''chrome'' \<mapsto> 1]
     sample_raw ''mci.ir'' ''Chrome'' = Inr [22, 3, 3, 0, 8, 1, 109, 99, 105, 46, 105, 114, 1]"
  by code_simp

theorem built_fake_is_record_witness:
  "buildFakeClientHello (Inr (replicate 32 1)) (Inr (replicate 32 2)) (Inr (replicate 32 3)) 0 [''chrome'' \<mapsto> 1]
     sample_raw ''mci.ir'' ''Chrome'' = Inr [22, 3, 3, 0, 8, 1, 109, 99, 105, 46, 105, 114, 1] \<and>
   wf_record [22, 3, 3, 0, 8, 1, 109, 99, 105, 46, 105, 114, 1]"
proof -
  have "\<not> IsLegacyUTLS ''Chrome''" by code_simp
  then show ?thesis
    using built_fake_is_record [OF _ _ _ sample_built] sample_built by (auto simp: maxTLSPlaintextRecord_def)
qed

end
