(* ===== verification/Options.thy ===== *)
theory Options
  imports Config ClientHello_Legacy
begin

text \<open>
  Model of the option handling in \<^verbatim>\<open>main.go\<close>: the defaults, the configuration file, Go's \<^verbatim>\<open>flag\<close>
  package with the flags \<^verbatim>\<open>main\<close> declares, and the checks up to the point where the proxy or the
  test starts. The file system, the resolver, the privilege check and uTLS are parameters.
\<close>

section \<open>Numbers and booleans of package \<^verbatim>\<open>flag\<close>\<close>

text \<open>\<^verbatim>\<open>strconv.ParseInt(s, 0, 64)\<close>, with base prefixes and underscores.\<close>

definition digitValue :: "char \<Rightarrow> nat option" where
  "digitValue c =
     (if is_digit c then Some (code c - 48)
      else let l = lower c in if 97 \<le> code l \<and> code l \<le> 122 then Some (code l - 87) else None)"

fun baseDigits :: "nat \<Rightarrow> nat \<Rightarrow> string \<Rightarrow> nat option" where
  "baseDigits base n [] = Some n"
| "baseDigits base n (c # cs) =
     (if c = CHR ''_'' then baseDigits base n cs
      else (case digitValue c of
              None \<Rightarrow> None
            | Some d \<Rightarrow> if d \<ge> base then None else baseDigits base (n * base + d) cs))"

definition basePrefix :: "string \<Rightarrow> nat \<times> string" where
  "basePrefix s =
     (if take 1 s = ''0'' then
        if length s \<ge> 3 \<and> lower (s ! 1) = CHR ''b'' then (2, drop 2 s)
        else if length s \<ge> 3 \<and> lower (s ! 1) = CHR ''o'' then (8, drop 2 s)
        else if length s \<ge> 3 \<and> lower (s ! 1) = CHR ''x'' then (16, drop 2 s)
        else (8, drop 1 s)
      else (10, s))"

text \<open>\<^verbatim>\<open>underscoreOK\<close>; the first argument says what came before: a digit or base prefix, an underscore, or
  anything else.\<close>

datatype prev_char = PrevDigit | PrevUnderscore | PrevOther

fun underscoreLoop :: "bool \<Rightarrow> prev_char \<Rightarrow> string \<Rightarrow> bool" where
  "underscoreLoop hex i [] \<longleftrightarrow> i \<noteq> PrevUnderscore"
| "underscoreLoop hex i (c # cs) \<longleftrightarrow>
     (if is_digit c \<or> hex \<and> 97 \<le> code (lower c) \<and> code (lower c) \<le> 102 then underscoreLoop hex PrevDigit cs
      else if c = CHR ''_'' then i = PrevDigit \<and> underscoreLoop hex PrevUnderscore cs
      else i \<noteq> PrevUnderscore \<and> underscoreLoop hex PrevOther cs)"

definition underscoreOK :: "string \<Rightarrow> bool" where
  "underscoreOK s =
     (if length s \<ge> 2 \<and> s ! 0 = CHR ''0'' \<and> lower (s ! 1) \<in> {CHR ''b'', CHR ''o'', CHR ''x''}
      then underscoreLoop (lower (s ! 1) = CHR ''x'') PrevDigit (drop 2 s)
      else underscoreLoop False PrevOther s)"

definition ParseInt0 :: "string \<Rightarrow> int option" where
  "ParseInt0 s =
     (let (neg, u) = (case s of c # cs \<Rightarrow> if c = CHR ''-'' \<or> c = CHR ''+'' then (c = CHR ''-'', cs) else (False, s)
                      | [] \<Rightarrow> (False, s));
          (base, ds) = basePrefix u
      in if u = [] then None
         else (case baseDigits base 0 ds of
                 None \<Rightarrow> None
               | Some n \<Rightarrow>
                   if CHR ''_'' \<in> set ds \<and> \<not> underscoreOK u then None
                   else if neg then (if n \<le> 2 ^ 63 then Some (- int n) else None)
                   else (if n < 2 ^ 63 then Some (int n) else None)))"

definition ParseBool :: "string \<Rightarrow> bool option" where
  "ParseBool s =
     (if s \<in> {''1'', ''t'', ''T'', ''true'', ''TRUE'', ''True''} then Some True
      else if s \<in> {''0'', ''f'', ''F'', ''false'', ''FALSE'', ''False''} then Some False
      else None)"

section \<open>Options and defaults\<close>

datatype InjectorMode = InjectorModeActive | InjectorModePassive

definition modeName :: "InjectorMode \<Rightarrow> string" where
  "modeName m = (case m of InjectorModeActive \<Rightarrow> ''active'' | InjectorModePassive \<Rightarrow> ''passive'')"

definition parseInjectorMode :: "string \<Rightarrow> string + InjectorMode" where
  "parseInjectorMode s =
     (let l = ToLower (TrimSpace s) in
      if l = [] \<or> l = modeName InjectorModeActive then Inr InjectorModeActive
      else if l = modeName InjectorModePassive then Inr InjectorModePassive
      else Inl (''invalid -injector '' @ Quote s @ '' (want active or passive)''))"

record cli_options =
  optListen :: string
  optConnect :: string
  optFakeSNI :: string
  optUTLS :: string
  injectorMode :: string
  fakeRepeat :: int
  fakeDelay :: int
  ackTimeout :: int
  enableFragment :: bool
  fragmentDelay :: int
  sniChunk :: int
  testMode :: bool
  configPath :: string

definition DefaultSNIChunkBytes :: int where
  "DefaultSNIChunkBytes = 3"

definition applyOptionDefaults :: "FileOptions \<Rightarrow> cli_options \<Rightarrow> cli_options" where
  "applyOptionDefaults fileOpts o1 =
     (let o1 = o1\<lparr>fakeRepeat := 1, fakeDelay := 2 * 1000000, ackTimeout := 2 * 1000000000,
                 fragmentDelay := 500 * 1000000, sniChunk := DefaultSNIChunkBytes\<rparr>;
          o1 = (if Has fileOpts ''listen'' then o1\<lparr>optListen := fo_Listen fileOpts\<rparr> else o1);
          o1 = (if Has fileOpts ''connect'' then o1\<lparr>optConnect := fo_Connect fileOpts\<rparr> else o1);
          o1 = (if Has fileOpts ''fake-sni'' then o1\<lparr>optFakeSNI := fo_FakeSNI fileOpts\<rparr> else o1);
          o1 = (if Has fileOpts ''fake-repeat'' then o1\<lparr>fakeRepeat := fo_FakeRepeat fileOpts\<rparr> else o1);
          o1 = (if Has fileOpts ''fake-delay'' then o1\<lparr>fakeDelay := fo_FakeDelay fileOpts\<rparr> else o1);
          o1 = (if Has fileOpts ''ack-timeout'' then o1\<lparr>ackTimeout := fo_AckTimeout fileOpts\<rparr> else o1);
          o1 = (if Has fileOpts ''injector'' then o1\<lparr>injectorMode := fo_Injector fileOpts\<rparr> else o1);
          o1 = (if Has fileOpts ''utls'' then o1\<lparr>optUTLS := fo_UTLS fileOpts\<rparr> else o1);
          o1 = (if Has fileOpts ''enable-fragment'' then o1\<lparr>enableFragment := fo_EnableFragment fileOpts\<rparr> else o1);
          o1 = (if Has fileOpts ''fragment-delay'' then o1\<lparr>fragmentDelay := fo_FragmentDelay fileOpts\<rparr> else o1);
          o1 = (if Has fileOpts ''sni-chunk'' then o1\<lparr>sniChunk := fo_SNIChunk fileOpts\<rparr> else o1)
      in o1)"

fun configPathFromArgs :: "string list \<Rightarrow> string + (string \<times> bool)" where
  "configPathFromArgs [] = Inr ([], False)"
| "configPathFromArgs (arg # args) =
     (if arg = ''-config'' \<or> arg = ''--config'' then
        (case args of [] \<Rightarrow> Inl ''-config requires a path'' | a # _ \<Rightarrow> Inr (a, True))
      else if HasPrefix arg ''-config='' then Inr (TrimPrefix arg ''-config='', True)
      else if HasPrefix arg ''--config='' then Inr (TrimPrefix arg ''--config='', True)
      else configPathFromArgs args)"

datatype stat_result = Exists | NotExist | StatError string

datatype load_error = ConfigArg string | StatFailed string | FileError file_error

definition loadInitialFileOptions ::
  "(nat \<Rightarrow> nat \<Rightarrow> nat \<Rightarrow> nat) \<Rightarrow> (string \<Rightarrow> string + string) \<Rightarrow> (string \<Rightarrow> stat_result) \<Rightarrow> string list \<Rightarrow>
   load_error + (FileOptions \<times> string)" where
  "loadInitialFileOptions fracNanos Open Stat args =
     (let load = (\<lambda>path. case LoadFileOptions fracNanos Open path of
                           Inl e \<Rightarrow> Inl (FileError e)
                         | Inr opts \<Rightarrow> Inr (opts, path))
      in case configPathFromArgs args of
           Inl e \<Rightarrow> Inl (ConfigArg e)
         | Inr (path, provided) \<Rightarrow>
             if provided then load path
             else (case Stat ''config.ini'' of
                     Exists \<Rightarrow> load ''config.ini''
                   | NotExist \<Rightarrow> Inr (emptyFileOptions, [])
                   | StatError e \<Rightarrow> Inl (StatFailed e)))"

section \<open>Package \<^verbatim>\<open>flag\<close>\<close>

datatype flag_error =
    BadFlagSyntax string
  | UndefinedFlag string
  | HelpRequested
  | NeedsArgument string
  | InvalidValue string string

text \<open>\<^verbatim>\<open>Value.Set\<close> of the declared flags; the outer \<^const>\<open>None\<close> is a name that is not declared, the inner
  one a value that does not parse.\<close>

definition setFlag ::
  "(nat \<Rightarrow> nat \<Rightarrow> nat \<Rightarrow> nat) \<Rightarrow> string \<Rightarrow> string \<Rightarrow> cli_options \<Rightarrow> cli_options option option" where
  "setFlag fn name v o1 =
     (if name = ''config'' then Some (Some (o1\<lparr>configPath := v\<rparr>))
      else if name = ''test'' then Some (map_option (\<lambda>b. o1\<lparr>testMode := b\<rparr>) (ParseBool v))
      else if name = ''injector'' then Some (Some (o1\<lparr>injectorMode := v\<rparr>))
      else if name = ''listen'' then Some (Some (o1\<lparr>optListen := v\<rparr>))
      else if name = ''connect'' then Some (Some (o1\<lparr>optConnect := v\<rparr>))
      else if name = ''fake-sni'' then Some (Some (o1\<lparr>optFakeSNI := v\<rparr>))
      else if name = ''fake-repeat'' then Some (map_option (\<lambda>n. o1\<lparr>fakeRepeat := n\<rparr>) (ParseInt0 v))
      else if name = ''fake-delay'' then Some (map_option (\<lambda>d. o1\<lparr>fakeDelay := d\<rparr>) (ParseDuration fn v))
      else if name = ''utls'' then Some (Some (o1\<lparr>optUTLS := v\<rparr>))
      else if name = ''enable-fragment'' then Some (map_option (\<lambda>b. o1\<lparr>enableFragment := b\<rparr>) (ParseBool v))
      else if name = ''fragment-delay'' then Some (map_option (\<lambda>d. o1\<lparr>fragmentDelay := d\<rparr>) (ParseDuration fn v))
      else if name = ''sni-chunk'' then Some (map_option (\<lambda>n. o1\<lparr>sniChunk := n\<rparr>) (ParseInt0 v))
      else if name = ''ack-timeout'' then Some (map_option (\<lambda>d. o1\<lparr>ackTimeout := d\<rparr>) (ParseDuration fn v))
      else None)"

definition isBoolFlag :: "string \<Rightarrow> bool" where
  "isBoolFlag name \<longleftrightarrow> name = ''test'' \<or> name = ''enable-fragment''"

text \<open>\<^verbatim>\<open>FlagSet.parseOne\<close> on a non-empty argument list: \<open>Inr None\<close> is the end of the flags.\<close>

definition flagName :: "string \<Rightarrow> string" where
  "flagName s = (if take 2 s = ''--'' then drop 2 s else drop 1 s)"

definition parseOne ::
  "(nat \<Rightarrow> nat \<Rightarrow> nat \<Rightarrow> nat) \<Rightarrow> string \<Rightarrow> string list \<Rightarrow> cli_options \<Rightarrow> flag_error + (string list \<times> cli_options)" where
  "parseOne fn s args o1 =
     (let name = flagName s in
      if name = [] \<or> hd name = CHR ''-'' \<or> hd name = CHR ''='' then Inl (BadFlagSyntax s)
      else
      let (n, v, hasValue) = Cut name CHR ''='' in
      if setFlag fn n [] o1 = None then
        (if n = ''help'' \<or> n = ''h'' then Inl HelpRequested else Inl (UndefinedFlag n))
      else
      let set = (\<lambda>v args. case setFlag fn n v o1 of Some (Some o2) \<Rightarrow> Inr (args, o2) | _ \<Rightarrow> Inl (InvalidValue n v)) in
      if isBoolFlag n then (if hasValue then set v args else set ''true'' args)
      else if hasValue then set v args
      else (case args of [] \<Rightarrow> Inl (NeedsArgument n) | a # as \<Rightarrow> set a as))"

lemma parseOne_length: "parseOne fn s args o1 = Inr (args', o2) \<Longrightarrow> length args' \<le> length args"
  by (auto simp: parseOne_def Let_def split: if_splits list.splits option.splits prod.splits)

text \<open>\<^verbatim>\<open>flag.Parse\<close>: the options and the remaining arguments.\<close>

function flagParse ::
  "(nat \<Rightarrow> nat \<Rightarrow> nat \<Rightarrow> nat) \<Rightarrow> string list \<Rightarrow> cli_options \<Rightarrow> flag_error + (cli_options \<times> string list)" where
  "flagParse fn [] o1 = Inr (o1, [])"
| "flagParse fn (s # args) o1 =
     (if length s < 2 \<or> s ! 0 \<noteq> CHR ''-'' then Inr (o1, s # args)
      else if s = ''--'' then Inr (o1, args)
      else (case parseOne fn s args o1 of
              Inl e \<Rightarrow> Inl e
            | Inr (args, o1) \<Rightarrow> flagParse fn args o1))"
  by pat_completeness auto
termination
  by (relation "measure (\<lambda>(fn, args, o1). length args)") (auto dest!: parseOne_length)

declare flagParse.simps(2) [simp del]

section \<open>\<^verbatim>\<open>main\<close> up to the start of the proxy\<close>

record proxyOptions =
  po_fakeRepeat :: int
  po_fakeDelay :: int
  po_enableFragment :: bool
  po_fragmentDelay :: int
  po_sniChunk :: int
  po_ackTimeout :: int
  po_quiet :: bool
  po_injector :: InjectorMode

datatype main_error =
    InvalidConfigFile load_error
  | FlagError flag_error
  | UnexpectedArguments "string list"
  | NotPrivileged
  | MissingAddress
  | BadFakeRepeat
  | BadSNIChunk
  | BadAckTimeout
  | BadInjector string
  | InvalidConfiguration connect_error
  | InvalidUTLS string
  | NotIPv4 string
  | NoConnectIPv4s
  | ListenNotIPv4 string

definition defaultTestListenAddr :: string where
  "defaultTestListenAddr = ''127.0.0.1:0''"

definition effectiveListenAddr :: "string \<Rightarrow> bool \<Rightarrow> string" where
  "effectiveListenAddr listen test = (if test then defaultTestListenAddr else listen)"

text \<open>What \<^verbatim>\<open>main\<close> takes from outside: the files, the resolver, the outcome of \<^verbatim>\<open>isPrivileged\<close>, the table of
  uTLS names with its default, the platform's default mode and the arguments.\<close>

record 'i main_env =
  me_frac :: "nat \<Rightarrow> nat \<Rightarrow> nat \<Rightarrow> nat"
  me_open :: "string \<Rightarrow> string + string"
  me_stat :: "string \<Rightarrow> stat_result"
  me_lookup :: "string \<Rightarrow> string + byte list list"
  me_privileged :: "string + bool"
  me_defaultID :: 'i
  me_idByName :: "string \<rightharpoonup> 'i"
  me_defaultMode :: InjectorMode

definition noOptions :: cli_options where
  "noOptions = \<lparr>optListen = [], optConnect = [], optFakeSNI = [], optUTLS = [], injectorMode = [], fakeRepeat = 0,
     fakeDelay = 0, ackTimeout = 0, enableFragment = False, fragmentDelay = 0, sniChunk = 0, testMode = False,
     configPath = []\<rparr>"

text \<open>Declaring a flag stores its default in the variable; only \<^verbatim>\<open>-test\<close> and \<^verbatim>\<open>-injector\<close> are declared with
  something else than the variable's own value.\<close>

definition declareFlags :: "InjectorMode \<Rightarrow> string \<Rightarrow> cli_options \<Rightarrow> cli_options" where
  "declareFlags mode path o1 = o1\<lparr>configPath := path, testMode := False, injectorMode := modeName mode\<rparr>"

definition main_options :: "'i main_env \<Rightarrow> string list \<Rightarrow> main_error + cli_options" where
  "main_options env args =
     (case loadInitialFileOptions (me_frac env) (me_open env) (me_stat env) args of
        Inl e \<Rightarrow> Inl (InvalidConfigFile e)
      | Inr (fileOpts, path) \<Rightarrow>
          let o1 = declareFlags (me_defaultMode env) path (applyOptionDefaults fileOpts noOptions)
          in case flagParse (me_frac env) args o1 of
               Inl e \<Rightarrow> Inl (FlagError e)
             | Inr (o1, rest) \<Rightarrow>
                 if length rest > 0 then Inl (UnexpectedArguments rest) else Inr o1)"

definition main_checks :: "'i main_env \<Rightarrow> cli_options \<Rightarrow> main_error + (Config \<times> proxyOptions)" where
  "main_checks env o1 =
     (let fakeSNIArg = TrimSpace (optFakeSNI o1) in
      if me_privileged env \<noteq> Inr True then Inl NotPrivileged
      else
      let o1 = (if testMode o1 then o1\<lparr>optListen := effectiveListenAddr (optListen o1) True\<rparr> else o1) in
      if TrimSpace (optListen o1) = [] \<or> TrimSpace (optConnect o1) = [] then Inl MissingAddress
      else if fakeRepeat o1 < 1 then Inl BadFakeRepeat
      else if sniChunk o1 < 0 then Inl BadSNIChunk
      else if ackTimeout o1 \<le> 0 then Inl BadAckTimeout
      else (case parseInjectorMode (injectorMode o1) of
              Inl e \<Rightarrow> Inl (BadInjector e)
            | Inr injector \<Rightarrow>
      (case (if testMode o1 then ConnectFromCLIAllowListenPortZero (me_lookup env) (optListen o1) (optConnect o1) fakeSNIArg
             else ConnectFromCLI (me_lookup env) (optListen o1) (optConnect o1) fakeSNIArg) of
         Inl e \<Rightarrow> Inl (InvalidConfiguration e)
       | Inr cfg \<Rightarrow>
      let cfg = (if TrimSpace (optUTLS o1) \<noteq> [] then cfg\<lparr>UTLSClientHello := optUTLS o1\<rparr> else cfg);
          utls = (if \<not> testMode o1 \<and> \<not> IsLegacyUTLS (UTLSClientHello cfg)
                  then (case ParseClientHelloID (me_defaultID env) (me_idByName env) (UTLSClientHello cfg) of
                          Inl e \<Rightarrow> Some e | Inr _ \<Rightarrow> None)
                  else None)
      in
      if utls \<noteq> None then Inl (InvalidUTLS (the utls))
      else if \<not> IsIPv4 (ConnectIP cfg) then Inl (NotIPv4 (ConnectIP cfg))
      else if length (ConnectIPv4s cfg) = 0 then Inl NoConnectIPv4s
      else if ListenHost cfg \<noteq> [] \<and> \<not> IsIPv4 (ListenHost cfg) then Inl (ListenNotIPv4 (ListenHost cfg))
      else Inr (cfg, \<lparr>po_fakeRepeat = fakeRepeat o1, po_fakeDelay = fakeDelay o1, po_enableFragment = enableFragment o1,
                      po_fragmentDelay = fragmentDelay o1, po_sniChunk = sniChunk o1, po_ackTimeout = ackTimeout o1,
                      po_quiet = False, po_injector = injector\<rparr>))))"

definition main_setup :: "'i main_env \<Rightarrow> string list \<Rightarrow> main_error + (Config \<times> proxyOptions)" where
  "main_setup env args = (case main_options env args of Inl e \<Rightarrow> Inl e | Inr o1 \<Rightarrow> main_checks env o1)"

section \<open>Accepted configurations\<close>

text \<open>What the rest of the program relies on.\<close>

definition wf_Config :: "bool \<Rightarrow> Config \<Rightarrow> bool" where
  "wf_Config test cfg \<longleftrightarrow>
     (if test then 0 else 1) \<le> ListenPort cfg \<and> ListenPort cfg \<le> 65535 \<and>
     (ListenHost cfg = [] \<or> IsIPv4 (ListenHost cfg)) \<and>
     1 \<le> ConnectPort cfg \<and> ConnectPort cfg \<le> 65535 \<and>
     ConnectIPv4s cfg \<noteq> [] \<and> ConnectIP cfg = hd (ConnectIPv4s cfg) \<and> distinct (ConnectIPv4s cfg) \<and>
     list_all IsIPv4 (ConnectIPv4s cfg) \<and> FakeSNI cfg \<noteq> []"

lemma IsIPv4_String: "length v = 4 \<Longrightarrow> IsIPv4 (IP_String (Some v))"
  by (auto simp: length_Suc_conv numeral_eq_Suc IsIPv4_def ParseIP_String IP_To4_def v4InV6_def)

lemma IsIPv4_To4: "IP_To4 ip = Some v \<Longrightarrow> IsIPv4 (IP_String (Some v))"
  by (rule IsIPv4_String) (auto simp: IP_To4_def split: if_splits)

lemma distinctIPv4s_wf:
  "distinct acc \<Longrightarrow> list_all IsIPv4 acc \<Longrightarrow> distinct (distinctIPv4s ips acc) \<and> list_all IsIPv4 (distinctIPv4s ips acc)"
  by (induction ips arbitrary: acc) (auto simp: Let_def IsIPv4_To4 split: option.splits)

lemma connectFromCLI_wf:
  assumes "connectFromCLI lookup listen connect sni allow0 = Inr cfg" and "\<And>ips. lookup [] \<noteq> Inr ips"
  shows "wf_Config allow0 cfg" and "UTLSClientHello cfg = []"
  using assms distinctIPv4s_wf [of "[]"]
  by (auto simp: connectFromCLI_def wf_Config_def Let_def hd_conv_nth split: sum.splits prod.splits option.splits if_splits)

lemma wf_Config_utls [simp]: "wf_Config test (cfg\<lparr>UTLSClientHello := u\<rparr>) = wf_Config test cfg"
  by (simp add: wf_Config_def)

lemma guarded_Inr:
  "(if b then Inl e else x) = Inr y \<longleftrightarrow> \<not> b \<and> x = Inr y"
  "(case r of Inl e \<Rightarrow> Inl (f e) | Inr z \<Rightarrow> g z) = Inr y \<longleftrightarrow> (\<exists>z. r = Inr z \<and> g z = Inr y)"
  by (simp_all split: sum.split)

lemma main_checks_ok:
  assumes "main_checks env o1 = Inr (cfg, opts)" and "\<And>ips. me_lookup env [] \<noteq> Inr ips"
  shows "wf_Config (testMode o1) cfg \<and> 1 \<le> po_fakeRepeat opts \<and> 0 \<le> po_sniChunk opts \<and> 0 < po_ackTimeout opts \<and>
    (testMode o1 \<or> IsLegacyUTLS (UTLSClientHello cfg) \<or>
      (\<exists>i. ParseClientHelloID (me_defaultID env) (me_idByName env) (UTLSClientHello cfg) = Inr i))"
proof -
  note wf = connectFromCLI_wf(1) [where lookup = "me_lookup env", OF _ assms(2)]
  note m = assms(1) [unfolded main_checks_def Let_def guarded_Inr]
  show ?thesis
  proof (cases "testMode o1")
    case True
    then show ?thesis
      using m [simplified True if_True simp_thms] wf
      by (elim conjE exE) (auto simp: ConnectFromCLIAllowListenPortZero_def)
  next
    case False
    then show ?thesis
      using m [simplified False if_False simp_thms] wf
      by (elim conjE exE) (auto simp: ConnectFromCLI_def split: sum.splits if_splits)
  qed
qed

lemma main_checks_mode:
  "main_checks env o1 = Inr (cfg, opts) \<Longrightarrow> parseInjectorMode (injectorMode o1) = Inr (po_injector opts)"
  by (auto simp: main_checks_def Let_def split: sum.splits if_splits)

text \<open>
  C12. Whatever the command line and the configuration file say, a configuration \<^verbatim>\<open>main\<close> accepts is one the
  rest of the program can work with: the ports are in range, the upstream addresses are a
  non-empty list of distinct IPv4 literals the first of which is dialled, the server name of the fake
  is not empty, at least one fake is sent, the chunk size is not negative, the wait for the
  acknowledgement is positive, and, unless \<^verbatim>\<open>-test\<close> is given, the listening port is not zero and the
  fingerprint is the template or a known preset (the test runs choose their own). It relies on the resolver only for refusing the empty name.
\<close>

theorem accepted_configuration_valid:
  assumes "main_setup env args = Inr (cfg, opts)" and "\<And>ips. me_lookup env [] \<noteq> Inr ips"
  shows "\<exists>o1. main_options env args = Inr o1 \<and> wf_Config (testMode o1) cfg \<and>
    1 \<le> po_fakeRepeat opts \<and> 0 \<le> po_sniChunk opts \<and> 0 < po_ackTimeout opts \<and>
    (testMode o1 \<or> IsLegacyUTLS (UTLSClientHello cfg) \<or>
     (\<exists>i. ParseClientHelloID (me_defaultID env) (me_idByName env) (UTLSClientHello cfg) = Inr i))"
proof -
  obtain o1 where o1: "main_options env args = Inr o1" "main_checks env o1 = Inr (cfg, opts)"
    using assms(1) by (auto simp: main_setup_def split: sum.splits)
  from o1(1) main_checks_ok [OF o1(2) assms(2)] show ?thesis by blast
qed

section \<open>The injector mode\<close>

abbreviation names_flag :: "string \<Rightarrow> string \<Rightarrow> bool" where
  "names_flag n arg \<equiv> fst (Cut (flagName arg) CHR ''='') = n"

lemma setFlag_injector:
  "setFlag fn n v o1 = Some (Some o2) \<Longrightarrow> n \<noteq> ''injector'' \<Longrightarrow> injectorMode o2 = injectorMode o1"
  by (auto simp: setFlag_def split: if_splits)

lemma parseOne_injector:
  assumes "parseOne fn s args o1 = Inr (args', o2)" and "\<not> names_flag ''injector'' s"
  shows "injectorMode o2 = injectorMode o1 \<and> set args' \<subseteq> set args"
  using assms by (auto simp: parseOne_def Let_def dest: setFlag_injector split: if_splits list.splits option.splits prod.splits)

lemma flagParse_injector:
  "flagParse fn args o1 = Inr (o2, rest) \<Longrightarrow> list_all (\<lambda>a. \<not> names_flag ''injector'' a) args \<Longrightarrow>
    injectorMode o2 = injectorMode o1"
proof (induction fn args o1 rule: flagParse.induct)
  case (2 fn s args o1)
  then show ?case
    using parseOne_injector [of fn s args o1]
    by (fastforce simp: flagParse.simps(2) list_all_iff split: if_splits sum.splits)
qed simp

lemma parse_modeName: "parseInjectorMode (modeName m) = Inr m"
proof -
  have "parseInjectorMode (modeName InjectorModeActive) = Inr InjectorModeActive"
    "parseInjectorMode (modeName InjectorModePassive) = Inr InjectorModePassive"
    by code_simp+
  then show ?thesis by (cases m) simp_all
qed

text \<open>
  The \<^verbatim>\<open>injector\<close> setting of the configuration file has no effect: unless a \<^verbatim>\<open>-injector\<close> flag is given,
  the mode used is the platform's default, whatever the file says, because declaring the flag stores
  that default over the value read from the file.
\<close>

lemma file_injector_ignored:
  assumes "main_setup env args = Inr (cfg, opts)" and "list_all (\<lambda>a. \<not> names_flag ''injector'' a) args"
  shows "po_injector opts = me_defaultMode env"
proof -
  obtain o1 o2 p where o2: "flagParse (me_frac env) args (declareFlags (me_defaultMode env) p o1) = Inr (o2, [])"
    and checks: "main_checks env o2 = Inr (cfg, opts)"
    using assms(1) by (auto simp: main_setup_def main_options_def Let_def split: sum.splits if_splits)
  have "parseInjectorMode (injectorMode o2) = Inr (po_injector opts)" using checks by (rule main_checks_mode)
  then show ?thesis
    using flagParse_injector [OF o2 assms(2)] parse_modeName by (simp add: declareFlags_def)
qed

text \<open>A run with a configuration file and one with flags only, for the witnesses.\<close>

definition sample_main :: "nat main_env" where
  "sample_main = \<lparr>me_frac = (\<lambda>_ _ _. 0), me_open = (\<lambda>_. Inr (printFile sample_options)), me_stat = (\<lambda>_. Exists),
     me_lookup = (\<lambda>_. Inl ''no such host''), me_privileged = Inr True, me_defaultID = 0, me_idByName = Map.empty,
     me_defaultMode = InjectorModeActive\<rparr>"

definition sample_cfg :: Config where
  "sample_cfg = \<lparr>ListenHost = [], ListenPort = 8080, ConnectIP = ''1.1.1.1'', ConnectIPv4s = [''1.1.1.1''], ConnectPort = 443,
     FakeSNI = ''a.b'', UTLSClientHello = ''none''\<rparr>"

definition sample_opts :: proxyOptions where
  "sample_opts = \<lparr>po_fakeRepeat = 2, po_fakeDelay = 5000000, po_enableFragment = True, po_fragmentDelay = 250000000,
     po_sniChunk = 4, po_ackTimeout = 3000000000, po_quiet = False, po_injector = InjectorModeActive\<rparr>"

lemma sample_load: "LoadFileOptions (me_frac sample_main) (me_open sample_main) ''config.ini'' = Inr sample_options"
  using load_printFile [OF sample_options_writable] sample_options_seen by (simp add: sample_main_def)

lemma sample_has: "list_all (Has sample_options) config_keys"
  using config_keys_plain by (auto simp: list_all_iff Has_def plain_key_def sample_options_def)

lemma sample_main_options:
  "main_options sample_main [] = Inr \<lparr>optListen = '':8080'', optConnect = ''1.1.1.1:443'', optFakeSNI = ''a.b'', optUTLS = ''none'',
     injectorMode = ''active'', fakeRepeat = 2, fakeDelay = 5000000, ackTimeout = 3000000000, enableFragment = True,
     fragmentDelay = 250000000, sniChunk = 4, testMode = False, configPath = ''config.ini''\<rparr>"
proof -
  have "loadInitialFileOptions (me_frac sample_main) (me_open sample_main) (me_stat sample_main) [] = Inr (sample_options, ''config.ini'')"
    using sample_load by (simp add: loadInitialFileOptions_def sample_main_def)
  then show ?thesis
    using sample_has by (simp add: main_options_def applyOptionDefaults_def config_keys_def noOptions_def declareFlags_def
        modeName_def sample_options_def sample_main_def)
qed

lemma sample_connect: "connectFromCLI lookup '':8080'' ''1.1.1.1:443'' ''a.b'' False = Inr (sample_cfg\<lparr>UTLSClientHello := []\<rparr>)"
proof -
  have "SplitHostPort '':8080'' = Inr ([], ''8080'')" "SplitHostPort ''1.1.1.1:443'' = Inr (''1.1.1.1'', ''443'')"
    "TrimSpace ''1.1.1.1'' = ''1.1.1.1''" "TrimSpace ''a.b'' = ''a.b''"
    by code_simp+
  moreover have "Atoi ''8080'' = Some 8080" "Atoi ''443'' = Some 443"
    by (simp_all add: Atoi_def digits_def is_digit_def)
  moreover have "IsIPv4 ''1.1.1.1''" by code_simp
  ultimately show ?thesis by (simp add: connectFromCLI_def sample_cfg_def Let_def)
qed

lemma sample_main_setup: "main_setup sample_main [] = Inr (sample_cfg, sample_opts)"
proof -
  have "IsLegacyUTLS ''none''" "IsIPv4 ''1.1.1.1''" "TrimSpace '':8080'' = '':8080''" "TrimSpace ''1.1.1.1:443'' = ''1.1.1.1:443''"
    "TrimSpace ''a.b'' = ''a.b''" "TrimSpace ''none'' = ''none''" "parseInjectorMode ''active'' = Inr InjectorModeActive"
    by code_simp+
  then show ?thesis
    using sample_connect [of "me_lookup sample_main"]
    by (simp add: main_setup_def sample_main_options main_checks_def ConnectFromCLI_def sample_cfg_def sample_opts_def Let_def)
      (simp add: sample_main_def)
qed

theorem accepted_configuration_valid_witness:
  "main_setup sample_main [] = Inr (sample_cfg, sample_opts) \<and> me_lookup sample_main [] = Inl ''no such host'' \<and>
   (\<exists>o1. main_options sample_main [] = Inr o1 \<and> wf_Config (testMode o1) sample_cfg)"
  using accepted_configuration_valid [OF sample_main_setup] sample_main_setup by (auto simp: sample_main_def)

end
