(* ===== verification/Proxy.thy ===== *)
theory Proxy
  imports Session Options
begin

text \<open>
  Model of the proxy side: \<^verbatim>\<open>dialOutgoing\<close> of the three platforms (\<^verbatim>\<open>dial_linux.go\<close>, \<^verbatim>\<open>dial_darwin.go\<close>,
  \<^verbatim>\<open>dial_windows.go\<close>) and \<^verbatim>\<open>handleConnection\<close>, \<^verbatim>\<open>forwardFragmentedClientHello\<close>, \<^verbatim>\<open>relay\<close> and their helpers
  in \<^verbatim>\<open>main.go\<close>. The handler runs beside the injector: wherever it waits, the world lets the injector
  make one of a list of moves on its table. The answers of the operating system are arguments. Log lines
  keep their fixed text; durations and wrapped error texts in them are left out.
\<close>

section \<open>The world of a handler\<close>

text \<open>The part of the interface \<^verbatim>\<open>TCPInjector\<close> the handler uses.\<close>

record 'x tcp_injector =
  inj_RegisterConn :: "nat \<Rightarrow> 'x flow_table_scheme \<Rightarrow> 'x flow_table_scheme"
  inj_UnregisterConn :: "nat \<Rightarrow> 'x flow_table_scheme \<Rightarrow> 'x flow_table_scheme"

text \<open>The injector's table with the connections, what the injector will do, the bytes the client and the
  server will send, the two connections as sinks, the closed sockets and the log.\<close>

record 'x px_world =
  px_table :: "'x flow_table_scheme"
  px_moves :: "('x flow_table_scheme \<Rightarrow> 'x flow_table_scheme) list"
  px_client :: reader
  px_server :: reader
  px_up :: tcp_sink
  px_down :: tcp_sink
  px_closed :: "nat list"
  px_logs :: "string list"

definition px_interfere :: "'x px_world \<Rightarrow> 'x px_world" where
  "px_interfere w =
     (case px_moves w of
        [] \<Rightarrow> w
      | m # ms \<Rightarrow> w\<lparr>px_table := m (px_table w), px_moves := ms\<rparr>)"

definition px_modify :: "nat \<Rightarrow> (FakeInjectiveConnection \<Rightarrow> FakeInjectiveConnection) \<Rightarrow> 'x px_world \<Rightarrow> 'x px_world" where
  "px_modify r g w = w\<lparr>px_table := update_conn r (g (heap (px_table w) r)) (px_table w)\<rparr>"

definition px_close :: "nat \<Rightarrow> 'x px_world \<Rightarrow> 'x px_world" where
  "px_close s w = w\<lparr>px_closed := px_closed w @ [s]\<rparr>"

definition px_log :: "bool \<Rightarrow> string \<Rightarrow> 'x px_world \<Rightarrow> 'x px_world" where
  "px_log silent m w = (if silent then w else w\<lparr>px_logs := px_logs w @ [m]\<rparr>)"

definition stopMonitoring :: "'x tcp_injector \<Rightarrow> nat \<Rightarrow> 'x px_world \<Rightarrow> 'x px_world" where
  "stopMonitoring fi r w =
     (let w = px_modify r (\<lambda>c. c\<lparr>Monitor := False\<rparr>) w
      in w\<lparr>px_table := inj_UnregisterConn fi r (px_table w)\<rparr>)"

definition closePair :: "nat \<Rightarrow> nat \<Rightarrow> 'x px_world \<Rightarrow> 'x px_world" where
  "closePair a b w = px_close b (px_close a w)"

section \<open>Dialling\<close>

text \<open>The parameters of \<^verbatim>\<open>dialOutgoing\<close>.\<close>

record dial_args =
  da_interfaceIPv4 :: string
  da_connectIP :: string
  da_connectPort :: int
  da_fakeData :: "byte list"
  da_bypassMethod :: string
  da_fakeRepeat :: int
  da_fakeDelay :: int
  da_fragmentDelay :: int
  da_incomingSock :: nat

text \<open>The answers of the system calls: \<open>None\<close> is success; \<open>de_sockname\<close> gives the port, or \<open>None\<close> for an
  address of another family; \<open>de_control\<close> says whether \<^verbatim>\<open>RawConn.Control\<close> ran its function; \<open>de_fd\<close> is the
  raw handle on Windows, \<open>de_sock\<close> the resulting connection.\<close>

record dial_env =
  de_resolve :: "string \<Rightarrow> string option"
  de_control :: bool
  de_socket :: "string option"
  de_keepalive :: "string option"
  de_bind :: "string option"
  de_sockname :: "string + u16 option"
  de_connect :: "string option"
  de_newFile :: bool
  de_fileConn :: "string option"
  de_fd :: nat
  de_sock :: nat

definition To4_of :: "string \<Rightarrow> byte list option" where
  "To4_of s = (case ParseIP s of None \<Rightarrow> None | Some ip \<Rightarrow> IP_To4 ip)"

text \<open>Creating the connection object at reference \<open>r\<close> and registering it.\<close>

definition new_conn :: "dial_args \<Rightarrow> u16 \<Rightarrow> FakeInjectiveConnection" where
  "new_conn a srcPort =
     NewFakeInjectiveConnection None (da_interfaceIPv4 a) (da_connectIP a) srcPort (of_int (da_connectPort a)) (da_fakeData a)
       (da_bypassMethod a) (Some (da_incomingSock a)) (da_fakeRepeat a) (da_fakeDelay a) (da_fragmentDelay a)"

definition registerNew :: "'x tcp_injector \<Rightarrow> dial_args \<Rightarrow> u16 \<Rightarrow> nat \<Rightarrow> 'x px_world \<Rightarrow> 'x px_world" where
  "registerNew fi a srcPort r w =
     (let w = px_modify r (\<lambda>_. new_conn a srcPort) w
      in w\<lparr>px_table := inj_RegisterConn fi r (px_table w)\<rparr>)"

text \<open>The \<^verbatim>\<open>Control\<close> function of the dialer on Linux and macOS: its error, the local port and the world.\<close>

definition bindLocal :: "dial_env \<Rightarrow> dial_args \<Rightarrow> string + u16" where
  "bindLocal env a =
     (if \<not> de_control env then Inr 0
      else (case To4_of (da_interfaceIPv4 a) of
              None \<Rightarrow> Inl (''local address is not IPv4: '' @ Quote (da_interfaceIPv4 a))
            | Some ip4 \<Rightarrow>
                (case de_bind env of
                   Some e \<Rightarrow> Inl e
                 | None \<Rightarrow>
                     (case de_sockname env of
                        Inl e \<Rightarrow> Inl e
                      | Inr None \<Rightarrow> Inl ''getsockname: unexpected address type''
                      | Inr (Some p) \<Rightarrow> Inr p))))"

definition dialUnix ::
  "'x tcp_injector \<Rightarrow> dial_env \<Rightarrow> dial_args \<Rightarrow> nat \<Rightarrow> 'x px_world \<Rightarrow> (string + (nat \<times> u16)) \<times> 'x px_world" where
  "dialUnix fi env a r w =
     (let targetAddr = JoinHostPort (da_connectIP a) (decimal_int (da_connectPort a)) in
      case de_resolve env targetAddr of
        Some e \<Rightarrow> (Inl e, w)
      | None \<Rightarrow>
          (case bindLocal env a of
             Inl e \<Rightarrow> (Inl e, w)
           | Inr srcPort \<Rightarrow>
               let w = px_interfere (registerNew fi a srcPort r w) in
               (case de_connect env of
                  Some e \<Rightarrow> (Inl e, stopMonitoring fi r w)
                | None \<Rightarrow> (Inr (de_sock env, srcPort), w))))"

definition dialOutgoing_linux ::
  "'x tcp_injector \<Rightarrow> dial_env \<Rightarrow> dial_args \<Rightarrow> nat \<Rightarrow> 'x px_world \<Rightarrow> (string + (nat \<times> u16)) \<times> 'x px_world" where
  "dialOutgoing_linux = dialUnix"

definition dialOutgoing_darwin ::
  "'x tcp_injector \<Rightarrow> dial_env \<Rightarrow> dial_args \<Rightarrow> nat \<Rightarrow> 'x px_world \<Rightarrow> (string + (nat \<times> u16)) \<times> 'x px_world" where
  "dialOutgoing_darwin = dialUnix"

text \<open>Windows opens, binds and connects the socket itself; after \<^verbatim>\<open>os.NewFile\<close> the deferred \<^verbatim>\<open>f.Close\<close> closes
  the original handle in any case, \<^verbatim>\<open>net.FileConn\<close> having duplicated it.\<close>

definition dialOutgoing_windows ::
  "'x tcp_injector \<Rightarrow> dial_env \<Rightarrow> dial_args \<Rightarrow> nat \<Rightarrow> 'x px_world \<Rightarrow> (string + (nat \<times> u16)) \<times> 'x px_world" where
  "dialOutgoing_windows fi env a r w =
     (if To4_of (da_interfaceIPv4 a) = None then (Inl (''local interface IP is not IPv4: '' @ Quote (da_interfaceIPv4 a)), w)
      else if To4_of (da_connectIP a) = None then (Inl (''connect IP is not IPv4: '' @ Quote (da_connectIP a)), w)
      else (case de_socket env of
              Some e \<Rightarrow> (Inl e, w)
            | None \<Rightarrow>
      (case (case de_keepalive env of
               Some e \<Rightarrow> Inl e
             | None \<Rightarrow> (case de_bind env of
                         Some e \<Rightarrow> Inl e
                       | None \<Rightarrow> (case de_sockname env of
                                   Inl e \<Rightarrow> Inl e
                                 | Inr None \<Rightarrow> Inl ''getsockname: unexpected address type''
                                 | Inr (Some p) \<Rightarrow> Inr p))) of
         Inl e \<Rightarrow> (Inl e, px_close (de_fd env) w)
       | Inr srcPort \<Rightarrow>
           let w = px_interfere (registerNew fi a srcPort r w) in
           (case de_connect env of
              Some e \<Rightarrow> (Inl e, px_close (de_fd env) (stopMonitoring fi r w))
            | None \<Rightarrow>
                if \<not> de_newFile env then (Inl ''os.NewFile: nil file'', px_close (de_fd env) (stopMonitoring fi r w))
                else (case de_fileConn env of
                        Some e \<Rightarrow> (Inl e, px_close (de_fd env) (stopMonitoring fi r w))
                      | None \<Rightarrow> (Inr (de_sock env, srcPort), px_close (de_fd env) w))))))"

section \<open>Forwarding\<close>

definition nonEmptyFragments :: "byte list list \<Rightarrow> nat" where
  "nonEmptyFragments frags = length (filter (\<lambda>f. length f > 0) frags)"

datatype forwarded = Forwarded | ForwardError | ForwardPanic

text \<open>\<open>deadline\<close> is the error of \<^verbatim>\<open>SetReadDeadline\<close>; a client that sends nothing in time is a reader that ends
  with an error.\<close>

definition forwardFragmentedClientHello ::
  "string option \<Rightarrow> int \<Rightarrow> int \<Rightarrow> bool \<Rightarrow> bool \<Rightarrow> 'x px_world \<Rightarrow> forwarded \<times> 'x px_world" where
  "forwardFragmentedClientHello deadline delay sniChunkBytes logEachFragment logSummary w =
     (if deadline \<noteq> None then (ForwardError, w)
      else (case ReadFirstTLSRecord (px_client w) of
              (Inl e, rd) \<Rightarrow> (ForwardError, w\<lparr>px_client := rd\<rparr>)
            | (Inr rec, rd) \<Rightarrow>
                let w = w\<lparr>px_client := rd\<rparr> in
                (case SplitClientHelloRecord rec sniChunkBytes of
                   None \<Rightarrow> (ForwardPanic, w)
                 | Some frags \<Rightarrow>
                     let w = px_log (\<not> logSummary) (''fragment: '' @ decimal (nonEmptyFragments frags) @ '' write(s), sni-chunk='' @
                               decimal_int sniChunkBytes) w
                     in (case WriteClientHelloFragments sink_write sink_sleep sink_log frags delay (Some sink_noDelay) logEachFragment (px_up w) of
                           (err, k) \<Rightarrow> (if err = None then Forwarded else ForwardError, w\<lparr>px_up := k\<rparr>)))))"

definition bufSize :: nat where
  "bufSize = 65575"

text \<open>\<^verbatim>\<open>io.CopyBuffer\<close>: one read and one write per entry, the entry being how much the read returns; the
  list ends when the copy is stopped by the other direction closing the sockets.\<close>

fun relay :: "nat list \<Rightarrow> reader \<Rightarrow> tcp_sink \<Rightarrow> reader \<times> tcp_sink" where
  "relay [] src dst = (src, dst)"
| "relay (n # ns) src dst =
     (if pending src = [] then (src, dst)
      else let k = min n bufSize; p = take k (pending src); src = src\<lparr>pending := drop k (pending src)\<rparr> in
      (case sink_write p dst of
         (None, dst) \<Rightarrow> relay ns src dst
       | (Some e, dst) \<Rightarrow> (src, dst)))"

section \<open>Handling one client\<close>

text \<open>What the handler gets from outside: the random bytes and uTLS for the fake, the dialer of the
  platform, whether the timer wins the \<^verbatim>\<open>select\<close> when a message is there too, the error of
  \<^verbatim>\<open>SetReadDeadline\<close> and the reads of the two relay goroutines.\<close>

record ('i, 'x) hc_env =
  hc_rand :: "(string + byte list) \<times> (string + byte list) \<times> (string + byte list)"
  hc_defaultID :: 'i
  hc_idByName :: "string \<rightharpoonup> 'i"
  hc_raw :: "string \<Rightarrow> 'i \<Rightarrow> string + byte list"
  hc_dial :: "'x tcp_injector \<Rightarrow> dial_args \<Rightarrow> nat \<Rightarrow> 'x px_world \<Rightarrow> (string + (nat \<times> u16)) \<times> 'x px_world"
  hc_timerFirst :: bool
  hc_deadline :: "string option"
  hc_reads :: "nat list \<times> nat list"

datatype handled_as =
    NoFake | DialFailed | InjectorAborted | UnexpectedMessage | AckTimeout | FragmentFailed | Panicked | Relayed

text \<open>The \<^verbatim>\<open>select\<close> on the connection's channel and the timer: \<open>None\<close> is the timeout.\<close>

definition awaitResult :: "bool \<Rightarrow> nat \<Rightarrow> 'x px_world \<Rightarrow> string option \<times> 'x px_world" where
  "awaitResult timerFirst r w =
     (let w = px_interfere w in
      case T2aChan (heap (px_table w) r) of
        [] \<Rightarrow> (None, w)
      | m # ms \<Rightarrow> if timerFirst then (None, w) else (Some m, px_modify r (\<lambda>c. c\<lparr>T2aChan := ms\<rparr>) w))"

text \<open>The part after the acknowledgement: stop monitoring, pause, forward the first record in fragments if
  asked for, relay until one direction ends.\<close>

definition startRelay ::
  "('i, 'x) hc_env \<Rightarrow> proxyOptions \<Rightarrow> nat \<Rightarrow> nat \<Rightarrow> 'x px_world \<Rightarrow> handled_as \<times> 'x px_world" where
  "startRelay env opts outgoingSock incomingSock w =
     (let (up, down) = hc_reads env;
          (c, u) = relay up (px_client w) (px_up w);
          (s, d) = relay down (px_server w) (px_down w);
          w = w\<lparr>px_client := c, px_up := u, px_server := s, px_down := d\<rparr>
      in (Relayed, closePair outgoingSock incomingSock w))"

definition forwardAndRelay ::
  "('i, 'x) hc_env \<Rightarrow> 'x tcp_injector \<Rightarrow> proxyOptions \<Rightarrow> nat \<Rightarrow> nat \<Rightarrow> nat \<Rightarrow> 'x px_world \<Rightarrow> handled_as \<times> 'x px_world" where
  "forwardAndRelay env fi opts r outgoingSock incomingSock w =
     (let w = stopMonitoring fi r w;
          w = (if po_fakeDelay opts > 0 then px_interfere w else w)
      in if po_enableFragment opts then
           (case forwardFragmentedClientHello (hc_deadline env) (po_fragmentDelay opts) (po_sniChunk opts) False (\<not> po_quiet opts) w of
              (ForwardPanic, w) \<Rightarrow> (Panicked, px_log (po_quiet opts) ''panic in handle'' w)
            | (ForwardError, w) \<Rightarrow>
                (FragmentFailed, closePair outgoingSock incomingSock (px_log (po_quiet opts) ''ClientHello fragment'' w))
            | (Forwarded, w) \<Rightarrow> startRelay env opts outgoingSock incomingSock w)
         else startRelay env opts outgoingSock incomingSock w)"

definition awaitAndForward ::
  "('i, 'x) hc_env \<Rightarrow> 'x tcp_injector \<Rightarrow> proxyOptions \<Rightarrow> nat \<Rightarrow> nat \<Rightarrow> nat \<Rightarrow> 'x px_world \<Rightarrow> handled_as \<times> 'x px_world" where
  "awaitAndForward env fi opts r outgoingSock incomingSock w =
     (let w = px_modify r (\<lambda>c. c\<lparr>Sock := Some outgoingSock\<rparr>) w;
          stop = (\<lambda>m w. closePair outgoingSock incomingSock (stopMonitoring fi r (px_log (po_quiet opts) m w)))
      in case awaitResult (hc_timerFirst env) r w of
           (None, w) \<Rightarrow> (AckTimeout, stop ''proxy: ACK timeout'' w)
         | (Some msg, w) \<Rightarrow>
             if msg = ''unexpected_close'' then (InjectorAborted, stop ''proxy: injector aborted handshake'' w)
             else if msg \<noteq> ''fake_data_ack_recv'' then (UnexpectedMessage, stop (''unexpected t2a msg: '' @ Quote msg) w)
             else forwardAndRelay env fi opts r outgoingSock incomingSock w)"

definition handleConnection ::
  "('i, 'x) hc_env \<Rightarrow> nat \<Rightarrow> Config \<Rightarrow> string \<Rightarrow> string \<Rightarrow> 'x tcp_injector \<Rightarrow> proxyOptions \<Rightarrow> nat \<Rightarrow> 'x px_world \<Rightarrow>
   handled_as \<times> 'x px_world" where
  "handleConnection env incomingSock cfg interfaceIPv4 fakeSNI fi opts r w =
     (case hc_rand env of (r1, r2, r3) \<Rightarrow>
      case buildFakeClientHello r1 r2 r3 (hc_defaultID env) (hc_idByName env) (hc_raw env) fakeSNI (UTLSClientHello cfg) of
        Inl e \<Rightarrow> (NoFake, px_close incomingSock (px_log (po_quiet opts) (''ClientHello: '' @ e) w))
      | Inr fakeData \<Rightarrow>
          (case hc_dial env fi
                  \<lparr>da_interfaceIPv4 = interfaceIPv4, da_connectIP = ConnectIP cfg, da_connectPort = ConnectPort cfg,
                   da_fakeData = fakeData, da_bypassMethod = ''wrong_seq'', da_fakeRepeat = po_fakeRepeat opts,
                   da_fakeDelay = po_fakeDelay opts, da_fragmentDelay = po_fragmentDelay opts, da_incomingSock = incomingSock\<rparr> r w of
             (Inl e, w) \<Rightarrow> (DialFailed, px_close incomingSock (px_log (po_quiet opts) (''Failed to connect to '' @ ConnectIP cfg @ '':'' @ decimal_int (ConnectPort cfg) @ '': '' @ e) w))
           | (Inr (outgoingSock, _), w) \<Rightarrow> awaitAndForward env fi opts r outgoingSock incomingSock w))"

section \<open>The accept loop\<close>

text \<open>The local address of a UDP socket connected to the upstream, an outcome of the operating system.\<close>

definition GetDefaultInterfaceIPv4 :: "(string \<Rightarrow> string + byte list) \<Rightarrow> string \<Rightarrow> string" where
  "GetDefaultInterfaceIPv4 dialUDP remoteAddr =
     (let remoteAddr = (if remoteAddr = [] then ''8.8.8.8'' else remoteAddr) in
      case dialUDP (JoinHostPort remoteAddr ''53'') of
        Inl _ \<Rightarrow> []
      | Inr ip \<Rightarrow> IP_String (Some ip))"

text \<open>The answers \<^verbatim>\<open>runProxy\<close> gets: the local address, the errors of creating the injector and of waiting for
  it, and the outcome of listening. An accept either returns a socket or fails, with the state of the
  context, an error of the injector goroutine that has arrived, and its own text.\<close>

record run_env =
  re_interfaceIPv4 :: string
  re_newInjector :: "string option"
  re_ready :: "string option"
  re_listen :: "string + string"

datatype accept_result = Accepted nat | AcceptFailed bool "string option" string

datatype run_action =
    NewInjector string "string list" u16 InjectorMode
  | StartInjector
  | Listen string
  | ReportReady "string + string"
  | HandleConn nat
  | RunLog string
  | CloseListener
  | CloseInjector

text \<open>The loop: \<open>None\<close> while it has not returned.\<close>

fun acceptLoop :: "bool \<Rightarrow> accept_result list \<Rightarrow> string option option \<times> run_action list" where
  "acceptLoop silent [] = (None, [])"
| "acceptLoop silent (Accepted s # as) = (let (res, acts) = acceptLoop silent as in (res, HandleConn s # acts))"
| "acceptLoop silent (AcceptFailed ctxDone injErr e # as) =
     (if ctxDone then (Some None, [])
      else case injErr of
             Some x \<Rightarrow> (Some (Some (''injector: '' @ x)), [])
           | None \<Rightarrow>
               let (res, acts) = acceptLoop silent as
               in (res, (if silent then [] else [RunLog (''Accept error: '' @ e)]) @ acts))"

text \<open>\<^verbatim>\<open>runProxy\<close>; \<open>hasReady\<close> says whether a ready channel was passed. The deferred calls run when it returns,
  the last one first.\<close>

definition runProxy ::
  "run_env \<Rightarrow> Config \<Rightarrow> proxyOptions \<Rightarrow> bool \<Rightarrow> accept_result list \<Rightarrow> string option option \<times> run_action list" where
  "runProxy env cfg opts hasReady events =
     (let logf = (\<lambda>m. if po_quiet opts then [] else [RunLog m]);
          report = (\<lambda>m. if hasReady then [ReportReady m] else []) in
      if re_interfaceIPv4 env = [] then (Some (Some ''failed to detect local interface IPv4 address''), [])
      else
      let start = logf (''iface: '' @ re_interfaceIPv4 env) @
                  [NewInjector (re_interfaceIPv4 env) (ConnectIPv4s cfg) (of_int (ConnectPort cfg)) (po_injector opts)] in
      (case re_newInjector env of
         Some e \<Rightarrow> (Some (Some (''failed to create injector: '' @ e)), start)
       | None \<Rightarrow>
      (case re_ready env of
         Some e \<Rightarrow> (Some (Some (''injector: '' @ e)), start @ [StartInjector] @ report (Inl e) @ [CloseInjector])
       | None \<Rightarrow>
      let listenAddr = JoinHostPort (ListenHost cfg) (decimal_int (ListenPort cfg)) in
      (case re_listen env of
         Inl e \<Rightarrow> (Some (Some (''failed to listen: '' @ e)), start @ [StartInjector, Listen listenAddr] @ report (Inl e) @ [CloseInjector])
       | Inr addr \<Rightarrow>
           let (res, acts) = acceptLoop (po_quiet opts) events
           in (res, start @ [StartInjector, Listen listenAddr] @ logf (''listen: '' @ addr) @ report (Inr addr) @ acts @
                 (if res = None then [] else [CloseListener, CloseInjector]))))))"

fun handled_socks :: "run_action list \<Rightarrow> nat list" where
  "handled_socks [] = []"
| "handled_socks (HandleConn s # acts) = s # handled_socks acts"
| "handled_socks (_ # acts) = handled_socks acts"

text \<open>The sockets accepted before the loop returns.\<close>

fun accepted :: "accept_result list \<Rightarrow> nat list" where
  "accepted [] = []"
| "accepted (Accepted s # as) = s # accepted as"
| "accepted (AcceptFailed ctxDone injErr e # as) = (if ctxDone \<or> injErr \<noteq> None then [] else accepted as)"

lemma handled_socks_append [simp]: "handled_socks (xs @ ys) = handled_socks xs @ handled_socks ys"
  by (induction xs rule: handled_socks.induct) auto

lemma acceptLoop_handles: "handled_socks (snd (acceptLoop silent events)) = accepted events"
  by (induction silent events rule: acceptLoop.induct) (auto simp: case_prod_unfold Let_def split: option.splits)

text \<open>Every client that is accepted is handled once, in order, and a proxy that returns after creating the
  injector has closed it, and the listener before it.\<close>

lemma runProxy_handles_and_releases:
  assumes "runProxy env cfg opts hasReady events = (res, acts)" and "re_interfaceIPv4 env \<noteq> []" and "re_newInjector env = None"
  shows "res \<noteq> None \<Longrightarrow> last acts = CloseInjector"
    and "re_ready env = None \<Longrightarrow> re_listen env = Inr addr \<Longrightarrow> handled_socks acts = accepted events"
    and "re_ready env = None \<Longrightarrow> re_listen env = Inr addr \<Longrightarrow> res \<noteq> None \<Longrightarrow> \<exists>pre. acts = pre @ [CloseListener, CloseInjector]"
  using assms acceptLoop_handles [of "po_quiet opts" events]
  by (auto simp: runProxy_def Let_def case_prod_unfold split: option.splits sum.splits if_splits)

section \<open>What the handler relies on\<close>

text \<open>The contract of registration: it leaves the connections alone and enters or removes the flow.\<close>

locale conn_registry =
  fixes fi :: "'x tcp_injector"
  assumes register_heap: "heap (inj_RegisterConn fi r f) = heap f"
    and unregister_heap: "heap (inj_UnregisterConn fi r f) = heap f"
    and register_found: "Connections (inj_RegisterConn fi r f) (ID (heap f r)) = Some r"
      "byLocalPort (inj_RegisterConn fi r f) (SrcPort (heap f r)) = Some r"
    and unregister_gone: "Connections (inj_UnregisterConn fi r f) (ID (heap f r)) = None"
      "byLocalPort (inj_UnregisterConn fi r f) (SrcPort (heap f r)) = None"

sublocale flow_lookup \<subseteq> registry: conn_registry "\<lparr>inj_RegisterConn = register, inj_UnregisterConn = unregister\<rparr>"
  by unfold_locales (simp_all add: register_def unregister_def)

text \<open>What the injector does meanwhile: steps on each connection.\<close>

definition table_move :: "('x flow_table_scheme \<Rightarrow> 'x flow_table_scheme) \<Rightarrow> bool" where
  "table_move m \<longleftrightarrow> (\<forall>f r. injector_steps (heap f r) (heap (m f) r))"

abbreviation conn_at :: "nat \<Rightarrow> 'x px_world \<Rightarrow> FakeInjectiveConnection" where
  "conn_at r w \<equiv> heap (px_table w) r"

definition px_io :: "'x px_world \<Rightarrow> reader \<times> reader \<times> tcp_sink \<times> tcp_sink" where
  "px_io w = (px_client w, px_server w, px_up w, px_down w)"

definition moves_ok :: "'x px_world \<Rightarrow> bool" where
  "moves_ok w \<longleftrightarrow> list_all table_move (px_moves w)"

lemma interfere_later:
  assumes "moves_ok w"
  shows "later (conn_at r w) (conn_at r (px_interfere w))" and "moves_ok (px_interfere w)"
proof -
  show "later (conn_at r w) (conn_at r (px_interfere w))"
  proof (cases "px_moves w")
    case (Cons m ms)
    then have "injector_steps (conn_at r w) (heap (m (px_table w)) r)"
      using assms by (simp add: moves_ok_def table_move_def)
    then show ?thesis using Cons by (simp add: px_interfere_def injector_steps_later)
  qed (simp add: px_interfere_def)
  show "moves_ok (px_interfere w)"
    using assms by (auto simp: moves_ok_def px_interfere_def split: list.split)
qed

lemma px_simps [simp]:
  "px_io (px_interfere w) = px_io w" "px_closed (px_interfere w) = px_closed w"
  "px_io (px_modify r g w) = px_io w" "px_moves (px_modify r g w) = px_moves w" "px_closed (px_modify r g w) = px_closed w"
  "conn_at r (px_modify r g w) = g (conn_at r w)"
  "px_io (px_close s w) = px_io w" "px_table (px_close s w) = px_table w" "px_moves (px_close s w) = px_moves w"
  "px_closed (px_close s w) = px_closed w @ [s]"
  "px_io (px_log b m w) = px_io w" "px_table (px_log b m w) = px_table w" "px_moves (px_log b m w) = px_moves w"
  "px_closed (px_log b m w) = px_closed w"
  "px_io (closePair x y w) = px_io w" "px_table (closePair x y w) = px_table w" "px_moves (closePair x y w) = px_moves w"
  "px_closed (closePair x y w) = px_closed w @ [x, y]"
  by (simp_all add: px_interfere_def px_modify_def px_close_def px_log_def closePair_def px_io_def update_conn_def split: list.split)

lemma moves_ok_same: "px_moves w' = px_moves w \<Longrightarrow> moves_ok w' = moves_ok w"
  by (simp add: moves_ok_def)

context conn_registry
begin

lemma stop_simps [simp]:
  "conn_at r (stopMonitoring fi r w) = (conn_at r w)\<lparr>Monitor := False\<rparr>"
  "px_moves (stopMonitoring fi r w) = px_moves w" "px_io (stopMonitoring fi r w) = px_io w"
  "px_closed (stopMonitoring fi r w) = px_closed w"
  by (simp_all add: stopMonitoring_def Let_def unregister_heap px_modify_def update_conn_def px_io_def)

lemma registerNew_simps:
  "px_moves (registerNew fi a p r w) = px_moves w" "px_io (registerNew fi a p r w) = px_io w"
  "px_closed (registerNew fi a p r w) = px_closed w"
  "T2aChan (conn_at r (registerNew fi a p r w)) = []" "FakeData (conn_at r (registerNew fi a p r w)) = da_fakeData a"
  by (simp_all add: registerNew_def Let_def register_heap px_modify_def update_conn_def px_io_def new_conn_def
      NewFakeInjectiveConnection_def NewMonitorConnection_def MonitorConnection.defs FakeInjectiveConnection.defs)

lemma registered_later:
  assumes "moves_ok w"
  shows "success_sound (conn_at r (px_interfere (registerNew fi a p r w)))"
    and "moves_ok (px_interfere (registerNew fi a p r w))"
proof -
  have m: "moves_ok (registerNew fi a p r w)" using assms by (simp add: moves_ok_def registerNew_simps)
  have "success_sound (conn_at r (registerNew fi a p r w))" by (simp add: success_sound_def registerNew_simps)
  with interfere_later [OF m] show "success_sound (conn_at r (px_interfere (registerNew fi a p r w)))"
    "moves_ok (px_interfere (registerNew fi a p r w))" by (auto simp: later_def)
qed

end

text \<open>What a dial leaves in the table.\<close>

definition registered_first ::
  "dial_args \<Rightarrow> nat \<Rightarrow> 'x px_world \<Rightarrow> (string + (nat \<times> u16)) \<times> 'x px_world \<Rightarrow> bool" where
  "registered_first a r w res \<longleftrightarrow>
     (case res of
        (Inr (s, p), w') \<Rightarrow> \<exists>w1. px_table w' = px_table (px_interfere w1) \<and> px_moves w1 = px_moves w \<and>
          conn_at r w1 = new_conn a p \<and> Connections (px_table w1) (ID (new_conn a p)) = Some r \<and>
          byLocalPort (px_table w1) p = Some r
      | (Inl e, w') \<Rightarrow> px_table w' = px_table w \<or>
          \<not> Monitor (conn_at r w') \<and> Connections (px_table w') (ID (conn_at r w')) = None \<and>
          byLocalPort (px_table w') (SrcPort (conn_at r w')) = None)"

context conn_registry
begin

lemma registerNew_table:
  "conn_at r (registerNew fi a p r w) = new_conn a p"
  "Connections (px_table (registerNew fi a p r w)) (ID (new_conn a p)) = Some r"
  "byLocalPort (px_table (registerNew fi a p r w)) p = Some r"
proof -
  let ?f = "update_conn r (new_conn a p) (px_table w)"
  have f: "heap ?f r = new_conn a p" by (simp add: update_conn_def)
  have t: "px_table (registerNew fi a p r w) = inj_RegisterConn fi r ?f" by (simp add: registerNew_def px_modify_def)
  have "SrcPort (new_conn a p) = p"
    by (simp add: new_conn_def NewFakeInjectiveConnection_def NewMonitorConnection_def MonitorConnection.defs FakeInjectiveConnection.defs)
  then show "conn_at r (registerNew fi a p r w) = new_conn a p"
    "Connections (px_table (registerNew fi a p r w)) (ID (new_conn a p)) = Some r"
    "byLocalPort (px_table (registerNew fi a p r w)) p = Some r"
    using register_found [of r ?f] f by (simp_all add: t register_heap)
qed

lemma stop_table:
  "Connections (px_table (stopMonitoring fi r w)) (ID (conn_at r (stopMonitoring fi r w))) = None"
  "byLocalPort (px_table (stopMonitoring fi r w)) (SrcPort (conn_at r (stopMonitoring fi r w))) = None"
proof -
  let ?f = "update_conn r ((conn_at r w)\<lparr>Monitor := False\<rparr>) (px_table w)"
  have "heap ?f r = (conn_at r w)\<lparr>Monitor := False\<rparr>" by (simp add: update_conn_def)
  moreover have "px_table (stopMonitoring fi r w) = inj_UnregisterConn fi r ?f" by (simp add: stopMonitoring_def px_modify_def)
  ultimately show "Connections (px_table (stopMonitoring fi r w)) (ID (conn_at r (stopMonitoring fi r w))) = None"
    "byLocalPort (px_table (stopMonitoring fi r w)) (SrcPort (conn_at r (stopMonitoring fi r w))) = None"
    using unregister_gone [of r ?f] by (simp_all add: unregister_heap)
qed

lemma registered_success:
  "px_table w' = px_table (px_interfere (registerNew fi a p r w)) \<Longrightarrow> registered_first a r w (Inr (s, p), w')"
  unfolding registered_first_def using registerNew_table [where w = w] registerNew_simps(1) [where w = w] by auto

lemma registered_failure:
  "px_table w' = px_table (stopMonitoring fi r v) \<Longrightarrow> registered_first a r w (Inl e, w')"
  unfolding registered_first_def using stop_table [of r v] by (simp del: stop_simps(1)) (simp)

lemma registered_unchanged: "px_table w' = px_table w \<Longrightarrow> registered_first a r w (Inl e, w')"
  by (simp add: registered_first_def)

lemma dialUnix_registers: "registered_first a r w (dialUnix fi env a r w)"
  unfolding dialUnix_def Let_def
  by (simp add: registered_success registered_failure registered_unchanged split: option.split sum.split)

lemma dialWindows_registers: "registered_first a r w (dialOutgoing_windows fi env a r w)"
  unfolding dialOutgoing_windows_def Let_def
  by (simp add: registered_success registered_failure registered_unchanged split: option.split sum.split)

end

text \<open>The contract of a dialer.\<close>

locale dialer = conn_registry fi for fi :: "'x tcp_injector" +
  fixes dial :: "dial_args \<Rightarrow> nat \<Rightarrow> 'x px_world \<Rightarrow> (string + (nat \<times> u16)) \<times> 'x px_world"
  assumes dial_io: "px_io (snd (dial a r w)) = px_io w"
    and dial_ok: "moves_ok w \<Longrightarrow> dial a r w = (Inr (s, p), w') \<Longrightarrow> success_sound (conn_at r w') \<and> moves_ok w'"
    and dial_failed: "dial a r w = (Inl e, w') \<Longrightarrow> px_table w' = px_table w \<or> \<not> Monitor (conn_at r w')"

sublocale conn_registry \<subseteq> unix: dialer fi "dialUnix fi env" for env
  by unfold_locales
    (auto simp: dialUnix_def Let_def registerNew_simps registered_later split: option.splits sum.splits)

sublocale conn_registry \<subseteq> windows: dialer fi "dialOutgoing_windows fi env" for env
  by unfold_locales
    (auto simp: dialOutgoing_windows_def Let_def registerNew_simps registered_later moves_ok_same [of "px_close _ _"]
      split: option.splits sum.splits if_splits)

section \<open>What reaches the upstream\<close>

lemma relay_sends:
  "relay ns src dst = (src', dst') \<Longrightarrow> \<exists>q. sk_sent dst' = sk_sent dst @ q \<and> prefix q (pending src)"
proof (induction ns src dst rule: relay.induct)
  case (2 n ns src dst)
  show ?case
  proof (cases "pending src = []")
    case False
    let ?k = "min n bufSize"
    let ?p = "take ?k (pending src)" and ?src = "src\<lparr>pending := drop ?k (pending src)\<rparr>"
    obtain e d where w: "sink_write ?p dst = (e, d)" by fastforce
    show ?thesis
    proof (cases e)
      case None
      then have r: "relay ns ?src d = (src', dst')" using 2 False w by (simp add: Let_def)
      have "\<exists>q. sk_sent dst' = sk_sent d @ q \<and> prefix q (pending ?src)"
        by (rule 2(1) [OF False refl refl refl _ _ r]) (use w None in auto)
      then obtain q where "sk_sent dst' = sk_sent d @ q" "prefix q (drop ?k (pending src))" by auto
      moreover have "sk_sent d = sk_sent dst @ ?p" using sink.write_ok w None by simp
      moreover have "prefix (?p @ q) (?p @ drop ?k (pending src))" using \<open>prefix q _\<close> by (simp only: same_prefix_prefix)
      ultimately show ?thesis by (metis append.assoc append_take_drop_id)
    next
      case (Some x)
      then have "dst' = d" using 2 False w by (simp add: Let_def)
      moreover obtain q where "prefix q ?p" "sk_sent d = sk_sent dst @ q" using sink.write_err w Some by blast
      ultimately show ?thesis using take_is_prefix prefix_order.trans by blast
    qed
  qed (use 2 in simp)
qed simp

definition sent_up :: "'x px_world \<Rightarrow> 'x px_world \<Rightarrow> bool" where
  "sent_up w w' \<longleftrightarrow> (\<exists>q. sk_sent (px_up w') = sk_sent (px_up w) @ q \<and> prefix q (pending (px_client w)))"

lemma sent_up_io: "px_io w' = px_io w \<Longrightarrow> sent_up w w'"
  by (auto simp: px_io_def sent_up_def)

lemma sent_up_cong: "px_io v = px_io w \<Longrightarrow> px_io v' = px_io w' \<Longrightarrow> sent_up v v' = sent_up w w'"
  by (simp add: px_io_def sent_up_def)

lemma startRelay_simps:
  "sent_up w (snd (startRelay env opts s c w))" "px_table (snd (startRelay env opts s c w)) = px_table w"
  "fst (startRelay env opts s c w) = Relayed" "px_closed (snd (startRelay env opts s c w)) = px_closed w @ [s, c]"
proof -
  obtain up down where u: "hc_reads env = (up, down)" by fastforce
  obtain cl k where r: "relay up (px_client w) (px_up w) = (cl, k)" by fastforce
  show "sent_up w (snd (startRelay env opts s c w))"
    using relay_sends [OF r] u r
    by (simp add: startRelay_def case_prod_unfold sent_up_def closePair_def px_close_def Let_def)
  show "px_table (snd (startRelay env opts s c w)) = px_table w" "fst (startRelay env opts s c w) = Relayed"
    "px_closed (snd (startRelay env opts s c w)) = px_closed w @ [s, c]"
    by (simp_all add: startRelay_def case_prod_unfold Let_def)
qed

text \<open>What a handler may do: bytes go upstream, a prefix of what the client sends, only when it ends after the
  fake was sent; a panic while the first record is split has sent nothing.\<close>

definition upstream_after_fake :: "nat \<Rightarrow> 'x px_world \<Rightarrow> handled_as \<Rightarrow> 'x px_world \<Rightarrow> bool" where
  "upstream_after_fake r w res w' \<longleftrightarrow> sent_up w w' \<and>
     (if res = FragmentFailed \<or> res = Relayed \<or> res = Panicked
      then FakeSent (conn_at r w') \<and> (res = Panicked \<longrightarrow> px_up w' = px_up w)
      else px_io w' = px_io w)"

text \<open>How a handler leaves sockets and monitoring. Before the dial the handler holds the client's socket and
  nothing is registered; a dial that fails has undone the registration; afterwards monitoring has ended and
  both sockets are closed, except when splitting the first record panicked, which takes fragmentation and a
  huge chunk size: then the handler closes nothing.\<close>

definition cleaned_up ::
  "(dial_args \<Rightarrow> nat \<Rightarrow> 'x px_world \<Rightarrow> (string + (nat \<times> u16)) \<times> 'x px_world) \<Rightarrow> proxyOptions \<Rightarrow> nat \<Rightarrow> nat \<Rightarrow> 'x px_world \<Rightarrow>
   handled_as \<Rightarrow> 'x px_world \<Rightarrow> bool" where
  "cleaned_up dial opts inc r w res w' \<longleftrightarrow>
     (if res = NoFake then px_closed w' = px_closed w @ [inc] \<and> px_table w' = px_table w
      else if res = DialFailed then
        (\<exists>a e w1. dial a r w = (Inl e, w1) \<and> px_closed w' = px_closed w1 @ [inc]) \<and>
        (px_table w' = px_table w \<or> \<not> Monitor (conn_at r w'))
      else \<not> Monitor (conn_at r w') \<and>
        (\<exists>a s p w1. dial a r w = (Inr (s, p), w1) \<and>
           (if res = Panicked then po_enableFragment opts \<and> 2 ^ 62 \<le> po_sniChunk opts \<and> px_closed w' = px_closed w1
            else px_closed w' = px_closed w1 @ [s, inc])))"

text \<open>A record is far shorter than any chunk size the addition could overflow with. With such a chunk size the
  splitter either panics or cuts the host name in one piece.\<close>

lemma Split_record:
  assumes "wf_record rec" and "chunk < 2 ^ 62" and "0 \<le> chunk"
  obtains frags where "SplitClientHelloRecord rec chunk = Some frags" "concat frags = rec"
proof -
  have "length rec \<le> 5 + maxTLSPlaintextRecord" using assms(1) by (auto simp: wf_record_def Let_def)
  then have "int (length rec) + chunk < 2 ^ 63" using assms(2) by (simp add: maxTLSPlaintextRecord_def)
  from Split_lossless [OF this] that show ?thesis by blast
qed

lemma Split_record_any:
  assumes "wf_record rec" and "chunk < 2 ^ 63" and "0 \<le> chunk"
  shows "case SplitClientHelloRecord rec chunk of None \<Rightarrow> 2 ^ 62 \<le> chunk | Some frags \<Rightarrow> concat frags = rec"
proof (cases "chunk < 2 ^ 62")
  case True
  then obtain frags where "SplitClientHelloRecord rec chunk = Some frags" "concat frags = rec"
    using Split_record [OF assms(1) _ assms(3)] by blast
  then show ?thesis by simp
next
  case False
  have len: "length rec \<le> 5 + maxTLSPlaintextRecord" "rec \<noteq> []" using assms(1) by (auto simp: wf_record_def Let_def)
  then have l: "int (length rec) < 2 ^ 62" by (simp add: maxTLSPlaintextRecord_def)
  show ?thesis
  proof (rule sniValueRange_cases [of rec])
    assume "sniValueRange rec = Some None"
    then show ?thesis using len by (simp add: SplitClientHelloRecord_def Let_def)
  next
    fix s e
    assume r: "sniValueRange rec = Some (Some (s, e))" "9 \<le> s" "s < e" "e \<le> length rec"
    have bounds: "int s < 2 ^ 63" "int e < 2 ^ 62" using r(3,4) l by simp_all
    show ?thesis
    proof (cases "2 ^ 63 \<le> int s + chunk")
      case True
      then show ?thesis using Split_overflow [OF r(1) _ assms(2) bounds(1)] False by simp
    next
      case small: False
      have c: "chunkLoop rec e chunk s = Some [subslice rec s e]"
      proof -
        have w: "wrap64 (int s + chunk) = int s + chunk" using small assms(3) by (intro wrap64_id) simp_all
        have "int e < int s + chunk" "e \<le> s + nat chunk" using False bounds(2) by linarith+
        then have "chunkLoop rec e chunk (s + nat chunk) = Some []" by (simp add: chunkLoop.simps [of _ _ _ "s + nat chunk"])
        then show ?thesis
          using r False w \<open>int e < int s + chunk\<close> by (auto simp: chunkLoop.simps [of rec e chunk s] Let_def)
      qed
      have pre: "subslice rec 0 s = take s rec" "subslice rec e (length rec) = drop e rec" by (simp_all add: subslice_def)
      have "take s rec @ subslice rec s e @ drop e rec = rec" using take_subslice_drop [of s e rec] r by simp
      then show ?thesis using r c pre len False by (auto simp: SplitClientHelloRecord_def Let_def)
    qed
  qed
qed

lemma forward_sends:
  assumes "forwardFragmentedClientHello dl delay chunk e l w = (res, w')" and "chunk < 2 ^ 63" and "0 \<le> chunk"
  shows "res = ForwardPanic \<longrightarrow> 2 ^ 62 \<le> chunk \<and> px_up w' = px_up w"
    and "px_table w' = px_table w" and "px_closed w' = px_closed w" and "px_moves w' = px_moves w"
    and "sent_up w w'"
    and "res = Forwarded \<longrightarrow> (\<exists>rec. sk_sent (px_up w') = sk_sent (px_up w) @ rec \<and> pending (px_client w) = rec @ pending (px_client w'))"
proof -
  obtain x rd where x: "ReadFirstTLSRecord (px_client w) = (x, rd)" by fastforce
  have "(res = ForwardPanic \<longrightarrow> 2 ^ 62 \<le> chunk \<and> px_up w' = px_up w) \<and>
    px_table w' = px_table w \<and> px_closed w' = px_closed w \<and> px_moves w' = px_moves w \<and> sent_up w w' \<and>
    (res = Forwarded \<longrightarrow> (\<exists>rec. sk_sent (px_up w') = sk_sent (px_up w) @ rec \<and> pending (px_client w) = rec @ pending (px_client w')))"
  proof (cases "dl = None \<and> (\<exists>rec. x = Inr rec)")
    case True
    then obtain rec where rec: "x = Inr rec" by blast
    then have wf: "wf_record rec" "pending (px_client w) = rec @ pending rd"
      using x ReadFirstTLSRecord_iff [of "px_client w" rec rd] by simp_all
    note any = Split_record_any [OF wf(1) assms(2,3)]
    show ?thesis
    proof (cases "SplitClientHelloRecord rec chunk")
      case None
      then have "res = ForwardPanic" "w' = w\<lparr>px_client := rd\<rparr>" "2 ^ 62 \<le> chunk"
        using assms(1) True rec x any by (auto simp: forwardFragmentedClientHello_def Let_def)
      then show ?thesis by (simp add: sent_up_def)
    next
      case (Some frags)
      then have f: "concat frags = rec" using any by simp
      obtain err k where k: "WriteClientHelloFragments sink_write sink_sleep sink_log frags delay (Some sink_noDelay) e (px_up w) = (err, k)"
        by fastforce
      obtain q where q: "sk_sent k = sk_sent (px_up w) @ q" "prefix q rec" "err = None \<longrightarrow> q = rec"
        using sink.Write_out [OF k] f by auto
      have "prefix q (pending (px_client w))" using q(2) wf(2) by (simp add: prefix_def) auto
      moreover have "px_up w' = k" "px_client w' = rd" "px_table w' = px_table w" "px_closed w' = px_closed w" "px_moves w' = px_moves w"
        "res = (if err = None then Forwarded else ForwardError)"
        using assms(1) True rec x Some k by (auto simp: forwardFragmentedClientHello_def px_log_def Let_def split: if_splits)
      ultimately show ?thesis using q wf(2) by (auto simp: sent_up_def)
    qed
  next
    case False
    then have "res = ForwardError" "w' = w \<or> w' = w\<lparr>px_client := rd\<rparr>"
      using assms(1) x by (auto simp: forwardFragmentedClientHello_def Let_def split: sum.splits if_splits)
    then show ?thesis by (auto simp: sent_up_def)
  qed
  then show "res = ForwardPanic \<longrightarrow> 2 ^ 62 \<le> chunk \<and> px_up w' = px_up w"
    "px_table w' = px_table w" "px_closed w' = px_closed w" "px_moves w' = px_moves w" "sent_up w w'"
    "res = Forwarded \<longrightarrow> (\<exists>rec. sk_sent (px_up w') = sk_sent (px_up w) @ rec \<and> pending (px_client w) = rec @ pending (px_client w'))"
    by blast+
qed

text \<open>The ways out of the part after the acknowledgement.\<close>

definition forwarded_as :: "proxyOptions \<Rightarrow> nat \<Rightarrow> nat \<Rightarrow> 'x px_world \<Rightarrow> handled_as \<Rightarrow> 'x px_world \<Rightarrow> bool" where
  "forwarded_as opts s c w res w' \<longleftrightarrow>
     (res = FragmentFailed \<or> res = Relayed) \<and> px_closed w' = px_closed w @ [s, c] \<or>
     res = Panicked \<and> po_enableFragment opts \<and> 2 ^ 62 \<le> po_sniChunk opts \<and> px_closed w' = px_closed w \<and> px_up w' = px_up w"

lemma forwarded_as_cong:
  "px_closed v = px_closed w \<Longrightarrow> px_io v = px_io w \<Longrightarrow> forwarded_as opts s c v res w' = forwarded_as opts s c w res w'"
  by (simp add: forwarded_as_def px_io_def)

context conn_registry
begin

lemma forwardAndRelay_ok:
  assumes "forwardAndRelay env fi opts r s c w = (res, w')" and "FakeSent (conn_at r w)" and "moves_ok w"
    and "0 \<le> po_sniChunk opts" and "po_sniChunk opts < 2 ^ 63"
  shows "sent_up w w' \<and> FakeSent (conn_at r w') \<and> \<not> Monitor (conn_at r w') \<and> forwarded_as opts s c w res w'"
proof -
  define w2 where "w2 = (if po_fakeDelay opts > 0 then px_interfere (stopMonitoring fi r w) else stopMonitoring fi r w)"
  have "moves_ok (stopMonitoring fi r w)" using assms(3) by (simp add: moves_ok_def)
  then have w2: "FakeSent (conn_at r w2)" "\<not> Monitor (conn_at r w2)" "px_io w2 = px_io w" "px_closed w2 = px_closed w"
    using interfere_later(1) [of "stopMonitoring fi r w" r] assms(2) by (auto simp: w2_def later_def)
  have up: "px_up w2 = px_up w" using w2(3) by (simp add: px_io_def)
  show ?thesis
  proof (cases "po_enableFragment opts")
    case False
    then have "startRelay env opts s c w2 = (res, w')" using assms(1) by (simp add: forwardAndRelay_def Let_def flip: w2_def)
    then show ?thesis
      using startRelay_simps [where w = w2 and env = env and opts = opts and s = s and c = c] w2 sent_up_cong [of w2 w w' w']
      by (auto simp: forwarded_as_def)
  next
    case True
    obtain x w3 where x: "forwardFragmentedClientHello (hc_deadline env) (po_fragmentDelay opts) (po_sniChunk opts) False (\<not> po_quiet opts) w2 = (x, w3)"
      by fastforce
    note f = forward_sends [OF x assms(5,4)]
    show ?thesis
    proof (cases x)
      case Forwarded
      then have r: "startRelay env opts s c w3 = (res, w')"
        using assms(1) True x by (simp add: forwardAndRelay_def Let_def flip: w2_def)
      obtain rec where rec: "sk_sent (px_up w3) = sk_sent (px_up w2) @ rec" "pending (px_client w2) = rec @ pending (px_client w3)"
        using f(6) Forwarded by blast
      have "sent_up w3 w'" using startRelay_simps(1) [of w3 env opts s c] r by simp
      with rec have "sent_up w2 w'" by (auto simp: sent_up_def prefix_def)
      then show ?thesis
        using startRelay_simps(2-) [of env opts s c w3] r f(2,3) w2 sent_up_cong [of w2 w w' w'] by (auto simp: forwarded_as_def)
    next
      case ForwardError
      then have "res = FragmentFailed" "w' = closePair s c (px_log (po_quiet opts) ''ClientHello fragment'' w3)"
        using assms(1) True x by (auto simp: forwardAndRelay_def Let_def simp flip: w2_def)
      moreover have "sent_up w w'" using f(5) w2(3) calculation(2) sent_up_cong [of w2 w w3 w'] by simp
      ultimately show ?thesis using f(2,3) w2 by (simp add: forwarded_as_def)
    next
      case ForwardPanic
      then have "res = Panicked" "w' = px_log (po_quiet opts) ''panic in handle'' w3"
        using assms(1) True x by (auto simp: forwardAndRelay_def Let_def simp flip: w2_def)
      moreover have "sent_up w w'" using f(5) w2(3) calculation(2) sent_up_cong [of w2 w w3 w'] by simp
      moreover have "px_up w' = px_up w3" using calculation(2) px_simps(14) [of "po_quiet opts" "''panic in handle''" w3] by (simp add: px_log_def)
      ultimately show ?thesis using f(1-3) ForwardPanic w2 True up by (simp add: forwarded_as_def)
    qed
  qed
qed

lemma awaitResult_ok:
  assumes "moves_ok w" and "success_sound (conn_at r w)" and "awaitResult b r w = (x, w')"
  shows "moves_ok w'" and "px_io w' = px_io w" and "px_closed w' = px_closed w"
    and "x = Some ''fake_data_ack_recv'' \<Longrightarrow> FakeSent (conn_at r w')"
proof -
  have l: "later (conn_at r w) (conn_at r (px_interfere w))" "moves_ok (px_interfere w)" using interfere_later [OF assms(1)] .
  with assms(3) show "moves_ok w'" "px_io w' = px_io w" "px_closed w' = px_closed w"
    by (auto simp: awaitResult_def Let_def moves_ok_def split: list.splits if_splits)
  have "success_sound (conn_at r (px_interfere w))" using l(1) assms(2) by (simp add: later_def)
  then show "x = Some ''fake_data_ack_recv'' \<Longrightarrow> FakeSent (conn_at r w')"
    using assms(3) by (auto simp: awaitResult_def Let_def success_sound_def split: list.splits if_splits)
qed

lemma awaitAndForward_ok:
  assumes "awaitAndForward env fi opts r s c w = (res, w')" and "success_sound (conn_at r w)" and "moves_ok w"
    and "0 \<le> po_sniChunk opts" and "po_sniChunk opts < 2 ^ 63"
  shows "sent_up w w' \<and> \<not> Monitor (conn_at r w') \<and>
    (forwarded_as opts s c w res w' \<and> FakeSent (conn_at r w') \<or>
     (res = AckTimeout \<or> res = InjectorAborted \<or> res = UnexpectedMessage) \<and> px_io w' = px_io w \<and> px_closed w' = px_closed w @ [s, c])"
proof -
  let ?w = "px_modify r (\<lambda>c. c\<lparr>Sock := Some s\<rparr>) w"
  obtain x w2 where x: "awaitResult (hc_timerFirst env) r ?w = (x, w2)" by fastforce
  have m: "moves_ok ?w" "success_sound (conn_at r ?w)" using assms(2,3) by (simp_all add: moves_ok_def success_sound_def)
  note a = awaitResult_ok [OF m x]
  show ?thesis
  proof (cases "x = Some ''fake_data_ack_recv''")
    case True
    then have "forwardAndRelay env fi opts r s c w2 = (res, w')" using assms(1) x by (simp add: awaitAndForward_def Let_def)
    from forwardAndRelay_ok [OF this a(4) [OF True] a(1) assms(4,5)] a(2,3) sent_up_cong [of w2 w w' w'] forwarded_as_cong [of w2 w]
    show ?thesis by auto
  next
    case False
    then have "(res = AckTimeout \<or> res = InjectorAborted \<or> res = UnexpectedMessage) \<and>
        (\<exists>m. w' = closePair s c (stopMonitoring fi r (px_log (po_quiet opts) m w2)))"
      using assms(1) x by (auto simp: awaitAndForward_def Let_def split: option.splits if_splits)
    then show ?thesis using a(2,3) by (auto simp: sent_up_io)
  qed
qed

end

context dialer
begin

lemma handle_cases:
  assumes "handleConnection env inc cfg ip sni fi opts r w = (res, w')" and "hc_dial env fi = dial"
  obtains (no_fake) "res = NoFake" "px_io w' = px_io w" "px_closed w' = px_closed w @ [inc]" "px_table w' = px_table w"
  | (no_dial) a e w1 where "dial a r w = (Inl e, w1)" "res = DialFailed" "px_io w' = px_io w" "px_closed w' = px_closed w1 @ [inc]"
      "px_table w' = px_table w1"
  | (dialled) a s p w1 where "dial a r w = (Inr (s, p), w1)" "px_io w1 = px_io w" "awaitAndForward env fi opts r s inc w1 = (res, w')"
proof -
  obtain r1 r2 r3 where rnd: "hc_rand env = (r1, r2, r3)" by (cases "hc_rand env") auto
  let ?fk = "buildFakeClientHello r1 r2 r3 (hc_defaultID env) (hc_idByName env) (hc_raw env) sni (UTLSClientHello cfg)"
  show ?thesis
  proof (cases ?fk)
    case (Inl e)
    then show ?thesis using assms(1) rnd no_fake by (auto simp: handleConnection_def)
  next
    case (Inr fakeData)
    define a where "a = \<lparr>da_interfaceIPv4 = ip, da_connectIP = ConnectIP cfg, da_connectPort = ConnectPort cfg,
       da_fakeData = fakeData, da_bypassMethod = ''wrong_seq'', da_fakeRepeat = po_fakeRepeat opts,
       da_fakeDelay = po_fakeDelay opts, da_fragmentDelay = po_fragmentDelay opts, da_incomingSock = inc\<rparr>"
    obtain d w1 where d: "dial a r w = (d, w1)" by fastforce
    have io: "px_io w1 = px_io w" using dial_io [of a r w] d by simp
    show ?thesis
    proof (cases d)
      case (Inl e)
      then have "res = DialFailed" "px_io w' = px_io w1" "px_closed w' = px_closed w1 @ [inc]" "px_table w' = px_table w1"
        using assms rnd Inr d by (auto simp: handleConnection_def simp flip: a_def)
      then show ?thesis using no_dial d Inl io by simp
    next
      case dialled_to: (Inr y)
      then have "awaitAndForward env fi opts r (fst y) inc w1 = (res, w')"
        using assms rnd Inr d by (simp add: handleConnection_def case_prod_unfold flip: a_def)
      then show ?thesis using dialled [of a "fst y" "snd y"] d dialled_to io by simp
    qed
  qed
qed

lemma handle_ok:
  assumes h: "handleConnection env inc cfg ip sni fi opts r w = (res, w')" and dial: "hc_dial env fi = dial" and m: "moves_ok w"
    and chunk: "0 \<le> po_sniChunk opts" "po_sniChunk opts < 2 ^ 63"
  shows "upstream_after_fake r w res w' \<and> cleaned_up dial opts inc r w res w'"
  using h dial
proof (cases rule: handle_cases)
  case no_fake
  then show ?thesis by (simp add: upstream_after_fake_def cleaned_up_def sent_up_io)
next
  case (no_dial a e w1)
  then show ?thesis using dial_failed [OF no_dial(1)] by (auto simp: upstream_after_fake_def cleaned_up_def sent_up_io)
next
  case (dialled a s p w1)
  have ok: "success_sound (conn_at r w1)" "moves_ok w1" using dial_ok [OF m dialled(1)] by simp_all
  have up: "px_up w1 = px_up w" using dialled(2) by (simp add: px_io_def)
  from awaitAndForward_ok [OF dialled(3) ok chunk] dialled(1,2) sent_up_cong [of w1 w w' w'] show ?thesis
    by (fastforce simp: upstream_after_fake_def cleaned_up_def forwarded_as_def up)
qed

end

context dialer
begin

lemma handle_upstream:
  assumes "d fi = dial" and "moves_ok w" and "0 \<le> po_sniChunk opts" and "po_sniChunk opts < 2 ^ 63"
  shows "case handleConnection (env\<lparr>hc_dial := d\<rparr>) inc cfg ip sni fi opts r w of (res, w') \<Rightarrow> upstream_after_fake r w res w'"
  using handle_ok [of "env\<lparr>hc_dial := d\<rparr>" inc cfg ip sni opts r w] assms by (auto split: prod.split)

lemma handle_cleans:
  assumes "d fi = dial" and "moves_ok w" and "0 \<le> po_sniChunk opts" and "po_sniChunk opts < 2 ^ 63"
  shows "case handleConnection (env\<lparr>hc_dial := d\<rparr>) inc cfg ip sni fi opts r w of (res, w') \<Rightarrow> cleaned_up dial opts inc r w res w'"
  using handle_ok [of "env\<lparr>hc_dial := d\<rparr>" inc cfg ip sni opts r w] assms by (auto split: prod.split)

end

section \<open>The handler with each injector\<close>

abbreviation "lx_injector \<equiv> \<lparr>inj_RegisterConn = lx_RegisterConn, inj_UnregisterConn = lx_UnregisterConn\<rparr>"
abbreviation "lxp_injector \<equiv> \<lparr>inj_RegisterConn = lxp_RegisterConn, inj_UnregisterConn = lxp_UnregisterConn\<rparr>"
abbreviation "dw_injector \<equiv> \<lparr>inj_RegisterConn = dw_RegisterConn, inj_UnregisterConn = dw_UnregisterConn\<rparr>"
abbreviation "wd_injector \<equiv> \<lparr>inj_RegisterConn = wd_RegisterConn, inj_UnregisterConn = wd_UnregisterConn\<rparr>"
abbreviation "wdp_injector \<equiv> \<lparr>inj_RegisterConn = wdp_RegisterConn, inj_UnregisterConn = wdp_UnregisterConn\<rparr>"

text \<open>Captured packets, and the steps of the injection goroutine on one connection, are moves.\<close>

lemma packets_are_moves:
  "table_move (\<lambda>f. fst (lx_processPacket v a f))" "table_move (\<lambda>f. fst (lxp_onFrame frame f))"
  "table_move (\<lambda>f. fst (dw_onFrame frame f))" "table_move (\<lambda>f. fst (wd_inject env raw addr f))"
  "table_move (\<lambda>f. fst (wdp_onPacket raw f))"
  by (simp_all add: table_move_def heap_steps_injector lx_processPacket_steps lxp_onFrame_steps dw_onFrame_steps
      wd_inject_steps wdp_onPacket_steps)

lemma goroutine_moves: "(\<And>c. injector_steps c (g c)) \<Longrightarrow> table_move (\<lambda>f. update_conn r (g (heap f r)) f)"
  by (simp add: table_move_def update_conn_def)

text \<open>
  C2. The client's data goes upstream only after the fake: on every platform and with every injector,
  whatever the injector does meanwhile, a handler sends to the upstream nothing but a prefix of the bytes
  the client sends, in order, and nothing at all unless \<^verbatim>\<open>FakeSent\<close> is set for the connection it
  dialled; on every other path neither connection carries a byte. The chunk size is any non-negative 64-bit
  integer, as \<^verbatim>\<open>main\<close> accepts it.
\<close>

theorem upstream_only_after_fake:
  assumes "0 \<le> po_sniChunk opts" and "po_sniChunk opts < 2 ^ 63"
    and "moves_ok w1" and "moves_ok w2" and "moves_ok w3" and "moves_ok w4" and "moves_ok w5"
  shows "(case handleConnection (env1\<lparr>hc_dial := \<lambda>fi. dialOutgoing_linux fi de\<rparr>) inc cfg ip sni lx_injector opts r w1 of
        (res, w') \<Rightarrow> upstream_after_fake r w1 res w') \<and>
    (case handleConnection (env2\<lparr>hc_dial := \<lambda>fi. dialOutgoing_linux fi de\<rparr>) inc cfg ip sni lxp_injector opts r w2 of
        (res, w') \<Rightarrow> upstream_after_fake r w2 res w') \<and>
    (case handleConnection (env3\<lparr>hc_dial := \<lambda>fi. dialOutgoing_darwin fi de\<rparr>) inc cfg ip sni dw_injector opts r w3 of
        (res, w') \<Rightarrow> upstream_after_fake r w3 res w') \<and>
    (case handleConnection (env4\<lparr>hc_dial := \<lambda>fi. dialOutgoing_windows fi de\<rparr>) inc cfg ip sni wd_injector opts r w4 of
        (res, w') \<Rightarrow> upstream_after_fake r w4 res w') \<and>
    (case handleConnection (env5\<lparr>hc_dial := \<lambda>fi. dialOutgoing_windows fi de\<rparr>) inc cfg ip sni wdp_injector opts r w5 of
        (res, w') \<Rightarrow> upstream_after_fake r w5 res w')"
  unfolding dialOutgoing_linux_def dialOutgoing_darwin_def
  using linux_flows.registry.unix.handle_upstream [where d = "\<lambda>fi. dialUnix fi de", OF refl assms(3,1,2)]
    linux_passive_flows.registry.unix.handle_upstream [where d = "\<lambda>fi. dialUnix fi de", OF refl assms(4,1,2)]
    darwin_flows.registry.unix.handle_upstream [where d = "\<lambda>fi. dialUnix fi de", OF refl assms(5,1,2)]
    windows_flows.registry.windows.handle_upstream [where d = "\<lambda>fi. dialOutgoing_windows fi de", OF refl assms(6,1,2)]
    windows_passive_flows.registry.windows.handle_upstream [where d = "\<lambda>fi. dialOutgoing_windows fi de", OF refl assms(7,1,2)]
  by (intro conjI) assumption+

text \<open>
  C10. How a handler leaves its sockets and monitoring, on every platform and with every injector. If no fake
  can be built it closes the client's socket and has registered nothing; if the dial fails it closes the
  client's socket, and either nothing was registered or the connection is no longer monitored. After a
  successful dial monitoring has ended on every path, and the upstream's and the client's socket are closed on
  every path but one: when splitting the first record panics, which takes fragmentation and a chunk size of
  at least \<open>2\<^sup>6\<^sup>2\<close>, the recovered panic leaves both open.
\<close>

theorem handler_cleans_up:
  assumes "0 \<le> po_sniChunk opts" and "po_sniChunk opts < 2 ^ 63"
    and "moves_ok w1" and "moves_ok w2" and "moves_ok w3" and "moves_ok w4" and "moves_ok w5"
  shows "(case handleConnection (env1\<lparr>hc_dial := \<lambda>fi. dialOutgoing_linux fi de\<rparr>) inc cfg ip sni lx_injector opts r w1 of
        (res, w') \<Rightarrow> cleaned_up (dialOutgoing_linux lx_injector de) opts inc r w1 res w') \<and>
    (case handleConnection (env2\<lparr>hc_dial := \<lambda>fi. dialOutgoing_linux fi de\<rparr>) inc cfg ip sni lxp_injector opts r w2 of
        (res, w') \<Rightarrow> cleaned_up (dialOutgoing_linux lxp_injector de) opts inc r w2 res w') \<and>
    (case handleConnection (env3\<lparr>hc_dial := \<lambda>fi. dialOutgoing_darwin fi de\<rparr>) inc cfg ip sni dw_injector opts r w3 of
        (res, w') \<Rightarrow> cleaned_up (dialOutgoing_darwin dw_injector de) opts inc r w3 res w') \<and>
    (case handleConnection (env4\<lparr>hc_dial := \<lambda>fi. dialOutgoing_windows fi de\<rparr>) inc cfg ip sni wd_injector opts r w4 of
        (res, w') \<Rightarrow> cleaned_up (dialOutgoing_windows wd_injector de) opts inc r w4 res w') \<and>
    (case handleConnection (env5\<lparr>hc_dial := \<lambda>fi. dialOutgoing_windows fi de\<rparr>) inc cfg ip sni wdp_injector opts r w5 of
        (res, w') \<Rightarrow> cleaned_up (dialOutgoing_windows wdp_injector de) opts inc r w5 res w')"
  unfolding dialOutgoing_linux_def dialOutgoing_darwin_def
  using linux_flows.registry.unix.handle_cleans [where d = "\<lambda>fi. dialUnix fi de", OF refl assms(3,1,2)]
    linux_passive_flows.registry.unix.handle_cleans [where d = "\<lambda>fi. dialUnix fi de", OF refl assms(4,1,2)]
    darwin_flows.registry.unix.handle_cleans [where d = "\<lambda>fi. dialUnix fi de", OF refl assms(5,1,2)]
    windows_flows.registry.windows.handle_cleans [where d = "\<lambda>fi. dialOutgoing_windows fi de", OF refl assms(6,1,2)]
    windows_passive_flows.registry.windows.handle_cleans [where d = "\<lambda>fi. dialOutgoing_windows fi de", OF refl assms(7,1,2)]
  by (intro conjI) assumption+

text \<open>
  C11. The flow is registered before the first packet of the handshake can be seen: when a dial succeeds
  the connection, with the fake and the addresses asked for, was entered under its 4-tuple and its local
  port before the injector made its next move; when one fails, either nothing was entered or the
  connection was removed again and is no longer monitored.
\<close>

theorem dial_registers_first:
  "registered_first a r w1 (dialOutgoing_linux lx_injector de a r w1) \<and> registered_first a r w2 (dialOutgoing_linux lxp_injector de a r w2) \<and>
   registered_first a r w3 (dialOutgoing_darwin dw_injector de a r w3) \<and>
   registered_first a r w4 (dialOutgoing_windows wd_injector de a r w4) \<and> registered_first a r w5 (dialOutgoing_windows wdp_injector de a r w5)"
  unfolding dialOutgoing_linux_def dialOutgoing_darwin_def
  by (intro conjI linux_flows.registry.dialUnix_registers linux_passive_flows.registry.dialUnix_registers
      darwin_flows.registry.dialUnix_registers windows_flows.registry.dialWindows_registers
      windows_passive_flows.registry.dialWindows_registers)

section \<open>Everything the client sends arrives\<close>

lemma writeLoop_leaves_room:
  assumes "length (concat ps) \<le> sk_room k"
  shows "\<exists>k'. writeLoop sink_write sink_sleep sink_log delay logEach n i ps k = (None, k') \<and>
    sk_room k' = sk_room k - length (concat ps)"
  using assms
proof (induction ps arbitrary: i k)
  case (Cons p ps)
  show ?case
  proof (cases "p = []")
    case False
    let ?k = "if i > 0 \<and> delay > 0 then sink_sleep delay k else k"
    define k1 where "k1 = snd (sink_write p ?k)"
    have k1: "sink_write p ?k = (None, k1)" "sk_room k1 = sk_room k - length p"
      using Cons.prems by (auto simp: sink_write_def sink_event_def k1_def Let_def)
    let ?k2 = "if logEach then sink_log (i + 1) n (length p) k1 else k1"
    have "sk_room ?k2 = sk_room k - length p" using k1(2) by (simp add: sink_event_def)
    with Cons.IH [of ?k2 "i + 1"] Cons.prems show ?thesis using False k1(1) by (auto simp: Let_def)
  qed (use Cons in simp)
qed simp

lemma Write_succeeds:
  assumes "length (concat frags) \<le> sk_room k"
  shows "\<exists>k'. WriteClientHelloFragments sink_write sink_sleep sink_log frags delay (Some sink_noDelay) logEach k = (None, k') \<and>
    sk_room k' = sk_room k - length (concat frags) \<and> sk_sent k' = sk_sent k @ concat frags"
proof -
  have "length (concat frags) \<le> sk_room (sink_noDelay True k)" using assms by (simp add: sink_event_def)
  from writeLoop_leaves_room [OF this, of delay logEach "length (filter (\<lambda>p. length p > 0) frags)" 0]
  obtain k1 where k1: "writeLoop sink_write sink_sleep sink_log delay logEach (length (filter (\<lambda>p. length p > 0) frags)) 0 frags
      (sink_noDelay True k) = (None, k1)" "sk_room k1 = sk_room k - length (concat frags)"
    by (auto simp: sink_event_def)
  then have w: "WriteClientHelloFragments sink_write sink_sleep sink_log frags delay (Some sink_noDelay) logEach k = (None, sink_noDelay False k1)"
    by (simp add: WriteClientHelloFragments_def Let_def)
  moreover have "sk_room (sink_noDelay False k1) = sk_room k - length (concat frags)" using k1(2) by (simp add: sink_event_def)
  ultimately show ?thesis using sink.Write_out [OF w] by auto
qed

text \<open>The relay sends on what it reads, until it is stopped.\<close>

abbreviation read_sizes :: "nat list \<Rightarrow> nat" where
  "read_sizes ns \<equiv> sum_list (map (\<lambda>n. min n bufSize) ns)"

lemma relay_take:
  assumes "length (pending src) \<le> sk_room dst"
  shows "\<exists>src' dst'. relay ns src dst = (src', dst') \<and> sk_sent dst' = sk_sent dst @ take (read_sizes ns) (pending src)"
  using assms
proof (induction ns src dst rule: relay.induct)
  case (2 n ns src dst)
  show ?case
  proof (cases "pending src = []")
    case False
    let ?k = "min n bufSize"
    let ?p = "take ?k (pending src)" and ?src = "src\<lparr>pending := drop ?k (pending src)\<rparr>"
    define d where "d = snd (sink_write ?p dst)"
    have "length ?p \<le> sk_room dst" using "2.prems" by simp
    then have "take (sk_room dst) ?p = ?p" by (rule take_all)
    then have d: "sink_write ?p dst = (None, d)" "sk_room d = sk_room dst - length ?p" "sk_sent d = sk_sent dst @ ?p"
      by (simp_all add: sink_write_def d_def Let_def del: take_take)
    have "length (pending ?src) \<le> sk_room d" using "2.prems" d(2) by simp
    then obtain src' dst' where "relay ns ?src d = (src', dst')" "sk_sent dst' = sk_sent d @ take (read_sizes ns) (pending ?src)"
      using 2(1) [OF False refl refl refl d(1) [symmetric] refl] by auto
    then show ?thesis using False d by (simp add: Let_def take_add)
  qed simp
qed simp

text \<open>The client's stream is one the fragmentation accepts.\<close>

definition starts_with_record :: "byte list \<Rightarrow> bool" where
  "starts_with_record bs \<longleftrightarrow> (\<exists>rec rest. bs = rec @ rest \<and> wf_record rec)"

lemma forward_succeeds:
  assumes "starts_with_record (pending (px_client w))" and "length (pending (px_client w)) \<le> sk_room (px_up w)"
    and "0 \<le> chunk" and "chunk < 2 ^ 62"
  shows "\<exists>w' rec. forwardFragmentedClientHello None delay chunk e l w = (Forwarded, w') \<and> wf_record rec \<and>
    pending (px_client w) = rec @ pending (px_client w') \<and> sk_sent (px_up w') = sk_sent (px_up w) @ rec \<and>
    sk_room (px_up w') = sk_room (px_up w) - length rec \<and> px_closed w' = px_closed w"
proof -
  obtain rec rest where rec: "pending (px_client w) = rec @ rest" "wf_record rec" using assms(1) by (auto simp: starts_with_record_def)
  define rd where "rd = (px_client w)\<lparr>pending := rest\<rparr>"
  have rd: "ReadFirstTLSRecord (px_client w) = (Inr rec, rd)" using rec by (simp add: ReadFirstTLSRecord_iff rd_def)
  obtain frags where f: "SplitClientHelloRecord rec chunk = Some frags" "concat frags = rec" using Split_record [OF rec(2) assms(4,3)] .
  have "length (concat frags) \<le> sk_room (px_up w)" using assms(2) rec(1) f(2) by simp
  then obtain k where "WriteClientHelloFragments sink_write sink_sleep sink_log frags delay (Some sink_noDelay) e (px_up w) = (None, k)"
    "sk_room k = sk_room (px_up w) - length rec" "sk_sent k = sk_sent (px_up w) @ rec"
    using Write_succeeds f(2) by metis
  then show ?thesis using rd f(1) rec by (auto simp: forwardFragmentedClientHello_def Let_def px_log_def rd_def)
qed

lemma startRelay_takes:
  assumes "hc_reads env = (up, down)" and "length (pending (px_client w)) \<le> sk_room (px_up w)"
  shows "\<exists>w'. startRelay env opts s c w = (Relayed, w') \<and>
    sk_sent (px_up w') = sk_sent (px_up w) @ take (read_sizes up) (pending (px_client w)) \<and> px_closed w' = px_closed w @ [s, c]"
  using relay_take [OF assms(2), of up] assms(1)
  by (auto simp: startRelay_def Let_def case_prod_unfold closePair_def px_close_def)

text \<open>After the acknowledgement: what the upstream has received when the handler ends. \<open>up\<close> are the reads the
  relay makes from the client before the other direction ends it.\<close>

definition upstream_gets ::
  "bool \<Rightarrow> string option \<Rightarrow> nat list \<Rightarrow> byte list \<Rightarrow> handled_as \<Rightarrow> byte list \<Rightarrow> bool" where
  "upstream_gets fragment deadline up stream res sent \<longleftrightarrow>
     (if \<not> fragment then res = Relayed \<and> sent = take (read_sizes up) stream
      else if deadline = None \<and> starts_with_record stream then
        res = Relayed \<and> (\<exists>rec rest. wf_record rec \<and> stream = rec @ rest \<and> sent = rec @ take (read_sizes up) rest)
      else res = FragmentFailed \<and> sent = [])"

lemma upstream_gets_all:
  assumes "upstream_gets fragment deadline up stream res sent" and "length stream \<le> read_sizes up"
    and "fragment \<Longrightarrow> deadline = None \<and> starts_with_record stream"
  shows "res = Relayed" and "sent = stream"
  using assms by (auto simp: upstream_gets_def split: if_splits)

lemma forwardAndRelay_gets:
  assumes "hc_reads env = (up, down)" and "length (pending (px_client w)) \<le> sk_room (px_up w)"
    and "0 \<le> po_sniChunk opts" and "po_sniChunk opts < 2 ^ 62"
  shows "\<exists>res w' sent. forwardAndRelay env fi opts r s c w = (res, w') \<and> sk_sent (px_up w') = sk_sent (px_up w) @ sent \<and>
    upstream_gets (po_enableFragment opts) (hc_deadline env) up (pending (px_client w)) res sent \<and> px_closed w' = px_closed w @ [s, c]"
proof -
  define w2 where "w2 = (if po_fakeDelay opts > 0 then px_interfere (stopMonitoring fi r w) else stopMonitoring fi r w)"
  have w2: "px_client w2 = px_client w" "px_up w2 = px_up w" "px_closed w2 = px_closed w"
    by (auto simp: w2_def stopMonitoring_def px_interfere_def px_modify_def Let_def split: list.split)
  show ?thesis
  proof (cases "po_enableFragment opts")
    case False
    then show ?thesis
      using startRelay_takes [OF assms(1), of w2 opts s c] assms(2) w2
      by (simp add: forwardAndRelay_def Let_def upstream_gets_def flip: w2_def)
  next
    case frag: True
    show ?thesis
    proof (cases "hc_deadline env = None \<and> starts_with_record (pending (px_client w))")
      case True
      obtain v rec where v: "forwardFragmentedClientHello None (po_fragmentDelay opts) (po_sniChunk opts) False (\<not> po_quiet opts) w2 = (Forwarded, v)"
        "pending (px_client w2) = rec @ pending (px_client v)" "sk_sent (px_up v) = sk_sent (px_up w2) @ rec" "wf_record rec"
        "sk_room (px_up v) = sk_room (px_up w2) - length rec" "px_closed v = px_closed w2"
        using forward_succeeds [of w2 "po_sniChunk opts"] assms(2-4) True w2 by metis
      then have "length (pending (px_client v)) \<le> sk_room (px_up v)" using assms(2) w2 by simp
      from startRelay_takes [OF assms(1) this, of opts s c] obtain w' where w': "startRelay env opts s c v = (Relayed, w')"
        "sk_sent (px_up w') = sk_sent (px_up v) @ take (read_sizes up) (pending (px_client v))" "px_closed w' = px_closed v @ [s, c]"
        by blast
      have "upstream_gets True None up (rec @ pending (px_client v)) Relayed (rec @ take (read_sizes up) (pending (px_client v)))"
        using v(4) True v(2) w2(1) by (auto simp: upstream_gets_def)
      then show ?thesis
        using w' v frag True w2
        by (intro exI [of _ Relayed] exI [of _ w'] exI [of _ "rec @ take (read_sizes up) (pending (px_client v))"])
          (simp add: forwardAndRelay_def Let_def flip: w2_def)
    next
      case False
      have "\<exists>v. forwardFragmentedClientHello (hc_deadline env) (po_fragmentDelay opts) (po_sniChunk opts) False (\<not> po_quiet opts) w2 = (ForwardError, v) \<and>
        px_up v = px_up w2 \<and> px_closed v = px_closed w2"
      proof (cases "hc_deadline env = None")
        case True
        obtain x rd where x: "ReadFirstTLSRecord (px_client w2) = (x, rd)" by fastforce
        have "x \<noteq> Inr rec" for rec
          using False True w2(1) x ReadFirstTLSRecord_iff [of "px_client w2" rec rd] by (auto simp: starts_with_record_def)
        then obtain e where "x = Inl e" by (cases x) auto
        then show ?thesis using x True by (simp add: forwardFragmentedClientHello_def)
      qed (simp add: forwardFragmentedClientHello_def)
      then show ?thesis
        using frag False w2
        by (auto simp: forwardAndRelay_def Let_def upstream_gets_def closePair_def px_close_def px_log_def simp flip: w2_def)
    qed
  qed
qed

text \<open>
  C9. What the upstream receives after the acknowledgement, if it takes the bytes and the chunk size is below
  \<open>2\<^sup>6\<^sup>2\<close>. Without fragmentation it is exactly what the relay reads from the client, in order, before it is
  stopped, which is the whole stream unless the server's direction ends first. With fragmentation, if the
  read deadline is accepted and the stream starts with a TLS handshake record, it is that record followed by
  what the relay reads of the rest; otherwise nothing is sent. In every case both sockets are closed then.
\<close>

theorem client_bytes_delivered:
  assumes "hc_reads env = (up, down)" and "length (pending (px_client w)) \<le> sk_room (px_up w)"
    and "0 \<le> po_sniChunk opts" and "po_sniChunk opts < 2 ^ 62"
  shows "\<exists>res w' sent. forwardAndRelay env fi opts r s c w = (res, w') \<and> sk_sent (px_up w') = sk_sent (px_up w) @ sent \<and>
    upstream_gets (po_enableFragment opts) (hc_deadline env) up (pending (px_client w)) res sent \<and>
    (length (pending (px_client w)) \<le> read_sizes up \<and> res = Relayed \<longrightarrow> sent = pending (px_client w)) \<and>
    px_closed w' = px_closed w @ [s, c]"
proof -
  have "sent = stream" if "upstream_gets fragment dl up stream Relayed sent" "length stream \<le> read_sizes up" for fragment dl stream sent
    using that by (auto simp: upstream_gets_def split: if_splits)
  with forwardAndRelay_gets [OF assms, of fi r s c] show ?thesis by blast
qed

section \<open>One client, for the witnesses\<close>

text \<open>A Linux handler whose injector completes the injection while the handler waits.\<close>

definition sample_client :: "byte list" where
  "sample_client = [22, 3, 1, 0, 2, 1, 2, 23, 3, 3]"

definition complete_at :: "nat \<Rightarrow> 'x flow_table_scheme \<Rightarrow> 'x flow_table_scheme" where
  "complete_at r f = update_conn r (fst (signalIfMonitoring ((heap f r)\<lparr>FakeSent := True\<rparr>))) f"

definition idle_world :: "('x flow_table_scheme \<Rightarrow> 'x flow_table_scheme) list \<Rightarrow> 'x flow_table_scheme \<Rightarrow> 'x px_world" where
  "idle_world ms f = \<lparr>px_table = f, px_moves = ms, px_client = \<lparr>pending = sample_client, final_error = EOF\<rparr>,
     px_server = \<lparr>pending = [], final_error = EOF\<rparr>, px_up = \<lparr>sk_room = 100, sk_sent = [], sk_events = []\<rparr>,
     px_down = \<lparr>sk_room = 100, sk_sent = [], sk_events = []\<rparr>, px_closed = [], px_logs = []\<rparr>"

lemma moves_ok_idle: "moves_ok (idle_world [\<lambda>f. f, complete_at r] f)" "moves_ok (idle_world [] f)"
proof -
  have "injector_steps c (fst (signalIfMonitoring (c\<lparr>FakeSent := True\<rparr>)))" for c
    using injector_step.sent [of c] injector_step.signal [of "c\<lparr>FakeSent := True\<rparr>"] by (simp add: converse_rtranclp_into_rtranclp)
  then have "table_move (complete_at r)" unfolding complete_at_def by (rule goroutine_moves)
  then show "moves_ok (idle_world [\<lambda>f. f, complete_at r] f)" "moves_ok (idle_world [] f)"
    by (simp_all add: moves_ok_def idle_world_def table_move_def)
qed

definition sample_dial :: dial_env where
  "sample_dial = \<lparr>de_resolve = \<lambda>_. None, de_control = True, de_socket = None, de_keepalive = None, de_bind = None,
     de_sockname = Inr (Some 50000), de_connect = None, de_newFile = True, de_fileConn = None, de_fd = 8, de_sock = 9\<rparr>"

definition sample_hc :: "('x tcp_injector \<Rightarrow> dial_args \<Rightarrow> nat \<Rightarrow> 'x px_world \<Rightarrow> (string + (nat \<times> u16)) \<times> 'x px_world) \<Rightarrow> (nat, 'x) hc_env" where
  "sample_hc d = \<lparr>hc_rand = (Inr (replicate 32 1), Inr (replicate 32 2), Inr (replicate 32 3)), hc_defaultID = 0,
     hc_idByName = [''chrome'' \<mapsto> 1], hc_raw = sample_raw, hc_dial = d, hc_timerFirst = False, hc_deadline = None,
     hc_reads = (replicate 10 4, [1])\<rparr>"

definition sample_chrome :: Config where
  "sample_chrome = sample_cfg\<lparr>UTLSClientHello := ''Chrome'', FakeSNI := ''mci.ir''\<rparr>"

lemma sample_to4: "To4_of ''10.0.0.2'' = Some [10, 0, 0, 2]"
  by code_simp

lemma sample_record: "starts_with_record sample_client"
proof -
  have "wf_record [22, 3, 1, 0, 2, 1, 2]" by code_simp
  moreover have "sample_client = [22, 3, 1, 0, 2, 1, 2] @ [23, 3, 3]" by (simp add: sample_client_def)
  ultimately show ?thesis unfolding starts_with_record_def by blast
qed

lemma sample_opts_simps [simp]: "po_sniChunk sample_opts = 4" "po_enableFragment sample_opts" "po_fakeDelay sample_opts = 5000000"
  by (simp_all add: sample_opts_def)

lemma sample_hc_simps [simp]:
  "hc_reads (sample_hc d) = (replicate 10 4, [1])" "hc_deadline (sample_hc d) = None" "\<not> hc_timerFirst (sample_hc d)"
  "sample_hc d\<lparr>hc_dial := e\<rparr> = sample_hc e" "list_all (\<lambda>n :: nat. 0 < n) (replicate 10 4)" "length sample_client = 10"
  by (simp_all add: sample_hc_def list_all_iff sample_client_def)

lemma sample_gets:
  assumes "upstream_gets True None (replicate 10 4) sample_client res sent"
  shows "res = Relayed" and "sent = sample_client"
proof -
  have "min 4 bufSize = 4" by (simp add: bufSize_def)
  then have "length sample_client \<le> read_sizes (replicate 10 4)" by (simp add: sum_list_replicate)
  from upstream_gets_all [OF assms this] sample_record show "res = Relayed" "sent = sample_client" by simp_all
qed

lemma sample_delivers:
  assumes "px_client w2 = \<lparr>pending = sample_client, final_error = EOF\<rparr>" and "px_up w2 = \<lparr>sk_room = 100, sk_sent = [], sk_events = []\<rparr>"
  shows "\<exists>w'. forwardAndRelay (sample_hc d) fi sample_opts r s c w2 = (Relayed, w') \<and> sk_sent (px_up w') = sample_client"
  using forwardAndRelay_gets [of "sample_hc d" "replicate 10 4" "[1]" w2 sample_opts fi r s c] assms
  by (auto dest: sample_gets)

lemma sample_dialled:
  "\<exists>w2. handleConnection (sample_hc (\<lambda>fi. dialOutgoing_linux fi sample_dial)) 7 sample_chrome ''10.0.0.2'' ''mci.ir'' lx_injector
      sample_opts 0 (idle_world [\<lambda>f. f, complete_at 0] f) =
     forwardAndRelay (sample_hc (\<lambda>fi. dialOutgoing_linux fi sample_dial)) lx_injector sample_opts 0 9 7 w2 \<and>
     px_client w2 = \<lparr>pending = sample_client, final_error = EOF\<rparr> \<and> px_up w2 = \<lparr>sk_room = 100, sk_sent = [], sk_events = []\<rparr>"
proof -
  let ?w = "idle_world [\<lambda>f. f, complete_at 0] f"
  define a where "a = \<lparr>da_interfaceIPv4 = ''10.0.0.2'', da_connectIP = ConnectIP sample_chrome, da_connectPort = ConnectPort sample_chrome,
    da_fakeData = [22, 3, 3, 0, 8, 1, 109, 99, 105, 46, 105, 114, 1], da_bypassMethod = ''wrong_seq'', da_fakeRepeat = po_fakeRepeat sample_opts,
    da_fakeDelay = po_fakeDelay sample_opts, da_fragmentDelay = po_fragmentDelay sample_opts, da_incomingSock = 7\<rparr>"
  define w1 where "w1 = px_interfere (registerNew lx_injector a 50000 0 ?w)"
  have "\<exists>ip. To4_of ''10.0.0.2'' = Some ip" using sample_to4 by blast
  then have "dialOutgoing_linux lx_injector sample_dial a 0 ?w = (Inr (9, 50000), w1)"
    by (auto simp: dialOutgoing_linux_def dialUnix_def sample_dial_def bindLocal_def a_def w1_def)
  with sample_built have h: "handleConnection (sample_hc (\<lambda>fi. dialOutgoing_linux fi sample_dial)) 7 sample_chrome ''10.0.0.2'' ''mci.ir''
      lx_injector sample_opts 0 ?w = awaitAndForward (sample_hc (\<lambda>fi. dialOutgoing_linux fi sample_dial)) lx_injector sample_opts 0 9 7 w1"
    unfolding handleConnection_def a_def by (simp add: sample_hc_def sample_chrome_def)
  have n: "Monitor (new_conn a 50000)" "T2aChan (new_conn a 50000) = []"
    by (simp_all add: new_conn_def NewFakeInjectiveConnection_def NewMonitorConnection_def MonitorConnection.defs FakeInjectiveConnection.defs)
  have c: "conn_at 0 w1 = new_conn a 50000" "px_moves w1 = [complete_at 0]" "px_io w1 = px_io ?w"
    using linux_flows.registry.registerNew_table(1) [where a = a and p = 50000 and r = 0 and w = ?w]
      linux_flows.registry.registerNew_simps(1,2) [where a = a and p = 50000 and r = 0 and w = ?w]
    by (simp_all add: w1_def px_interfere_def idle_world_def px_io_def)
  define v where "v = px_interfere (px_modify 0 (\<lambda>c. c\<lparr>Sock := Some 9\<rparr>) w1)"
  have "T2aChan (conn_at 0 v) = [''fake_data_ack_recv'']"
    using c n by (simp add: v_def px_interfere_def complete_at_def update_conn_def signalIfMonitoring_def trySend_def T2aCap_def px_modify_def)
  then have "awaitAndForward (sample_hc (\<lambda>fi. dialOutgoing_linux fi sample_dial)) lx_injector sample_opts 0 9 7 w1 =
      forwardAndRelay (sample_hc (\<lambda>fi. dialOutgoing_linux fi sample_dial)) lx_injector sample_opts 0 9 7 (px_modify 0 (\<lambda>c. c\<lparr>T2aChan := []\<rparr>) v)"
    by (simp add: awaitAndForward_def awaitResult_def Let_def flip: v_def)
  moreover have "px_io (px_modify 0 (\<lambda>c. c\<lparr>T2aChan := []\<rparr>) v) = px_io ?w" using c(3) by (simp add: v_def)
  ultimately show ?thesis using h by (auto simp: px_io_def idle_world_def)
qed

lemma sample_relayed:
  "\<exists>w'. handleConnection (sample_hc (\<lambda>fi. dialOutgoing_linux fi sample_dial)) 7 sample_chrome ''10.0.0.2'' ''mci.ir'' lx_injector
      sample_opts 0 (idle_world [\<lambda>f. f, complete_at 0] f) = (Relayed, w') \<and> sk_sent (px_up w') = sample_client"
  using sample_dialled [of f] sample_delivers by metis

theorem upstream_only_after_fake_witness:
  "\<exists>w'. handleConnection (sample_hc (\<lambda>fi. dialOutgoing_linux fi sample_dial)) 7 sample_chrome ''10.0.0.2'' ''mci.ir'' lx_injector
      sample_opts 0 (idle_world [\<lambda>f. f, complete_at 0] undefined) = (Relayed, w') \<and>
     sk_sent (px_up w') = sample_client \<and> FakeSent (conn_at 0 w')"
proof -
  let ?w = "idle_world [\<lambda>f. f, complete_at 0] undefined"
  obtain w' where w': "handleConnection (sample_hc (\<lambda>fi. dialOutgoing_linux fi sample_dial)) 7 sample_chrome ''10.0.0.2'' ''mci.ir''
      lx_injector sample_opts 0 ?w = (Relayed, w')" "sk_sent (px_up w') = sample_client"
    using sample_relayed by blast
  have "upstream_after_fake 0 ?w Relayed w'"
    using upstream_only_after_fake [where opts = sample_opts and ?env1.0 = "sample_hc undefined" and de = sample_dial and inc = 7 and cfg = sample_chrome
        and ip = "''10.0.0.2''" and sni = "''mci.ir''" and r = 0,
        OF _ _ moves_ok_idle(1) [of 0 undefined] moves_ok_idle(2) moves_ok_idle(2) moves_ok_idle(2) moves_ok_idle(2), THEN conjunct1] w'(1)
    by simp
  then show ?thesis using w' by (simp add: upstream_after_fake_def)
qed

theorem handler_cleans_up_witness:
  "\<exists>w'. handleConnection (sample_hc (\<lambda>fi. dialOutgoing_linux fi sample_dial)) 7 sample_chrome ''10.0.0.2'' ''mci.ir'' lx_injector
      sample_opts 0 (idle_world [\<lambda>f. f, complete_at 0] undefined) = (Relayed, w') \<and>
     cleaned_up (dialOutgoing_linux lx_injector sample_dial) sample_opts 7 0 (idle_world [\<lambda>f. f, complete_at 0] undefined) Relayed w'"
proof -
  obtain w' where w': "handleConnection (sample_hc (\<lambda>fi. dialOutgoing_linux fi sample_dial)) 7 sample_chrome ''10.0.0.2'' ''mci.ir''
      lx_injector sample_opts 0 (idle_world [\<lambda>f. f, complete_at 0] undefined) = (Relayed, w')"
    using sample_relayed by blast
  then show ?thesis
    using handler_cleans_up [where opts = sample_opts and ?env1.0 = "sample_hc undefined" and de = sample_dial and inc = 7 and cfg = sample_chrome
        and ip = "''10.0.0.2''" and sni = "''mci.ir''" and r = 0,
        OF _ _ moves_ok_idle(1) [of 0 undefined] moves_ok_idle(2) moves_ok_idle(2) moves_ok_idle(2) moves_ok_idle(2), THEN conjunct1]
    by simp
qed

theorem client_bytes_delivered_witness:
  "\<exists>w'. forwardAndRelay (sample_hc (\<lambda>fi. dialOutgoing_linux fi sample_dial)) lx_injector sample_opts 0 9 7 (idle_world [] undefined) =
      (Relayed, w') \<and> sk_sent (px_up w') = sample_client"
  using client_bytes_delivered [of "sample_hc (\<lambda>fi. dialOutgoing_linux fi sample_dial)" "replicate 10 4" "[1]" "idle_world [] undefined"
      sample_opts lx_injector 0 9 7]
  by (auto simp: idle_world_def dest: sample_gets)

end
