(* ===== verification/Receive_Loop.thy ===== *)
theory Receive_Loop
  imports Packet_Steps
begin

text \<open>
  The contract of the receive loops behind \<^verbatim>\<open>Start\<close>: what the operating system answers in each round
  is a list of events, and a round ends the loop, is skipped (with log lines at most), or delivers
  packets to the handler. A loop that satisfies the contract handles exactly the packets delivered
  before it ends, each once and in order, and whatever the handler preserves holds throughout.
\<close>

section \<open>Rounds\<close>

datatype loop_end = Receiving | Finished | Crashed

datatype ('p, 'a) round = Ends loop_end "'a effect list" | Skips "'a effect list" | Delivers "'p list"

fun is_log :: "'a effect \<Rightarrow> bool" where
  "is_log (LogF m) = True"
| "is_log _ = False"

fun delivered :: "('ev \<Rightarrow> ('p, 'a) round) \<Rightarrow> 'ev list \<Rightarrow> 'p list" where
  "delivered c [] = []"
| "delivered c (e # es) =
     (case c e of Ends r l \<Rightarrow> [] | Skips l \<Rightarrow> delivered c es | Delivers ps \<Rightarrow> ps @ delivered c es)"

fun ending :: "('ev \<Rightarrow> ('p, 'a) round) \<Rightarrow> 'ev list \<Rightarrow> loop_end" where
  "ending c [] = Receiving"
| "ending c (e # es) = (case c e of Ends r l \<Rightarrow> r | Skips l \<Rightarrow> ending c es | Delivers ps \<Rightarrow> ending c es)"

text \<open>Handling a list of packets one after the other.\<close>

fun handle_all :: "('p \<Rightarrow> 'f \<Rightarrow> 'f \<times> 'a effect list) \<Rightarrow> 'p list \<Rightarrow> 'f \<Rightarrow> 'f \<times> 'a effect list" where
  "handle_all h [] f = (f, [])"
| "handle_all h (p # ps) f = (let (f, es) = h p f; (f, es') = handle_all h ps f in (f, es @ es'))"

lemma handle_all_append:
  "handle_all h (ps @ qs) f =
     (let (f, es) = handle_all h ps f; (f, es') = handle_all h qs f in (f, es @ es'))"
  by (induction ps arbitrary: f) (simp_all split: prod.split)

lemma handle_all_steps:
  assumes "\<And>p f. heap_steps f (fst (h p f))"
  shows "heap_steps f (fst (handle_all h ps f))"
proof (induction ps arbitrary: f)
  case (Cons p ps)
  show ?case
    using heap_steps_trans [OF assms [of f p] Cons.IH] by (simp add: case_prod_beta)
qed simp

text \<open>The result of a loop that has handled exactly the given packets, in order: the tables, the effects
  but for log lines, and no connection has taken any other step than those of packets.\<close>

definition handles_exactly ::
  "('p \<Rightarrow> 'x flow_table_scheme \<Rightarrow> 'x flow_table_scheme \<times> 'a effect list) \<Rightarrow> 'p list \<Rightarrow> 'x flow_table_scheme \<Rightarrow>
   loop_end \<times> 'x flow_table_scheme \<times> 'a effect list \<Rightarrow> bool" where
  "handles_exactly h ps f res \<longleftrightarrow>
     (case res of (r, f', es) \<Rightarrow>
        f' = fst (handle_all h ps f) \<and>
        filter (\<lambda>e. \<not> is_log e) es = filter (\<lambda>e. \<not> is_log e) (snd (handle_all h ps f)) \<and>
        heap_steps f f')"

section \<open>The contract\<close>

locale receive_loop =
  fixes loop :: "'ev list \<Rightarrow> 'x flow_table_scheme \<Rightarrow> loop_end \<times> 'x flow_table_scheme \<times> 'a effect list"
    and handle :: "'p \<Rightarrow> 'x flow_table_scheme \<Rightarrow> 'x flow_table_scheme \<times> 'a effect list"
    and classify :: "'ev \<Rightarrow> ('p, 'a) round"
  assumes loop_Nil: "loop [] f = (Receiving, f, [])"
    and loop_Ends: "classify e = Ends r l \<Longrightarrow> loop (e # es) f = (r, f, l)"
    and loop_Skips: "classify e = Skips l \<Longrightarrow> loop (e # es) f = (let (r, f, l') = loop es f in (r, f, l @ l'))"
    and loop_Delivers: "classify e = Delivers ps \<Longrightarrow>
      loop (e # es) f = (let (f, l) = handle_all handle ps f; (r, f, l') = loop es f in (r, f, l @ l'))"
    and end_logs: "classify e = Ends r l \<Longrightarrow> list_all is_log l"
    and skip_logs: "classify e = Skips l \<Longrightarrow> list_all is_log l"
    and handle_steps: "heap_steps f (fst (handle p f))"
begin

lemma loop_handles:
  "\<exists>l. loop es f = (ending classify es, fst (handle_all handle (delivered classify es) f), l) \<and>
     filter (\<lambda>e. \<not> is_log e) l = filter (\<lambda>e. \<not> is_log e) (snd (handle_all handle (delivered classify es) f))"
proof (induction es arbitrary: f)
  case Nil
  show ?case by (simp add: loop_Nil)
next
  case (Cons e es)
  have logs: "filter (\<lambda>e. \<not> is_log e) l = []" if "list_all is_log l" for l :: "'a effect list"
    using that by (simp add: filter_empty_conv list_all_iff)
  show ?case
  proof (cases "classify e")
    case (Ends r l)
    then show ?thesis using logs [OF end_logs [OF Ends]] by (simp add: loop_Ends)
  next
    case (Skips l)
    with Cons.IH [of f] logs [OF skip_logs [OF Skips]] show ?thesis by (auto simp: loop_Skips)
  next
    case (Delivers ps)
    obtain g k where h: "handle_all handle ps f = (g, k)" by (cases "handle_all handle ps f")
    obtain g' k' where h': "handle_all handle (delivered classify es) g = (g', k')"
      by (cases "handle_all handle (delivered classify es) g")
    from Cons.IH [of g] obtain l where "loop es g = (ending classify es, g', l)"
      "filter (\<lambda>e. \<not> is_log e) l = filter (\<lambda>e. \<not> is_log e) k'"
      unfolding h' by auto
    then show ?thesis using Delivers h h' by (simp add: loop_Delivers handle_all_append)
  qed
qed

lemma loop_steps: "heap_steps f (fst (snd (loop es f)))"
proof -
  from loop_handles [of es f] obtain l
    where "loop es f = (ending classify es, fst (handle_all handle (delivered classify es) f), l)" by blast
  then show ?thesis using handle_all_steps [where h = handle, OF handle_steps] by simp
qed

lemma loop_exactly: "handles_exactly handle (delivered classify es) f (loop es f)"
proof -
  from loop_handles [of es f] obtain l
    where "loop es f = (ending classify es, fst (handle_all handle (delivered classify es) f), l)"
      "filter (\<lambda>e. \<not> is_log e) l = filter (\<lambda>e. \<not> is_log e) (snd (handle_all handle (delivered classify es) f))" by blast
  with loop_steps [of f es] show ?thesis by (simp add: handles_exactly_def)
qed

lemma loop_end: "fst (loop es f) = ending classify es"
  using loop_handles [of es f] by auto

end

end
