(* ===== verification/Capture_Life.thy ===== *)
theory Capture_Life
  imports Receive_Loop BPF Linux_Setup Options
begin

text \<open>
  The life cycle of the two injectors that capture link-layer frames: constructor, receive loop,
  \<^verbatim>\<open>WaitInjectorReady\<close> and \<^verbatim>\<open>Close\<close> of \<^verbatim>\<open>injection/injector_linux_passive.go\<close> and
  \<^verbatim>\<open>injection/injector_darwin.go\<close>, with \<^verbatim>\<open>openBPF\<close> and \<^verbatim>\<open>setBPFFilter\<close> of \<^verbatim>\<open>injection/bpf_darwin.go\<close>. The
  process state is \<open>setup_world\<close>: open descriptors, context, ready channel, log; the answers of the
  system calls are arguments. The loops satisfy the contract \<open>receive_loop\<close>.
\<close>

section \<open>The interface of an address\<close>

definition addrOwns :: "byte list \<Rightarrow> net_addr \<Rightarrow> bool" where
  "addrOwns ip4 a =
     (case a of
        IPNet ip \<Rightarrow> IP_To4 ip \<noteq> None \<and> IP_Equal ip ip4
      | IPAddr ip \<Rightarrow> IP_To4 ip \<noteq> None \<and> IP_Equal ip ip4
      | OtherAddr \<Rightarrow> False)"

fun findOwner :: "(net_addr \<Rightarrow> bool) \<Rightarrow> net_interface list \<Rightarrow> net_interface option" where
  "findOwner owns [] = None"
| "findOwner owns (iface # rest) =
     (case if_Addrs iface of
        None \<Rightarrow> findOwner owns rest
      | Some addrs \<Rightarrow> if list_ex owns addrs then Some iface else findOwner owns rest)"

text \<open>\<^verbatim>\<open>net.ParseIP(s).To4()\<close>; a nil address has no 4-byte form.\<close>

definition ParseIP4 :: "string \<Rightarrow> byte list option" where
  "ParseIP4 s = (case ParseIP s of None \<Rightarrow> None | Some ip \<Rightarrow> IP_To4 ip)"

definition interfaceByIPv4 :: "string + net_interface list \<Rightarrow> string \<Rightarrow> string + net_interface" where
  "interfaceByIPv4 interfaces localIPv4 =
     (case ParseIP4 localIPv4 of
        None \<Rightarrow> Inl (''local address is not IPv4: '' @ Quote localIPv4)
      | Some ip \<Rightarrow>
          (case interfaces of
             Inl err \<Rightarrow> Inl err
           | Inr ifaces \<Rightarrow>
               (case findOwner (addrOwns ip) ifaces of
                  Some iface \<Rightarrow> Inr iface
                | None \<Rightarrow> Inl (''no interface found for local IPv4 '' @ Quote localIPv4))))"

definition interfaceNameForIPv4 :: "string + net_interface list \<Rightarrow> string \<Rightarrow> string + string" where
  "interfaceNameForIPv4 interfaces localIPv4 =
     (case ParseIP localIPv4 of
        None \<Rightarrow> Inl (''invalid local IPv4 '' @ Quote localIPv4)
      | Some ip \<Rightarrow>
          (case IP_To4 ip of
             None \<Rightarrow> Inl (''local address is not IPv4: '' @ Quote localIPv4)
           | Some ip4 \<Rightarrow>
               (case interfaces of
                  Inl err \<Rightarrow> Inl err
                | Inr ifaces \<Rightarrow>
                    (case findOwner (addrMatches ip4) ifaces of
                       Some iface \<Rightarrow> Inr (if_Name iface)
                     | None \<Rightarrow> Inl (''no interface found for local IPv4 '' @ Quote localIPv4)))))"

section \<open>The passive Linux injector\<close>

text \<open>\<open>pe_lookup\<close> and \<open>pe_mtuLookup\<close> are the two calls of \<^verbatim>\<open>net.Interfaces\<close>.\<close>

record lxp_env =
  pe_lookup :: "string + net_interface list"
  pe_mtuLookup :: "net_interface list option"
  pe_socket :: "string + int"
  pe_bind :: "nat \<Rightarrow> string option"
  pe_AttachLsf :: "SockFilter list \<Rightarrow> string option"

definition newPassiveFakeTcpInjector ::
  "lxp_env \<Rightarrow> (nat \<Rightarrow> FakeInjectiveConnection) \<Rightarrow> string \<Rightarrow> string list \<Rightarrow> u16 \<Rightarrow> setup_world \<Rightarrow>
   (string + LinuxPassiveInjector) \<times> setup_world" where
  "newPassiveFakeTcpInjector env store interfaceIP connectIPv4s connectPort w =
     (if length connectIPv4s = 0 then (Inl ''no upstream IPv4 addresses'', w)
      else (case interfaceByIPv4 (pe_lookup env) interfaceIP of
              Inl err \<Rightarrow> (Inl err, w)
            | Inr iface \<Rightarrow>
      (case pe_socket env of
         Inl err \<Rightarrow> (Inl (''AF_PACKET socket: '' @ err), w)
       | Inr fd \<Rightarrow>
      let w = w\<lparr>su_fds := fd # su_fds w\<rparr> in
      (case pe_bind env (if_Index iface) of
         Some err \<Rightarrow> (Inl (''bind AF_PACKET '' @ if_Name iface @ '': '' @ err), closeFd fd w)
       | None \<Rightarrow>
           if length (if_HardwareAddr iface) \<noteq> 6 then
             (Inl (''passive Linux injector supports Ethernet-like interfaces only; '' @ if_Name iface @
                   '' has hardware address length '' @ decimal (length (if_HardwareAddr iface))), closeFd fd w)
           else
             let w = (case attachPassiveHostFilter (pe_AttachLsf env) (connectIPv4s ! 0) of
                        Some err \<Rightarrow> su_log (''passive: filter not installed ('' @ err @ ''); filtering in userspace'') w
                      | None \<Rightarrow> w);
                 mtu = nicMTUForLocalIPv4 (pe_mtuLookup env) interfaceIP;
                 w = (if mtu = 0 then su_log (''injector: fallback MSS '' @ decimal fallbackTCPPayloadMax) w else w);
                 w = su_log (''passive: AF_PACKET iface='' @ if_Name iface @ '' mtu='' @ decimal_int mtu) w
             in (Inr \<lparr>Connections = Map.empty, byLocalPort = Map.empty, heap = store, lxp_fd = fd,
                      lxp_ifindex = if_Index iface, lxp_linkHdr = None, lxp_localIP = interfaceIP,
                      lxp_connectIP = connectIPv4s ! 0, lxp_connectPort = connectPort, lxp_nicMTU = mtu\<rparr>, w)))))"

text \<open>\<^verbatim>\<open>NewFakeTcpInjector\<close> of Linux chooses by the mode.\<close>

definition NewFakeTcpInjector_linux ::
  "lx_env \<Rightarrow> lxp_env \<Rightarrow> (nat \<Rightarrow> FakeInjectiveConnection) \<Rightarrow> string \<Rightarrow> string list \<Rightarrow> u16 \<Rightarrow> InjectorMode \<Rightarrow> setup_world \<Rightarrow>
   ((string + (LinuxInjector + LinuxPassiveInjector)) \<times> setup_world) option" where
  "NewFakeTcpInjector_linux env penv store interfaceIP connectIPv4s connectPort mode w =
     (if mode = InjectorModePassive
      then Some (map_prod (map_sum id Inr) id (newPassiveFakeTcpInjector penv store interfaceIP connectIPv4s connectPort w))
      else map_option (map_prod (map_sum id Inl) id)
             (newNFQueueFakeTcpInjector env store interfaceIP connectIPv4s connectPort w))"

text \<open>A round of a receive loop: whether the context is done at its start, what the read returned, and
  whether the context is done after a failed read. A read that would block is tried again.\<close>

datatype read_result = Received "byte list" | TryAgain | ReadError string

type_synonym read_round = "bool \<times> read_result \<times> bool"

fun lxp_StartLoop ::
  "read_round list \<Rightarrow> LinuxPassiveInjector \<Rightarrow> loop_end \<times> LinuxPassiveInjector \<times> unit effect list" where
  "lxp_StartLoop [] f = (Receiving, f, [])"
| "lxp_StartLoop ((ctxDone, res, lateDone) # rounds) f =
     (if ctxDone then (Finished, f, [])
      else (case res of
              TryAgain \<Rightarrow> lxp_StartLoop rounds f
            | ReadError err \<Rightarrow>
                if lateDone then (Finished, f, [])
                else let (r, f, es) = lxp_StartLoop rounds f in (r, f, LogF (''passive recv: '' @ err) # es)
            | Received buf \<Rightarrow>
                if length buf \<le> 0 then lxp_StartLoop rounds f
                else let (f, es) = lxp_onFrame buf f;
                         (r, f, es') = lxp_StartLoop rounds f
                     in (r, f, es @ es')))"

definition lxp_Start ::
  "read_round list \<Rightarrow> LinuxPassiveInjector \<Rightarrow> setup_world \<Rightarrow>
   (loop_end \<times> LinuxPassiveInjector \<times> unit effect list) \<times> setup_world" where
  "lxp_Start rounds f w = (lxp_StartLoop rounds f, w\<lparr>su_ready := True\<rparr>)"

definition lxp_WaitInjectorReady :: "setup_world \<Rightarrow> string option option" where
  "lxp_WaitInjectorReady w = (if su_ready w then Some None else None)"

definition lxp_Close :: "LinuxPassiveInjector \<Rightarrow> setup_world \<Rightarrow> LinuxPassiveInjector \<times> setup_world" where
  "lxp_Close f w =
     (if su_closed w then (f, w)
      else let w = (cancel w)\<lparr>su_closed := True\<rparr>
           in if lxp_fd f \<ge> 0 then (f\<lparr>lxp_fd := -1\<rparr>, closeFd (lxp_fd f) w) else (f, w))"

section \<open>The macOS injector\<close>

datatype open_result = Opened int | OpenBusy | OpenDenied | OpenMissing | OpenFailed

text \<open>\<open>be_setif\<close> gets the 16 bytes of the interface name that fit in \<^verbatim>\<open>ifreq\<close>; \<open>be_setf\<close> is the answer to
  installing an assembled filter program.\<close>

record bpf_env =
  be_lookup :: "string + net_interface list"
  be_mtuLookup :: "net_interface list option"
  be_open :: "nat \<Rightarrow> open_result"
  be_setif :: "string \<Rightarrow> string option"
  be_blen :: "string + int"
  be_dlt :: "string + int"
  be_immediate :: "string option"
  be_setf :: "bpf_instruction list \<Rightarrow> string option"

function openLoop :: "(nat \<Rightarrow> open_result) \<Rightarrow> nat \<Rightarrow> string + int" where
  "openLoop op i =
     (if i < 256 then
        (case op i of
           Opened fd \<Rightarrow> Inr fd
         | OpenBusy \<Rightarrow> openLoop op (i + 1)
         | OpenDenied \<Rightarrow> Inl (''open /dev/bpf'' @ decimal i @ '': permission denied (run with sudo)'')
         | OpenMissing \<Rightarrow> Inr (-1)
         | OpenFailed \<Rightarrow> openLoop op (i + 1))
      else Inr (-1))"
  by pat_completeness auto
termination
  by (relation "measure (\<lambda>(op, i). 256 - i)") auto

declare openLoop.simps [simp del]

definition openBPF :: "bpf_env \<Rightarrow> string \<Rightarrow> setup_world \<Rightarrow> (string + (int \<times> int \<times> int)) \<times> setup_world" where
  "openBPF env ifaceName w =
     (case openLoop (be_open env) 0 of
        Inl e \<Rightarrow> (Inl e, w)
      | Inr fd \<Rightarrow>
          if fd < 0 then (Inl ''no free /dev/bpf device available'', w)
          else let w = w\<lparr>su_fds := fd # su_fds w\<rparr> in
          (case be_setif env (take 16 ifaceName) of
             Some e \<Rightarrow> (Inl (''BIOCSETIF '' @ Quote ifaceName @ '': '' @ e), closeFd fd w)
           | None \<Rightarrow>
          (case be_blen env of
             Inl e \<Rightarrow> (Inl (''BIOCGBLEN: '' @ e), closeFd fd w)
           | Inr bufLen \<Rightarrow>
          (case be_dlt env of
             Inl e \<Rightarrow> (Inl (''BIOCGDLT: '' @ e), closeFd fd w)
           | Inr dlt \<Rightarrow>
          (case be_immediate env of
             Some e \<Rightarrow> (Inl (''BIOCIMMEDIATE: '' @ e), closeFd fd w)
           | None \<Rightarrow> (Inr (fd, bufLen, dlt), w))))))"

definition setBPFFilter :: "bpf_env \<Rightarrow> nat \<Rightarrow> string \<Rightarrow> string option" where
  "setBPFFilter env linkLen connectIP =
     (case ParseIP4 connectIP of
        None \<Rightarrow> Some (''connect IP is not IPv4: '' @ Quote connectIP)
      | Some ip \<Rightarrow> be_setf env (buildTCPHostFilter linkLen ip))"

definition NewFakeTcpInjector_darwin ::
  "bpf_env \<Rightarrow> (nat \<Rightarrow> FakeInjectiveConnection) \<Rightarrow> string \<Rightarrow> string list \<Rightarrow> u16 \<Rightarrow> InjectorMode \<Rightarrow> setup_world \<Rightarrow>
   (string + DarwinInjector) \<times> setup_world" where
  "NewFakeTcpInjector_darwin env store interfaceIP connectIPv4s connectPort mode w =
     (if mode = InjectorModeActive then (Inl ''macOS only supports the passive injector'', w)
      else if length connectIPv4s = 0 then (Inl ''no upstream IPv4 addresses'', w)
      else let connectIP = connectIPv4s ! 0 in
      (case interfaceNameForIPv4 (be_lookup env) interfaceIP of
         Inl err \<Rightarrow> (Inl err, w)
       | Inr ifaceName \<Rightarrow>
      (case openBPF env ifaceName w of
         (Inl err, w) \<Rightarrow> (Inl err, cancel w)
       | (Inr (fd, bufLen, dlt), w) \<Rightarrow>
      (case linkHeaderLen dlt of
         Inl err \<Rightarrow> (Inl err, cancel (closeFd fd w))
       | Inr linkLen \<Rightarrow>
           let w = (case setBPFFilter env linkLen connectIP of
                      Some err \<Rightarrow> su_log (''bpf: filter not installed ('' @ err @ ''); filtering in userspace'') w
                    | None \<Rightarrow> w);
               mtu = nicMTUForLocalIPv4 (be_mtuLookup env) interfaceIP;
               w = (if mtu = 0 then su_log (''injector: fallback MSS '' @ decimal fallbackTCPPayloadMax) w else w);
               w = su_log (''bpf: iface='' @ ifaceName @ '' dlt='' @ decimal_int dlt @ '' linkLen='' @ decimal linkLen @
                           '' mtu='' @ decimal_int mtu) w
           in (Inr \<lparr>Connections = Map.empty, byLocalPort = Map.empty, heap = store, dw_bpfFd = fd, dw_dlt = dlt,
                    dw_linkLen = linkLen, dw_localIP = interfaceIP, dw_linkHdr = None, dw_connectIP = connectIP,
                    dw_connectPort = connectPort, dw_nicMTU = mtu, dw_bufLen = bufLen\<rparr>, w)))))"

text \<open>Every read returns a buffer of capture records.\<close>

fun dw_StartLoop :: "read_round list \<Rightarrow> DarwinInjector \<Rightarrow> loop_end \<times> DarwinInjector \<times> unit effect list" where
  "dw_StartLoop [] f = (Receiving, f, [])"
| "dw_StartLoop ((ctxDone, res, lateDone) # rounds) f =
     (if ctxDone then (Finished, f, [])
      else (case res of
              TryAgain \<Rightarrow> dw_StartLoop rounds f
            | ReadError err \<Rightarrow>
                if lateDone then (Finished, f, []) else (Finished, f, [LogF (''bpf read: '' @ err)])
            | Received buf \<Rightarrow>
                if length buf \<le> 0 then dw_StartLoop rounds f
                else (case iterBPFBuffer buf of
                        None \<Rightarrow> (Crashed, f, [])
                      | Some frames \<Rightarrow>
                          let (f, es) = handle_all dw_onFrame frames f;
                              (r, f, es') = dw_StartLoop rounds f
                          in (r, f, es @ es'))))"

definition dw_Start ::
  "read_round list \<Rightarrow> DarwinInjector \<Rightarrow> setup_world \<Rightarrow>
   (loop_end \<times> DarwinInjector \<times> unit effect list) \<times> setup_world" where
  "dw_Start rounds f w = (dw_StartLoop rounds f, w\<lparr>su_ready := True\<rparr>)"

definition dw_WaitInjectorReady :: "setup_world \<Rightarrow> string option option" where
  "dw_WaitInjectorReady w = (if su_ready w then Some (su_openErr w) else None)"

definition dw_Close :: "DarwinInjector \<Rightarrow> setup_world \<Rightarrow> DarwinInjector \<times> setup_world" where
  "dw_Close f w =
     (if su_closed w then (f, w)
      else let w = (cancel w)\<lparr>su_closed := True\<rparr>
           in if dw_bpfFd f \<ge> 0 then (f\<lparr>dw_bpfFd := -1\<rparr>, closeFd (dw_bpfFd f) w) else (f, w))"

section \<open>The receive loops satisfy the contract\<close>

definition lxp_round :: "read_round \<Rightarrow> (byte list, unit) round" where
  "lxp_round e =
     (case e of (ctxDone, res, lateDone) \<Rightarrow>
        if ctxDone then Ends Finished []
        else (case res of
                TryAgain \<Rightarrow> Skips []
              | ReadError err \<Rightarrow> if lateDone then Ends Finished [] else Skips [LogF (''passive recv: '' @ err)]
              | Received buf \<Rightarrow> if buf = [] then Skips [] else Delivers [buf]))"

definition dw_round :: "read_round \<Rightarrow> (byte list, unit) round" where
  "dw_round e =
     (case e of (ctxDone, res, lateDone) \<Rightarrow>
        if ctxDone then Ends Finished []
        else (case res of
                TryAgain \<Rightarrow> Skips []
              | ReadError err \<Rightarrow> Ends Finished (if lateDone then [] else [LogF (''bpf read: '' @ err)])
              | Received buf \<Rightarrow> if buf = [] then Skips [] else Delivers (the (iterBPFBuffer buf))))"

lemma dw_round_not_crashed: "dw_round e \<noteq> Ends Crashed l"
  by (simp add: dw_round_def split: prod.split read_result.split)

lemma dw_ending: "ending dw_round es \<noteq> Crashed"
  by (induction es) (auto split: round.split dest: dw_round_not_crashed [THEN notE])

interpretation lxp_loop: receive_loop lxp_StartLoop lxp_onFrame lxp_round
  by unfold_locales
    (auto simp: lxp_round_def lxp_onFrame_steps split: prod.splits read_result.splits if_splits)

interpretation dw_loop: receive_loop dw_StartLoop dw_onFrame dw_round
proof
  fix e :: read_round and es f l ps r and p
  obtain buf' where buf: "iterBPFBuffer buf = Some (buf' buf)" for buf using iterBPFBuffer_safe by metis
  show "dw_StartLoop [] f = (Receiving, f, [])" by simp
  show "dw_StartLoop (e # es) f = (r, f, l)" if "dw_round e = Ends r l"
    using that by (auto simp: dw_round_def split: prod.splits read_result.splits if_splits)
  show "dw_StartLoop (e # es) f = (let (r, f, l') = dw_StartLoop es f in (r, f, l @ l'))" if "dw_round e = Skips l"
    using that by (auto simp: dw_round_def split: prod.splits read_result.splits if_splits)
  show "dw_StartLoop (e # es) f =
      (let (f, l) = handle_all dw_onFrame ps f; (r, f, l') = dw_StartLoop es f in (r, f, l @ l'))"
    if "dw_round e = Delivers ps"
    using that by (auto simp: dw_round_def buf split: prod.splits read_result.splits if_splits)
  show "list_all is_log l" if "dw_round e = Ends r l"
    using that by (auto simp: dw_round_def split: prod.splits read_result.splits if_splits)
  show "list_all is_log l" if "dw_round e = Skips l"
    using that by (auto simp: dw_round_def split: prod.splits read_result.splits if_splits)
  show "heap_steps f (fst (dw_onFrame p f))" by (rule dw_onFrame_steps)
qed

text \<open>The packets the loops have to handle, stated without the loops: on Linux every frame read before the
  context ends, on macOS every frame in the buffers read before the context ends or a read fails.\<close>

definition lxp_received :: "read_round list \<Rightarrow> byte list list" where
  "lxp_received rounds =
     [buf. (ctxDone, Received buf, lateDone) \<leftarrow>
             takeWhile (\<lambda>(ctxDone, res, lateDone). \<not> ctxDone \<and> (\<forall>err. res = ReadError err \<longrightarrow> \<not> lateDone)) rounds,
           buf \<noteq> []]"

definition dw_received :: "read_round list \<Rightarrow> byte list list" where
  "dw_received rounds =
     [frame. (ctxDone, Received buf, lateDone) \<leftarrow> takeWhile (\<lambda>(ctxDone, res, lateDone). \<not> ctxDone \<and> (\<forall>err. res \<noteq> ReadError err)) rounds,
             frame \<leftarrow> the (iterBPFBuffer buf)]"

lemma lxp_delivered: "delivered lxp_round rounds = lxp_received rounds"
  by (induction rounds) (auto simp: lxp_received_def lxp_round_def split: read_result.split)

lemma iterBPFBuffer_Nil: "iterBPFBuffer [] = Some []"
  by (simp add: iterBPFBuffer_def iterBPFLoop.simps bpfHdrMinLen_def)

lemma dw_delivered: "delivered dw_round rounds = dw_received rounds"
  by (induction rounds) (auto simp: dw_received_def dw_round_def iterBPFBuffer_Nil split: read_result.split)

section \<open>The interface that owns the local address\<close>

lemma addrOwns_iff: "length ip4 = 4 \<Longrightarrow> addrOwns ip4 a = addrMatches ip4 a"
  by (cases a) (auto simp: addrOwns_def addrMatches_def IP_Equal_def IP_To4_def split: if_splits)

lemma findOwner_owns:
  "findOwner owns ifaces = Some iface \<Longrightarrow>
   iface \<in> set ifaces \<and> (\<exists>addrs. if_Addrs iface = Some addrs \<and> list_ex owns addrs)"
  by (induction ifaces) (auto split: option.splits if_splits)

lemma ownerMTU_findOwner:
  "ownerMTU ip4 ifaces = (case findOwner (addrMatches ip4) ifaces of None \<Rightarrow> 0 | Some iface \<Rightarrow> if_MTU iface)"
  by (induction ifaces) (auto split: option.split)

lemma To4_length: "IP_To4 ip = Some ip4 \<Longrightarrow> length ip4 = 4"
  by (auto simp: IP_To4_def split: if_splits)

text \<open>Both look-ups find the same interface, and it is the one whose MTU the fake is segmented for.\<close>

lemma interface_lookups_agree:
  assumes "interfaceByIPv4 (Inr ifaces) s = Inr iface"
  shows "interfaceNameForIPv4 (Inr ifaces) s = Inr (if_Name iface)"
    and "nicMTUForLocalIPv4 (Some ifaces) s = if_MTU iface"
proof -
  from assms obtain ip ip4 where ip: "ParseIP s = Some ip" "IP_To4 ip = Some ip4"
    and own: "findOwner (addrOwns ip4) ifaces = Some iface"
    by (auto simp: interfaceByIPv4_def ParseIP4_def split: option.splits)
  have "addrOwns ip4 = addrMatches ip4" using addrOwns_iff [OF To4_length [OF ip(2)]] by blast
  with own have own': "findOwner (addrMatches ip4) ifaces = Some iface" by simp
  show "interfaceNameForIPv4 (Inr ifaces) s = Inr (if_Name iface)"
    using ip own' by (simp add: interfaceNameForIPv4_def)
  show "nicMTUForLocalIPv4 (Some ifaces) s = if_MTU iface"
    using ip own' by (simp add: nicMTUForLocalIPv4_def ownerMTU_findOwner)
qed

section \<open>Descriptors\<close>

lemma closeFd_new [simp]: "su_fds (closeFd fd (w\<lparr>su_fds := fd # su_fds w\<rparr>)) = su_fds w"
  by (simp add: closeFd_def)

text \<open>What a constructor leaves behind: nothing when it fails, one open descriptor when it succeeds.\<close>

definition holds_one :: "('f \<Rightarrow> int) \<Rightarrow> setup_world \<Rightarrow> (string + 'f) \<times> setup_world \<Rightarrow> bool" where
  "holds_one fdOf w r \<longleftrightarrow>
     su_closed (snd r) = su_closed w \<and> su_ready (snd r) = su_ready w \<and>
     (case fst r of
        Inl e \<Rightarrow> su_fds (snd r) = su_fds w
      | Inr f \<Rightarrow> su_fds (snd r) = fdOf f # su_fds w \<and> su_canceled (snd r) = su_canceled w)"

lemma newPassive_holds_one:
  "holds_one lxp_fd w (newPassiveFakeTcpInjector env store interfaceIP connectIPv4s connectPort w)"
  by (simp add: holds_one_def newPassiveFakeTcpInjector_def su_log_def closeFd_def Let_def split: sum.split option.split)

lemma openBPF_fds:
  "(case openBPF env name w of
      (Inl e, w') \<Rightarrow> su_fds w' = su_fds w
    | (Inr (fd, bufLen, dlt), w') \<Rightarrow> 0 \<le> fd \<and> su_fds w' = fd # su_fds w \<and> su_canceled w' = su_canceled w) \<and>
   su_closed (snd (openBPF env name w)) = su_closed w \<and> su_ready (snd (openBPF env name w)) = su_ready w"
  by (simp add: openBPF_def closeFd_def Let_def split: sum.split option.split)

lemma newDarwin_holds_one:
  "holds_one dw_bpfFd w (NewFakeTcpInjector_darwin env store interfaceIP connectIPv4s connectPort mode w)"
proof -
  have ?thesis if "interfaceNameForIPv4 (be_lookup env) interfaceIP = Inr name" for name
    using that openBPF_fds [where env = env and name = name and w = w]
    by (auto simp: holds_one_def NewFakeTcpInjector_darwin_def su_log_def closeFd_def cancel_def Let_def
        split: sum.split option.split prod.splits)
  then show ?thesis
    by (cases "interfaceNameForIPv4 (be_lookup env) interfaceIP")
      (auto simp: holds_one_def NewFakeTcpInjector_darwin_def Let_def)
qed

lemma newPassive_fd:
  "fst (newPassiveFakeTcpInjector env store interfaceIP connectIPv4s connectPort w) = Inr f \<Longrightarrow>
   pe_socket env = Inr (lxp_fd f)"
  by (auto simp: newPassiveFakeTcpInjector_def Let_def split: sum.splits option.splits if_splits)

lemma newDarwin_fd:
  "fst (NewFakeTcpInjector_darwin env store interfaceIP connectIPv4s connectPort mode w) = Inr f \<Longrightarrow> 0 \<le> dw_bpfFd f"
  using openBPF_fds [where env = env and w = w]
  by (fastforce simp: NewFakeTcpInjector_darwin_def Let_def split: sum.splits option.splits if_splits prod.splits)

text \<open>\<^verbatim>\<open>Close\<close> closes the descriptor once, however often it is called.\<close>

definition closes_fd :: "('f \<Rightarrow> setup_world \<Rightarrow> 'f \<times> setup_world) \<Rightarrow> ('f \<Rightarrow> int) \<Rightarrow> 'f \<Rightarrow> setup_world \<Rightarrow> bool" where
  "closes_fd close fdOf f w \<longleftrightarrow>
     (case close f w of (f', w') \<Rightarrow>
        su_fds w' = remove1 (fdOf f) (su_fds w) \<and> su_canceled w' \<and> fdOf f' = -1 \<and> close f' w' = (f', w'))"

lemma lxp_Close_closes: "\<not> su_closed w \<Longrightarrow> 0 \<le> lxp_fd f \<Longrightarrow> closes_fd lxp_Close lxp_fd f w"
  by (simp add: closes_fd_def lxp_Close_def cancel_def closeFd_def Let_def)

lemma dw_Close_closes: "\<not> su_closed w \<Longrightarrow> 0 \<le> dw_bpfFd f \<Longrightarrow> closes_fd dw_Close dw_bpfFd f w"
  by (simp add: closes_fd_def dw_Close_def cancel_def closeFd_def Let_def)

text \<open>
  C28. The descriptor of a capture injector is balanced, on Linux and on macOS: every failing path of the
  constructor closes what it opened; a successful construction holds exactly one more descriptor than
  before; and \<^verbatim>\<open>Close\<close> closes that one and cancels the context, and does nothing when it is called again.
\<close>

theorem capture_descriptor_balanced:
  assumes "\<not> su_closed w" and "\<And>fd. pe_socket penv = Inr fd \<Longrightarrow> 0 \<le> fd"
  shows "(case newPassiveFakeTcpInjector penv store interfaceIP connectIPv4s connectPort w of
           (Inl e, w') \<Rightarrow> su_fds w' = su_fds w
         | (Inr f, w') \<Rightarrow> su_fds w' = lxp_fd f # su_fds w \<and> closes_fd lxp_Close lxp_fd f w') \<and>
         (case NewFakeTcpInjector_darwin benv store interfaceIP connectIPv4s connectPort mode w of
           (Inl e, w') \<Rightarrow> su_fds w' = su_fds w
         | (Inr f, w') \<Rightarrow> su_fds w' = dw_bpfFd f # su_fds w \<and> closes_fd dw_Close dw_bpfFd f w')"
proof (rule conjI)
  obtain r w' where p: "newPassiveFakeTcpInjector penv store interfaceIP connectIPv4s connectPort w = (r, w')" by fastforce
  note holds = newPassive_holds_one [of w penv store interfaceIP connectIPv4s connectPort]
    and fd = newPassive_fd [of penv store interfaceIP connectIPv4s connectPort w]
  show "case newPassiveFakeTcpInjector penv store interfaceIP connectIPv4s connectPort w of
           (Inl e, w') \<Rightarrow> su_fds w' = su_fds w
         | (Inr f, w') \<Rightarrow> su_fds w' = lxp_fd f # su_fds w \<and> closes_fd lxp_Close lxp_fd f w'"
    using holds fd assms by (auto simp: p holds_one_def split: sum.splits intro!: lxp_Close_closes)
next
  obtain r w' where p: "NewFakeTcpInjector_darwin benv store interfaceIP connectIPv4s connectPort mode w = (r, w')" by fastforce
  note holds = newDarwin_holds_one [of w benv store interfaceIP connectIPv4s connectPort mode]
    and fd = newDarwin_fd [of benv store interfaceIP connectIPv4s connectPort mode w]
  show "case NewFakeTcpInjector_darwin benv store interfaceIP connectIPv4s connectPort mode w of
           (Inl e, w') \<Rightarrow> su_fds w' = su_fds w
         | (Inr f, w') \<Rightarrow> su_fds w' = dw_bpfFd f # su_fds w \<and> closes_fd dw_Close dw_bpfFd f w'"
    using holds fd assms by (auto simp: p holds_one_def split: sum.splits intro!: dw_Close_closes)
qed

definition sample_iface :: net_interface where
  "sample_iface = \<lparr>if_Name = ''eth0'', if_Index = 2, if_MTU = 1500, if_HardwareAddr = [2, 0, 0, 0, 0, 1],
     if_Addrs = Some [IPNet [10, 0, 0, 2]]\<rparr>"

definition sample_process :: setup_world where
  "sample_process = \<lparr>su_cmds = [], su_answers = [], su_fds = [], su_queue = False, su_canceled = False, su_closed = False,
     su_ready = False, su_openErr = None, su_logs = []\<rparr>"

definition sample_penv :: lxp_env where
  "sample_penv = \<lparr>pe_lookup = Inr [sample_iface], pe_mtuLookup = Some [sample_iface], pe_socket = Inr 7,
     pe_bind = (\<lambda>_. None), pe_AttachLsf = (\<lambda>_. None)\<rparr>"

text \<open>The device 0 is busy, device 1 is opened, its link type is not supported.\<close>

definition sample_benv :: bpf_env where
  "sample_benv = \<lparr>be_lookup = Inr [sample_iface], be_mtuLookup = Some [sample_iface],
     be_open = (\<lambda>i. if i = 0 then OpenBusy else Opened 9), be_setif = (\<lambda>_. None), be_blen = Inr 4096, be_dlt = Inr 105,
     be_immediate = None, be_setf = (\<lambda>_. None)\<rparr>"

lemma sample_ip: "ParseIP ''10.0.0.2'' = Some (v4InV6 [10, 0, 0, 2])"
  by code_simp

lemma sample_ip4 [simp]: "IP_To4 (v4InV6 [10, 0, 0, 2]) = Some [10, 0, 0, 2]"
  by code_simp

lemma sample_owner [simp]:
  "findOwner (addrOwns [10, 0, 0, 2]) [sample_iface] = Some sample_iface"
  "findOwner (addrMatches [10, 0, 0, 2]) [sample_iface] = Some sample_iface"
  by (simp_all add: sample_iface_def addrOwns_def addrMatches_def IP_To4_def IP_Equal_def)

definition sample_tracked :: FakeInjectiveConnection where
  "sample_tracked = NewFakeInjectiveConnection None ''10.0.0.2'' ''1.2.3.4'' 50000 443 [] ''wrong_seq'' None 1 0 0"

theorem capture_descriptor_balanced_witness:
  "(\<exists>f w'. newPassiveFakeTcpInjector sample_penv (\<lambda>_. sample_tracked) ''10.0.0.2'' [''1.2.3.4''] 443 sample_process = (Inr f, w') \<and>
      lxp_fd f = 7 \<and> su_fds w' = [7] \<and> su_fds (snd (lxp_Close f w')) = []) \<and>
   (\<exists>e w'. NewFakeTcpInjector_darwin sample_benv (\<lambda>_. sample_tracked) ''10.0.0.2'' [''1.2.3.4''] 443 InjectorModePassive sample_process = (Inl e, w') \<and>
      su_fds w' = [])"
proof -
  have fd: "0 \<le> fd" if "pe_socket sample_penv = Inr fd" for fd using that by (simp add: sample_penv_def)
  have open1: "\<not> su_closed sample_process" "su_fds sample_process = []" by (simp_all add: sample_process_def)
  note balanced = capture_descriptor_balanced [where penv = sample_penv and benv = sample_benv and w = sample_process
      and interfaceIP = "''10.0.0.2''" and connectIPv4s = "[''1.2.3.4'']" and connectPort = 443 and mode = InjectorModePassive
      and store = "\<lambda>_. sample_tracked", OF open1(1) fd]
  have iface: "interfaceByIPv4 (pe_lookup sample_penv) ''10.0.0.2'' = Inr sample_iface"
    "interfaceNameForIPv4 (be_lookup sample_benv) ''10.0.0.2'' = Inr ''eth0''"
    by (simp_all add: interfaceByIPv4_def interfaceNameForIPv4_def ParseIP4_def sample_ip sample_penv_def sample_benv_def
        del: findOwner.simps) (simp add: sample_iface_def)
  have linux_ok: "\<exists>f. fst (newPassiveFakeTcpInjector sample_penv (\<lambda>_. sample_tracked) ''10.0.0.2'' [''1.2.3.4''] 443 sample_process) = Inr f \<and> lxp_fd f = 7"
    using iface(1)
    by (simp add: newPassiveFakeTcpInjector_def Let_def sample_iface_def)
      (simp add: sample_penv_def Let_def)
  have open9: "openLoop (be_open sample_benv) 0 = Inr 9"
    by (simp add: openLoop.simps [of _ 0] openLoop.simps [of _ "Suc 0"] sample_benv_def)
  have mac_fails: "\<exists>e. fst (NewFakeTcpInjector_darwin sample_benv (\<lambda>_. sample_tracked) ''10.0.0.2'' [''1.2.3.4''] 443 InjectorModePassive
      sample_process) = Inl e"
    using iface(2)
    by (simp add: NewFakeTcpInjector_darwin_def openBPF_def open9) (simp add: sample_benv_def linkHeaderLen_def dltRaw_def Let_def)
  from linux_ok mac_fails balanced open1(2) show ?thesis
    by (auto simp: closes_fd_def split: prod.splits sum.splits)
qed

end
