(* ===== verification/Windows_Life.thy ===== *)
theory Windows_Life
  imports Capture_Life
begin

text \<open>
  The life cycle of the two WinDivert injectors: \<^verbatim>\<open>injection/winfilter_expr.go\<close>, and constructor, \<^verbatim>\<open>Start\<close>,
  \<^verbatim>\<open>WaitInjectorReady\<close> and \<^verbatim>\<open>Close\<close> of \<^verbatim>\<open>injection/injector_windows.go\<close> and
  \<^verbatim>\<open>injection/injector_windows_passive.go\<close>. A WinDivert handle is an entry of the open descriptors of
  \<open>setup_world\<close>, the shutdown flag is its \<open>su_canceled\<close>. \<^verbatim>\<open>Start\<close> opens its handles on a goroutine of its
  own, so opening and \<^verbatim>\<open>Close\<close> are steps that interleave; the receive loops satisfy the contract
  \<open>receive_loop\<close>.
\<close>

section \<open>The filter\<close>

definition BuildConnectWinDivertFilter :: "string \<Rightarrow> u16 \<Rightarrow> string" where
  "BuildConnectWinDivertFilter connectIP port =
     ''tcp and ((outbound and ip.DstAddr == '' @ connectIP @ '' and tcp.DstPort == '' @ decimal (unat port) @
     '') or (inbound and ip.SrcAddr == '' @ connectIP @ '' and tcp.SrcPort == '' @ decimal (unat port) @ ''))''"

definition BuildConnectWinDivertFilterAny :: "string list \<Rightarrow> u16 \<Rightarrow> string" where
  "BuildConnectWinDivertFilterAny connectIPs port =
     (if length connectIPs = 0 then ''false''
      else ''('' @ Join (map (\<lambda>ip. BuildConnectWinDivertFilter ip port) connectIPs) '' or '' @ '')'')"

text \<open>\<^verbatim>\<open>ValidateWinDivertFilterExpr\<close>; \<open>CompileFilter\<close> is the compiler of the WinDivert package.\<close>

definition ValidateWinDivertFilterExpr :: "(string \<Rightarrow> string option) \<Rightarrow> string \<Rightarrow> string option" where
  "ValidateWinDivertFilterExpr CompileFilter expr = CompileFilter expr"

section \<open>Constructors\<close>

definition newActiveWinDivertInjector ::
  "net_interface list option \<Rightarrow> (nat \<Rightarrow> FakeInjectiveConnection) \<Rightarrow> string \<Rightarrow> string list \<Rightarrow> u16 \<Rightarrow> setup_world \<Rightarrow>
   (string + WindowsInjector) \<times> setup_world" where
  "newActiveWinDivertInjector interfaces store interfaceIP connectIPv4s connectPort w =
     (if length connectIPv4s = 0 then (Inl ''no upstream IPv4 addresses'', w)
      else let mtu = nicMTUForLocalIPv4 interfaces interfaceIP;
               w = (if mtu = 0 then su_log (''injector: fallback MSS '' @ decimal fallbackTCPPayloadMax) w else w)
           in (Inr \<lparr>Connections = Map.empty, byLocalPort = Map.empty, heap = store, wd_handle = None, wd_nicMTU = mtu,
                    wd_filter = BuildConnectWinDivertFilterAny connectIPv4s connectPort\<rparr>, w))"

definition newPassiveWinDivertInjector ::
  "net_interface list option \<Rightarrow> (nat \<Rightarrow> FakeInjectiveConnection) \<Rightarrow> string \<Rightarrow> string list \<Rightarrow> u16 \<Rightarrow> setup_world \<Rightarrow>
   (string + WindowsPassiveInjector) \<times> setup_world" where
  "newPassiveWinDivertInjector interfaces store interfaceIP connectIPv4s connectPort w =
     (if length connectIPv4s = 0 then (Inl ''no upstream IPv4 addresses'', w)
      else let mtu = nicMTUForLocalIPv4 interfaces interfaceIP;
               w = (if mtu = 0 then su_log (''injector: fallback MSS '' @ decimal fallbackTCPPayloadMax) w else w)
           in (Inr \<lparr>Connections = Map.empty, byLocalPort = Map.empty, heap = store, wdp_sniff = None, wdp_inject = None,
                    wdp_nicMTU = mtu, wdp_filter = BuildConnectWinDivertFilterAny connectIPv4s connectPort\<rparr>, w))"

definition NewFakeTcpInjector_windows ::
  "net_interface list option \<Rightarrow> (nat \<Rightarrow> FakeInjectiveConnection) \<Rightarrow> string \<Rightarrow> string list \<Rightarrow> u16 \<Rightarrow> InjectorMode \<Rightarrow>
   setup_world \<Rightarrow> (string + (WindowsInjector + WindowsPassiveInjector)) \<times> setup_world" where
  "NewFakeTcpInjector_windows interfaces store interfaceIP connectIPv4s connectPort mode w =
     (if mode = InjectorModePassive
      then map_prod (map_sum id Inr) id (newPassiveWinDivertInjector interfaces store interfaceIP connectIPv4s connectPort w)
      else map_prod (map_sum id Inl) id (newActiveWinDivertInjector interfaces store interfaceIP connectIPv4s connectPort w))"

section \<open>Opening and closing\<close>

text \<open>Where \<^verbatim>\<open>Start\<close> is before its receive loop: about to open; with open handles, about to test the
  shutdown flag; with handles still to be stored in the injector, the last of which announces that it is
  ready; in the loop; or returned. Where \<^verbatim>\<open>Close\<close> is: about to set the flag, about to close the
  \<open>n\<close>th handle inside \<^verbatim>\<open>closeOnce\<close>, or done.\<close>

datatype open_pc = Opening | Testing "int list" | Storing "int list" | InLoop | Returned

datatype close_pc = CloseCalled | Closing nat | CloseDone

definition openFailed :: "string \<Rightarrow> setup_world \<Rightarrow> setup_world" where
  "openFailed e w = w\<lparr>su_openErr := Some e, su_ready := True\<rparr>"

text \<open>\<open>WdNew\<close> is what opening a WinDivert handle returns for a filter.\<close>

fun wd_startStep ::
  "(string \<Rightarrow> string + int) \<Rightarrow> open_pc \<times> WindowsInjector \<times> setup_world \<Rightarrow> open_pc \<times> WindowsInjector \<times> setup_world" where
  "wd_startStep WdNew (Opening, f, w) =
     (case WdNew (wd_filter f) of
        Inl err \<Rightarrow> (Returned, f, openFailed err w)
      | Inr wd \<Rightarrow> (Testing [wd], f, su_log ''injector: WinDivert ready'' (w\<lparr>su_fds := wd # su_fds w\<rparr>)))"
| "wd_startStep WdNew (Testing hs, f, w) =
     (if su_canceled w
      then (Returned, f, openFailed ''injector shut down during open'' (closeFd (hs ! 0) w))
      else (Storing hs, f, w))"
| "wd_startStep WdNew (Storing (wd # hs), f, w) = (Storing hs, f\<lparr>wd_handle := Some wd\<rparr>, w)"
| "wd_startStep WdNew (Storing [], f, w) = (InLoop, f, w\<lparr>su_ready := True\<rparr>)"
| "wd_startStep WdNew (InLoop, f, w) = (InLoop, f, w)"
| "wd_startStep WdNew (Returned, f, w) = (Returned, f, w)"

definition closeHandle :: "int option \<Rightarrow> setup_world \<Rightarrow> setup_world" where
  "closeHandle h w = (case h of None \<Rightarrow> w | Some wd \<Rightarrow> closeFd wd w)"

fun wd_closeStep :: "close_pc \<times> WindowsInjector \<times> setup_world \<Rightarrow> close_pc \<times> WindowsInjector \<times> setup_world" where
  "wd_closeStep (CloseCalled, f, w) = (Closing 0, f, w\<lparr>su_canceled := True\<rparr>)"
| "wd_closeStep (Closing n, f, w) =
     (if su_closed w then (CloseDone, f, w)
      else (CloseDone, f, (closeHandle (wd_handle f) w)\<lparr>su_closed := True\<rparr>))"
| "wd_closeStep (CloseDone, f, w) = (CloseDone, f, w)"

fun wdp_startStep ::
  "(string \<Rightarrow> string + int) \<Rightarrow> (string \<Rightarrow> string + int) \<Rightarrow> open_pc \<times> WindowsPassiveInjector \<times> setup_world \<Rightarrow>
   open_pc \<times> WindowsPassiveInjector \<times> setup_world" where
  "wdp_startStep NewSniff NewSend (Opening, f, w) =
     (case NewSniff (wdp_filter f) of
        Inl err \<Rightarrow> (Returned, f, openFailed (''open sniff handle: '' @ err) w)
      | Inr sniff \<Rightarrow>
          let w = w\<lparr>su_fds := sniff # su_fds w\<rparr> in
          (case NewSend ''false'' of
             Inl err \<Rightarrow> (Returned, f, openFailed (''open inject handle: '' @ err) (closeFd sniff w))
           | Inr send \<Rightarrow> (Testing [sniff, send], f, w\<lparr>su_fds := send # su_fds w\<rparr>)))"
| "wdp_startStep NewSniff NewSend (Testing hs, f, w) =
     (if su_canceled w
      then (Returned, f, openFailed ''injector shut down during open'' (closeFd (hs ! 1) (closeFd (hs ! 0) w)))
      else (Storing hs, f, w))"
| "wdp_startStep NewSniff NewSend (Storing (h # hs), f, w) =
     (if hs \<noteq> [] then (Storing hs, f\<lparr>wdp_sniff := Some h\<rparr>, w) else (Storing hs, f\<lparr>wdp_inject := Some h\<rparr>, w))"
| "wdp_startStep NewSniff NewSend (Storing [], f, w) =
     (InLoop, f, (su_log ''injector: WinDivert passive ready'' w)\<lparr>su_ready := True\<rparr>)"
| "wdp_startStep NewSniff NewSend (InLoop, f, w) = (InLoop, f, w)"
| "wdp_startStep NewSniff NewSend (Returned, f, w) = (Returned, f, w)"

text \<open>\<^verbatim>\<open>closeOnce\<close> is taken with the first handle.\<close>

fun wdp_closeStep ::
  "close_pc \<times> WindowsPassiveInjector \<times> setup_world \<Rightarrow> close_pc \<times> WindowsPassiveInjector \<times> setup_world" where
  "wdp_closeStep (CloseCalled, f, w) = (Closing 0, f, w\<lparr>su_canceled := True\<rparr>)"
| "wdp_closeStep (Closing 0, f, w) =
     (if su_closed w then (CloseDone, f, w)
      else (Closing 1, f, (closeHandle (wdp_sniff f) w)\<lparr>su_closed := True\<rparr>))"
| "wdp_closeStep (Closing (Suc n), f, w) = (CloseDone, f, closeHandle (wdp_inject f) w)"
| "wdp_closeStep (CloseDone, f, w) = (CloseDone, f, w)"

definition wd_WaitInjectorReady :: "setup_world \<Rightarrow> string option option" where
  "wd_WaitInjectorReady w = (if su_ready w then Some (su_openErr w) else None)"

definition wdp_WaitInjectorReady :: "setup_world \<Rightarrow> string option option" where
  "wdp_WaitInjectorReady w = (if su_ready w then Some (su_openErr w) else None)"

section \<open>Receive loops\<close>

text \<open>A receive returns a packet, with what comes with it, or fails; the flag says whether shutdown is set
  by then.\<close>

datatype 'm recv_round = RecvOk "byte list" 'm | RecvFailed bool string

fun wd_RecvLoop ::
  "('a \<times> 'a wd_env) recv_round list \<Rightarrow> WindowsInjector \<Rightarrow> loop_end \<times> WindowsInjector \<times> 'a effect list" where
  "wd_RecvLoop [] f = (Receiving, f, [])"
| "wd_RecvLoop (RecvFailed shutdown err # rounds) f =
     (if shutdown then (Finished, f, [])
      else let (r, f, es) = wd_RecvLoop rounds f in (r, f, LogF (''WinDivert recv error: '' @ err) # es))"
| "wd_RecvLoop (RecvOk raw (addr, env) # rounds) f =
     (if length raw = 0 then wd_RecvLoop rounds f
      else let (f, es) = wd_inject env raw addr f;
               (r, f, es') = wd_RecvLoop rounds f
           in (r, f, es @ es'))"

fun wdp_RecvLoop ::
  "unit recv_round list \<Rightarrow> WindowsPassiveInjector \<Rightarrow> loop_end \<times> WindowsPassiveInjector \<times> unit effect list" where
  "wdp_RecvLoop [] f = (Receiving, f, [])"
| "wdp_RecvLoop (RecvFailed shutdown err # rounds) f =
     (if shutdown then (Finished, f, [])
      else let (r, f, es) = wdp_RecvLoop rounds f in (r, f, LogF (''WinDivert passive recv error: '' @ err) # es))"
| "wdp_RecvLoop (RecvOk raw u # rounds) f =
     (if length raw = 0 then wdp_RecvLoop rounds f
      else let (f, es) = wdp_onPacket raw f;
               (r, f, es') = wdp_RecvLoop rounds f
           in (r, f, es @ es'))"

definition wd_round :: "('a \<times> 'a wd_env) recv_round \<Rightarrow> (byte list \<times> 'a \<times> 'a wd_env, 'a) round" where
  "wd_round e =
     (case e of
        RecvFailed shutdown err \<Rightarrow> if shutdown then Ends Finished [] else Skips [LogF (''WinDivert recv error: '' @ err)]
      | RecvOk raw (addr, env) \<Rightarrow> if raw = [] then Skips [] else Delivers [(raw, addr, env)])"

definition wdp_round :: "unit recv_round \<Rightarrow> (byte list, unit) round" where
  "wdp_round e =
     (case e of
        RecvFailed shutdown err \<Rightarrow>
          if shutdown then Ends Finished [] else Skips [LogF (''WinDivert passive recv error: '' @ err)]
      | RecvOk raw u \<Rightarrow> if raw = [] then Skips [] else Delivers [raw])"

definition wd_handle_packet :: "byte list \<times> 'a \<times> 'a wd_env \<Rightarrow> WindowsInjector \<Rightarrow> WindowsInjector \<times> 'a effect list" where
  "wd_handle_packet p f = (case p of (raw, addr, env) \<Rightarrow> wd_inject env raw addr f)"

interpretation wd_loop: receive_loop wd_RecvLoop wd_handle_packet wd_round
proof
  fix e :: "('a \<times> 'a wd_env) recv_round" and es f l ps r and p :: "byte list \<times> 'a \<times> 'a wd_env"
  show "wd_RecvLoop [] f = (Receiving, f, [])" by simp
  show "wd_RecvLoop (e # es) f = (r, f, l)" if "wd_round e = Ends r l"
    using that by (cases e) (auto simp: wd_round_def split: prod.splits if_splits)
  show "wd_RecvLoop (e # es) f = (let (r, f, l') = wd_RecvLoop es f in (r, f, l @ l'))" if "wd_round e = Skips l"
    using that by (cases e) (auto simp: wd_round_def split: prod.splits if_splits)
  show "wd_RecvLoop (e # es) f =
      (let (f, l) = handle_all wd_handle_packet ps f; (r, f, l') = wd_RecvLoop es f in (r, f, l @ l'))"
    if "wd_round e = Delivers ps"
    using that by (cases e) (auto simp: wd_round_def wd_handle_packet_def split: prod.splits if_splits)
  show "list_all is_log l" if "wd_round e = Ends r l"
    using that by (cases e) (auto simp: wd_round_def split: prod.splits if_splits)
  show "list_all is_log l" if "wd_round e = Skips l"
    using that by (cases e) (auto simp: wd_round_def split: prod.splits if_splits)
  show "heap_steps f (fst (wd_handle_packet p f))"
    by (simp add: wd_handle_packet_def wd_inject_steps split: prod.split)
qed

interpretation wdp_loop: receive_loop wdp_RecvLoop wdp_onPacket wdp_round
proof
  fix e :: "unit recv_round" and es f l ps r and p
  show "wdp_RecvLoop [] f = (Receiving, f, [])" by simp
  show "wdp_RecvLoop (e # es) f = (r, f, l)" if "wdp_round e = Ends r l"
    using that by (cases e) (auto simp: wdp_round_def split: if_splits)
  show "wdp_RecvLoop (e # es) f = (let (r, f, l') = wdp_RecvLoop es f in (r, f, l @ l'))" if "wdp_round e = Skips l"
    using that by (cases e) (auto simp: wdp_round_def split: if_splits)
  show "wdp_RecvLoop (e # es) f =
      (let (f, l) = handle_all wdp_onPacket ps f; (r, f, l') = wdp_RecvLoop es f in (r, f, l @ l'))"
    if "wdp_round e = Delivers ps"
    using that by (cases e) (auto simp: wdp_round_def split: prod.splits if_splits)
  show "list_all is_log l" if "wdp_round e = Ends r l"
    using that by (cases e) (auto simp: wdp_round_def split: if_splits)
  show "list_all is_log l" if "wdp_round e = Skips l"
    using that by (cases e) (auto simp: wdp_round_def split: if_splits)
  show "heap_steps f (fst (wdp_onPacket p f))" by (rule wdp_onPacket_steps)
qed

text \<open>The packets to handle, stated without the loop: every packet received until a receive fails after
  shutdown.\<close>

definition wd_received :: "('a \<times> 'a wd_env) recv_round list \<Rightarrow> (byte list \<times> 'a \<times> 'a wd_env) list" where
  "wd_received rounds =
     [(raw, a). RecvOk raw a \<leftarrow> takeWhile (\<lambda>e. \<forall>err. e \<noteq> RecvFailed True err) rounds, raw \<noteq> []]"

definition wdp_received :: "unit recv_round list \<Rightarrow> byte list list" where
  "wdp_received rounds = [raw. RecvOk raw u \<leftarrow> takeWhile (\<lambda>e. \<forall>err. e \<noteq> RecvFailed True err) rounds, raw \<noteq> []]"

lemma wd_delivered: "delivered wd_round rounds = wd_received rounds"
  by (induction rounds) (auto simp: wd_received_def wd_round_def split: recv_round.split)

lemma wdp_delivered: "delivered wdp_round rounds = wdp_received rounds"
  by (induction rounds) (auto simp: wdp_received_def wdp_round_def split: recv_round.split)

text \<open>
  C30. The receive loops of the four capturing injectors hand exactly the packets they receive until they
  are stopped to their packet handler, each once, in order and with the injector's current tables, and add
  nothing but log lines; no connection takes any other step than those of its packets. The macOS loop never
  panics on a capture buffer.
\<close>

theorem receive_loops_deliver:
  "handles_exactly lxp_onFrame (lxp_received rounds) f (lxp_StartLoop rounds f) \<and>
   handles_exactly dw_onFrame (dw_received rounds) g (dw_StartLoop rounds g) \<and> fst (dw_StartLoop rounds g) \<noteq> Crashed \<and>
   handles_exactly wd_handle_packet (wd_received received) h (wd_RecvLoop received h) \<and>
   handles_exactly wdp_onPacket (wdp_received sniffed) k (wdp_RecvLoop sniffed k)"
  using lxp_loop.loop_exactly [of rounds f] dw_loop.loop_exactly [of rounds g] dw_loop.loop_end [of rounds g] dw_ending [of rounds]
    wd_loop.loop_exactly [of received h] wdp_loop.loop_exactly [of sniffed k]
  by (simp add: lxp_delivered dw_delivered wd_delivered wdp_delivered)

section \<open>Handles are released\<close>

text \<open>\<^verbatim>\<open>Start\<close> and \<^verbatim>\<open>Close\<close> interleave in any way, except that \<^verbatim>\<open>Close\<close> is not called before the injector has
  announced that it is ready: \<^verbatim>\<open>runProxy\<close> waits for that before anything can make it return.\<close>

inductive life_step ::
  "(open_pc \<times> 'f \<times> setup_world \<Rightarrow> open_pc \<times> 'f \<times> setup_world) \<Rightarrow>
   (close_pc \<times> 'f \<times> setup_world \<Rightarrow> close_pc \<times> 'f \<times> setup_world) \<Rightarrow>
   open_pc \<times> close_pc \<times> 'f \<times> setup_world \<Rightarrow> open_pc \<times> close_pc \<times> 'f \<times> setup_world \<Rightarrow> bool"
  for start and close where
  starting: "start (s, f, w) = (s', f', w') \<Longrightarrow> life_step start close (s, c, f, w) (s', c, f', w')"
| closing: "(c = CloseCalled \<Longrightarrow> su_ready w) \<Longrightarrow> close (c, f, w) = (c', f', w') \<Longrightarrow>
    life_step start close (s, c, f, w) (s, c', f', w')"

text \<open>An invariant of both kinds of steps holds in every reachable state.\<close>

locale guarded_life =
  fixes start :: "open_pc \<times> 'f \<times> setup_world \<Rightarrow> open_pc \<times> 'f \<times> setup_world"
    and close :: "close_pc \<times> 'f \<times> setup_world \<Rightarrow> close_pc \<times> 'f \<times> setup_world"
    and inv :: "int list \<Rightarrow> open_pc \<Rightarrow> close_pc \<Rightarrow> 'f \<Rightarrow> setup_world \<Rightarrow> bool"
  assumes start_inv: "inv fds s c f w \<Longrightarrow> start (s, f, w) = (s', f', w') \<Longrightarrow> inv fds s' c f' w'"
    and close_inv: "inv fds s c f w \<Longrightarrow> (c = CloseCalled \<Longrightarrow> su_ready w) \<Longrightarrow> close (c, f, w) = (c', f', w') \<Longrightarrow>
      inv fds s c' f' w'"
    and released: "inv fds s c f w \<Longrightarrow> c = CloseDone \<or> s = Returned \<Longrightarrow> su_fds w = fds"
    and announced: "inv fds s c f w \<Longrightarrow> su_ready w \<Longrightarrow> su_openErr w = None \<longleftrightarrow> s = InLoop"
begin

abbreviation ok :: "int list \<Rightarrow> open_pc \<times> close_pc \<times> 'f \<times> setup_world \<Rightarrow> bool" where
  "ok fds st \<equiv> (case st of (s, c, f, w) \<Rightarrow> inv fds s c f w)"

lemma step_ok: "life_step start close st st' \<Longrightarrow> ok fds st \<Longrightarrow> ok fds st'"
  by (induction rule: life_step.induct) (auto intro: start_inv close_inv)

lemma steps_ok: "(life_step start close)\<^sup>*\<^sup>* st st' \<Longrightarrow> ok fds st \<Longrightarrow> ok fds st'"
  by (induction rule: rtranclp_induct) (simp, erule step_ok, blast)

lemma reachable_released:
  assumes "(life_step start close)\<^sup>*\<^sup>* (s, c, f, w) (s', c', f', w')" and "inv (su_fds w) s c f w"
  shows "(c' = CloseDone \<or> s' = Returned \<longrightarrow> su_fds w' = su_fds w) \<and>
    (su_ready w' \<longrightarrow> (su_openErr w' = None \<longleftrightarrow> s' = InLoop))"
  using released announced steps_ok [OF assms(1), where fds = "su_fds w"] assms(2) by simp

end

fun wd_inv :: "int list \<Rightarrow> open_pc \<Rightarrow> close_pc \<Rightarrow> WindowsInjector \<Rightarrow> setup_world \<Rightarrow> bool" where
  "wd_inv fds InLoop c f w \<longleftrightarrow> su_ready w \<and> su_openErr w = None \<and>
     (\<exists>h. wd_handle f = Some h \<and> su_closed w = (c = CloseDone) \<and> su_fds w = (if c = CloseDone then fds else h # fds))"
| "wd_inv fds Returned c f w \<longleftrightarrow> su_ready w \<and> su_openErr w \<noteq> None \<and> wd_handle f = None \<and> su_fds w = fds"
| "wd_inv fds s c f w \<longleftrightarrow> c = CloseCalled \<and> \<not> su_ready w \<and> su_openErr w = None \<and> \<not> su_closed w \<and>
     (case s of
        Opening \<Rightarrow> wd_handle f = None \<and> su_fds w = fds
      | Testing hs \<Rightarrow> wd_handle f = None \<and> (\<exists>h. hs = [h] \<and> su_fds w = h # fds)
      | Storing hs \<Rightarrow> (\<exists>h. su_fds w = h # fds \<and> (hs = [h] \<and> wd_handle f = None \<or> hs = [] \<and> wd_handle f = Some h))
      | _ \<Rightarrow> False)"

interpretation wd_life: guarded_life "wd_startStep WdNew" wd_closeStep wd_inv
proof
  fix fds s c f w s' f' w' c'
  show "wd_inv fds s' c f' w'" if "wd_inv fds s c f w" "wd_startStep WdNew (s, f, w) = (s', f', w')"
  proof (cases s)
    case (Storing hs)
    then show ?thesis using that by (cases hs) auto
  qed (use that in \<open>auto simp: openFailed_def su_log_def closeFd_def split: sum.splits if_splits\<close>)
  show "wd_inv fds s c' f' w'"
    if "wd_inv fds s c f w" "c = CloseCalled \<Longrightarrow> su_ready w" "wd_closeStep (c, f, w) = (c', f', w')"
    using that by (cases s; cases c) (auto simp: closeHandle_def closeFd_def split: if_splits)
  show "su_fds w = fds" if "wd_inv fds s c f w" "c = CloseDone \<or> s = Returned"
    using that by (cases s) auto
  show "su_openErr w = None \<longleftrightarrow> s = InLoop" if "wd_inv fds s c f w" "su_ready w"
    using that by (cases s) auto
qed

fun wdp_inv :: "int list \<Rightarrow> open_pc \<Rightarrow> close_pc \<Rightarrow> WindowsPassiveInjector \<Rightarrow> setup_world \<Rightarrow> bool" where
  "wdp_inv fds InLoop c f w \<longleftrightarrow> su_ready w \<and> su_openErr w = None \<and>
     (\<exists>h k. wdp_sniff f = Some h \<and> wdp_inject f = Some k \<and>
       su_closed w = (c \<noteq> CloseCalled \<and> c \<noteq> Closing 0) \<and>
       su_fds w = (case c of CloseDone \<Rightarrow> fds | Closing (Suc n) \<Rightarrow> k # fds | _ \<Rightarrow> k # h # fds))"
| "wdp_inv fds Returned c f w \<longleftrightarrow> su_ready w \<and> su_openErr w \<noteq> None \<and> wdp_sniff f = None \<and> wdp_inject f = None \<and>
     su_fds w = fds"
| "wdp_inv fds s c f w \<longleftrightarrow> c = CloseCalled \<and> \<not> su_ready w \<and> su_openErr w = None \<and> \<not> su_closed w \<and>
     (case s of
        Opening \<Rightarrow> wdp_sniff f = None \<and> wdp_inject f = None \<and> su_fds w = fds
      | Testing hs \<Rightarrow> wdp_sniff f = None \<and> wdp_inject f = None \<and> (\<exists>h k. hs = [h, k] \<and> su_fds w = k # h # fds)
      | Storing hs \<Rightarrow> (\<exists>h k. su_fds w = k # h # fds \<and>
          (hs = [h, k] \<and> wdp_sniff f = None \<and> wdp_inject f = None \<or>
           hs = [k] \<and> wdp_sniff f = Some h \<and> wdp_inject f = None \<or>
           hs = [] \<and> wdp_sniff f = Some h \<and> wdp_inject f = Some k))
      | _ \<Rightarrow> False)"

interpretation wdp_life: guarded_life "wdp_startStep NewSniff NewSend" wdp_closeStep wdp_inv
proof
  fix fds s c f w s' f' w' c'
  show "wdp_inv fds s' c f' w'" if "wdp_inv fds s c f w" "wdp_startStep NewSniff NewSend (s, f, w) = (s', f', w')"
  proof (cases s)
    case (Storing hs)
    then show ?thesis using that by (cases hs) (auto simp: su_log_def)
  qed (use that in \<open>auto simp: openFailed_def closeFd_def Let_def split: sum.splits if_splits\<close>)
  show "wdp_inv fds s c' f' w'"
    if "wdp_inv fds s c f w" "c = CloseCalled \<Longrightarrow> su_ready w" "wdp_closeStep (c, f, w) = (c', f', w')"
  proof (cases c)
    case (Closing n)
    then show ?thesis using that by (cases s; cases n) (auto simp: closeHandle_def closeFd_def split: if_splits)
  qed (use that in \<open>cases s; auto\<close>)+
  show "su_fds w = fds" if "wdp_inv fds s c f w" "c = CloseDone \<or> s = Returned"
    using that by (cases s) auto
  show "su_openErr w = None \<longleftrightarrow> s = InLoop" if "wdp_inv fds s c f w" "su_ready w"
    using that by (cases s) auto
qed

text \<open>Running one side alone.\<close>

lemma start_alone:
  "(life_step start close)\<^sup>*\<^sup>* (s, c, f, w) (case (start ^^ n) (s, f, w) of (s', f', w') \<Rightarrow> (s', c, f', w'))"
proof (induction n)
  case (Suc n)
  obtain s' f' w' where n: "(start ^^ n) (s, f, w) = (s', f', w')" by (cases "(start ^^ n) (s, f, w)")
  obtain s'' f'' w'' where n': "start (s', f', w') = (s'', f'', w'')" by (cases "start (s', f', w')")
  have "life_step start close (s', c, f', w') (s'', c, f'', w'')" using n' by (rule life_step.starting)
  with Suc.IH show ?case by (simp add: n n')
qed simp

lemma close_alone:
  assumes "su_ready w" and "\<And>c f w. su_ready (snd (snd (close (c, f, w)))) = su_ready w"
  shows "(life_step start close)\<^sup>*\<^sup>* (s, c, f, w) (s, (close ^^ n) (c, f, w)) \<and> su_ready (snd (snd ((close ^^ n) (c, f, w))))"
proof (induction n)
  case (Suc n)
  obtain c' f' w' where n: "(close ^^ n) (c, f, w) = (c', f', w')" by (cases "(close ^^ n) (c, f, w)")
  obtain c'' f'' w'' where n': "close (c', f', w') = (c'', f'', w'')" by (cases "close (c', f', w')")
  have "su_ready w'" using Suc.IH by (simp add: n)
  moreover have "su_ready w'' = su_ready w'" using assms(2) [of c' f' w'] by (simp add: n')
  moreover have "life_step start close (s, c', f', w') (s, c'', f'', w'')"
    using n' \<open>su_ready w'\<close> by (auto intro: life_step.closing)
  ultimately show ?case using Suc.IH by (auto simp: n n')
qed (use assms(1) in simp)

text \<open>\<^verbatim>\<open>Start\<close> announces after at most five steps that it is ready or has failed.\<close>

lemma start_announces:
  "su_ready (snd (snd ((wd_startStep WdNew ^^ 5) (Opening, f, w))))"
  "su_ready (snd (snd ((wdp_startStep NewSniff NewSend ^^ 5) (Opening, g, w))))"
  by (simp_all add: eval_nat_numeral openFailed_def Let_def split: sum.split)

text \<open>
  C29. Whatever opening a WinDivert handle returns and however \<^verbatim>\<open>Start\<close> and \<^verbatim>\<open>Close\<close> interleave once the
  injector is ready, no handle of the active or passive Windows injector stays open when \<^verbatim>\<open>Close\<close> is done or
  \<^verbatim>\<open>Start\<close> has given up; and \<^verbatim>\<open>WaitInjectorReady\<close> reports success exactly when the receive loop runs.
\<close>

theorem windows_handles_released:
  assumes "\<not> su_ready w" and "\<not> su_closed w" and "su_openErr w = None"
    and "newActiveWinDivertInjector interfaces store interfaceIP connectIPv4s connectPort w = (Inr f, w1)"
    and "newPassiveWinDivertInjector interfaces store interfaceIP connectIPv4s connectPort w = (Inr g, w2)"
  shows "(\<forall>s c f' w'. (life_step (wd_startStep WdNew) wd_closeStep)\<^sup>*\<^sup>* (Opening, CloseCalled, f, w1) (s, c, f', w') \<longrightarrow>
      (c = CloseDone \<or> s = Returned \<longrightarrow> su_fds w' = su_fds w) \<and>
      (su_ready w' \<longrightarrow> (wd_WaitInjectorReady w' = Some None \<longleftrightarrow> s = InLoop))) \<and>
    (\<forall>s c g' w'. (life_step (wdp_startStep NewSniff NewSend) wdp_closeStep)\<^sup>*\<^sup>* (Opening, CloseCalled, g, w2) (s, c, g', w') \<longrightarrow>
      (c = CloseDone \<or> s = Returned \<longrightarrow> su_fds w' = su_fds w) \<and>
      (su_ready w' \<longrightarrow> (wdp_WaitInjectorReady w' = Some None \<longleftrightarrow> s = InLoop)))"
proof -
  have "su_fds w1 = su_fds w" "su_fds w2 = su_fds w"
    and fresh: "wd_inv (su_fds w1) Opening CloseCalled f w1" "wdp_inv (su_fds w2) Opening CloseCalled g w2"
    using assms by (auto simp: newActiveWinDivertInjector_def newPassiveWinDivertInjector_def su_log_def Let_def split: if_splits)
  then show ?thesis
    using wd_life.reachable_released [OF _ fresh(1), where WdNew = WdNew]
      wdp_life.reachable_released [OF _ fresh(2), where NewSniff = NewSniff and NewSend = NewSend]
    by (simp add: wd_WaitInjectorReady_def wdp_WaitInjectorReady_def)
qed

lemma wd_closeStep_ready: "su_ready (snd (snd (wd_closeStep (c, f, w)))) = su_ready w"
  by (cases c) (simp_all add: closeHandle_def closeFd_def split: option.split)

theorem windows_handles_released_witness:
  "\<exists>f w1 f' w'. newActiveWinDivertInjector None (\<lambda>_. sample_tracked) ''10.0.0.2'' [''1.2.3.4''] 443 sample_process = (Inr f, w1) \<and>
     (life_step (wd_startStep (\<lambda>_. Inr 3)) wd_closeStep)\<^sup>*\<^sup>* (Opening, CloseCalled, f, w1) (InLoop, CloseDone, f', w') \<and>
     su_fds w' = [] \<and> wd_WaitInjectorReady w' = Some None"
proof -
  let ?wd = "wd_startStep (\<lambda>_. Inr 3)"
  obtain f w1 where f: "newActiveWinDivertInjector None (\<lambda>_. sample_tracked) ''10.0.0.2'' [''1.2.3.4''] 443 sample_process = (Inr f, w1)"
    by (simp add: newActiveWinDivertInjector_def Let_def)
  obtain g w2 where g: "newPassiveWinDivertInjector None (\<lambda>_. sample_tracked) ''10.0.0.2'' [''1.2.3.4''] 443 sample_process = (Inr g, w2)"
    by (simp add: newPassiveWinDivertInjector_def Let_def)
  have fresh: "\<not> su_ready sample_process" "\<not> su_closed sample_process" "su_openErr sample_process = None" "su_fds sample_process = []"
    by (simp_all add: sample_process_def)
  have w1: "\<not> su_canceled w1" "\<not> su_closed w1"
    using f by (auto simp: newActiveWinDivertInjector_def sample_process_def su_log_def Let_def split: if_splits)
  obtain f' w3 where start: "(?wd ^^ 4) (Opening, f, w1) = (InLoop, f', w3)" and w3: "su_ready w3" "\<not> su_closed w3"
    using w1 by (simp add: eval_nat_numeral su_log_def)
  obtain w' where close: "(wd_closeStep ^^ 2) (CloseCalled, f', w3) = (CloseDone, f', w')"
    using w3 by (simp add: eval_nat_numeral)
  have up: "(life_step ?wd wd_closeStep)\<^sup>*\<^sup>* (Opening, CloseCalled, f, w1) (InLoop, CloseCalled, f', w3)"
    using start_alone [where start = ?wd and close = wd_closeStep and s = Opening and c = CloseCalled and f = f and w = w1 and n = 4]
    unfolding start by simp
  have down: "(life_step ?wd wd_closeStep)\<^sup>*\<^sup>* (InLoop, CloseCalled, f', w3) (InLoop, CloseDone, f', w')" and "su_ready w'"
    using close_alone [where start = ?wd and close = wd_closeStep and s = InLoop and c = CloseCalled and f = f' and w = w3 and n = 2,
        OF w3(1) wd_closeStep_ready]
    unfolding close by simp_all
  from up down have path: "(life_step ?wd wd_closeStep)\<^sup>*\<^sup>* (Opening, CloseCalled, f, w1) (InLoop, CloseDone, f', w')" by simp
  have "su_fds w' = []" and "wd_WaitInjectorReady w' = Some None"
    using windows_handles_released [where WdNew = "\<lambda>_. Inr 3", OF fresh(1-3) f g, THEN conjunct1, rule_format, OF path]
      \<open>su_ready w'\<close> fresh(4) by simp_all
  with f path show ?thesis by blast
qed

text \<open>Without that order a handle can stay open: \<^verbatim>\<open>Close\<close> runs after \<^verbatim>\<open>Start\<close> has tested the shutdown flag and
  before it has stored the handle.\<close>

lemma close_during_open_leaks:
  assumes "WdNew (wd_filter f) = Inr h" and "wd_handle f = None" and "\<not> su_canceled w" and "\<not> su_closed w"
  shows "\<exists>w1 w2 w3. (wd_startStep WdNew ^^ 2) (Opening, f, w) = (Storing [h], f, w1) \<and>
    (wd_closeStep ^^ 2) (CloseCalled, f, w1) = (CloseDone, f, w2) \<and>
    (wd_startStep WdNew ^^ 2) (Storing [h], f, w2) = (InLoop, f\<lparr>wd_handle := Some h\<rparr>, w3) \<and> su_fds w3 = h # su_fds w"
  using assms by (simp add: eval_nat_numeral closeHandle_def su_log_def)

end
