(* ===== verification/UTLS_Names.thy ===== *)
theory UTLS_Names
  imports ClientHello_Legacy "HOL-Library.List_Lexorder" "HOL-Library.Char_ord"
begin

text \<open>
  Model of the table of preset names in \<^verbatim>\<open>packet/utls_clienthello_id.go\<close> and of the list of names in the
  help text. The presets are values of the uTLS library, a parameter: the variables it exports, by name, and
  the client name, version and printed form of each.
\<close>

section \<open>The table\<close>

record 'i utls_library =
  ul_Client :: "'i \<Rightarrow> string"
  ul_Version :: "'i \<Rightarrow> string"
  ul_Str :: "'i \<Rightarrow> string"
  ul_id :: "string \<Rightarrow> 'i"

definition DefaultClientHelloID :: "'i utls_library \<Rightarrow> 'i" where
  "DefaultClientHelloID lib = ul_id lib ''HelloFirefox_Auto''"

definition presetClientHelloIDs :: "'i utls_library \<Rightarrow> 'i list" where
  "presetClientHelloIDs lib =
     map (ul_id lib)
      [
       ''HelloGolang'', ''HelloCustom'', ''HelloRandomized'', ''HelloRandomizedALPN'', ''HelloRandomizedNoALPN'',
       ''HelloFirefox_55'', ''HelloFirefox_56'', ''HelloFirefox_63'', ''HelloFirefox_65'', ''HelloFirefox_99'',
       ''HelloFirefox_102'', ''HelloFirefox_105'', ''HelloFirefox_120'', ''HelloChrome_58'', ''HelloChrome_62'',
       ''HelloChrome_70'', ''HelloChrome_72'', ''HelloChrome_83'', ''HelloChrome_87'', ''HelloChrome_96'',
       ''HelloChrome_100'', ''HelloChrome_102'', ''HelloChrome_106_Shuffle'', ''HelloChrome_100_PSK'',
       ''HelloChrome_112_PSK_Shuf'', ''HelloChrome_114_Padding_PSK_Shuf'', ''HelloChrome_115_PQ'',
       ''HelloChrome_115_PQ_PSK'', ''HelloChrome_120'', ''HelloChrome_120_PQ'', ''HelloChrome_131'',
       ''HelloChrome_133'', ''HelloIOS_11_1'', ''HelloIOS_12_1'', ''HelloIOS_13'', ''HelloIOS_14'',
       ''HelloAndroid_11_OkHttp'', ''HelloEdge_85'', ''HelloEdge_106'', ''HelloSafari_16_0'', ''Hello360_7_5'',
       ''Hello360_11_0'', ''HelloQQ_11_1'']"

definition browserAutoAliases :: "'i utls_library \<Rightarrow> (string \<times> 'i) list" where
  "browserAutoAliases lib =
     map (\<lambda>(short, variable). (short, ul_id lib variable))
       [(''chrome'', ''HelloChrome_Auto''),
        (''firefox'', ''HelloFirefox_Auto''),
        (''safari'', ''HelloSafari_Auto''),
        (''edge'', ''HelloEdge_Auto''),
        (''ios'', ''HelloIOS_Auto''),
        (''qq'', ''HelloQQ_Auto''),
        (''360browser'', ''Hello360_Auto'')]"

definition canonicalUTLSKey :: "'i utls_library \<Rightarrow> 'i \<Rightarrow> string" where
  "canonicalUTLSKey lib i =
     (if ul_Version lib i = ''0'' then
        let c = ToLower (ul_Client lib i);
            c = ReplaceAll c CHR ''.'' ''_''
        in ReplaceAll c CHR ''-'' ''_''
      else
        let s = ToLower (ul_Str lib i);
            s = ReplaceAll s CHR ''.'' ''_''
        in ReplaceAll s CHR ''-'' ''_'')"

definition registerPresetKeys :: "'i utls_library \<Rightarrow> 'i \<Rightarrow> (string \<rightharpoonup> 'i) \<Rightarrow> (string \<rightharpoonup> 'i)" where
  "registerPresetKeys lib i m =
     (let m = m(canonicalUTLSKey lib i \<mapsto> i);
          s = ToLower (ul_Str lib i);
          m = m(s \<mapsto> i);
          m = m(ReplaceAll s CHR ''-'' ''_'' \<mapsto> i);
          m = m(ReplaceAll s CHR ''-'' '''' \<mapsto> i)
      in case Cut s CHR ''-'' of
           (before, rest, True) \<Rightarrow> m(before @ ''_'' @ rest \<mapsto> i)
         | (_, _, False) \<Rightarrow> m)"

text \<open>\<^verbatim>\<open>init\<close>; the aliases are a Go map, which is iterated in an arbitrary order.\<close>

definition clientHelloIDByName :: "'i utls_library \<Rightarrow> (string \<times> 'i) list \<Rightarrow> (string \<rightharpoonup> 'i)" where
  "clientHelloIDByName lib aliases =
     foldl (\<lambda>m (name, i). m(name \<mapsto> i))
       (foldl (\<lambda>m i. registerPresetKeys lib i m) Map.empty (presetClientHelloIDs lib)) aliases"

section \<open>The help text\<close>

text \<open>The pairs of client and name that \<^verbatim>\<open>add\<close> collects: the presets with a new printed form, then the
  aliases.\<close>

fun addPresets :: "'i utls_library \<Rightarrow> string list \<Rightarrow> 'i list \<Rightarrow> (string \<times> string) list" where
  "addPresets lib seen [] = []"
| "addPresets lib seen (i # is) =
     (let s = ul_Str lib i in
      if s \<in> set seen then addPresets lib seen is
      else (ul_Client lib i, canonicalUTLSKey lib i) # addPresets lib (s # seen) is)"

definition helpGroups :: "'i utls_library \<Rightarrow> (string \<times> string) list" where
  "helpGroups lib =
     addPresets lib [] (presetClientHelloIDs lib) @
     map (\<lambda>(short, i). (ul_Client lib i, short)) (browserAutoAliases lib)"

definition helpClients :: "'i utls_library \<Rightarrow> string list" where
  "helpClients lib = sort (remdups (map fst (helpGroups lib)))"

definition helpNames :: "'i utls_library \<Rightarrow> string \<Rightarrow> string list" where
  "helpNames lib c = sort (remdups [n. (c', n) \<leftarrow> helpGroups lib, c' = c])"

definition UTLSHelpGroupedCSV :: "'i utls_library \<Rightarrow> string" where
  "UTLSHelpGroupedCSV lib =
     LegacyUTLSName @ '' (legacy fixed ClientHello template)'' @ [CHR 0x0A, CHR 0x0A] @
     concat (map (\<lambda>c. Join (helpNames lib c) '', '' @ [CHR 0x0A]) (helpClients lib))"

definition DefaultUTLSSummary :: string where
  "DefaultUTLSSummary = ''firefox''"

section \<open>Names are found\<close>

lemma foldl_updates:
  "distinct (map fst ps) \<Longrightarrow> foldl (\<lambda>m (k, v). m(k \<mapsto> v)) m ps = m ++ map_of ps"
proof (induction ps arbitrary: m)
  case (Cons p ps)
  then show ?case
    by (cases p) (force simp: fun_eq_iff map_add_def map_of_eq_None_iff dest!: map_of_SomeD split: option.split)
qed simp

lemma alias_names: "map fst (browserAutoAliases lib) = [''chrome'', ''firefox'', ''safari'', ''edge'', ''ios'', ''qq'', ''360browser'']"
  by (simp add: browserAutoAliases_def)

text \<open>The order in which the aliases are visited does not matter.\<close>

lemma table_order:
  assumes "distinct (map fst aliases)" and "set aliases = set (browserAutoAliases lib)"
  shows "clientHelloIDByName lib aliases = clientHelloIDByName lib (browserAutoAliases lib)"
proof -
  have d: "distinct (map fst (browserAutoAliases lib))" by (simp add: alias_names)
  have "map_of aliases = map_of (browserAutoAliases lib)"
    using map_of_inject_set [OF assms(1) d] assms(2) by blast
  then show ?thesis unfolding clientHelloIDByName_def foldl_updates [OF d] foldl_updates [OF assms(1)] by simp
qed

lemma register_dom: "dom m \<subseteq> dom (registerPresetKeys lib i m)" "canonicalUTLSKey lib i \<in> dom (registerPresetKeys lib i m)"
  "ran (registerPresetKeys lib i m) \<subseteq> insert i (ran m)"
  by (auto simp: registerPresetKeys_def Let_def ran_def split: prod.split bool.split if_splits)

lemma presets_table:
  "dom m \<subseteq> dom (foldl (\<lambda>m i. registerPresetKeys lib i m) m is) \<and>
   (\<forall>i \<in> set is. canonicalUTLSKey lib i \<in> dom (foldl (\<lambda>m i. registerPresetKeys lib i m) m is)) \<and>
   ran (foldl (\<lambda>m i. registerPresetKeys lib i m) m is) \<subseteq> set is \<union> ran m"
proof (induction "is" arbitrary: m)
  case (Cons i "is")
  from Cons.IH [of "registerPresetKeys lib i m"] register_dom [where m = m and lib = lib and i = i] show ?case by simp blast
qed simp

lemma addPresets_keys: "(c, n) \<in> set (addPresets lib seen is) \<Longrightarrow> \<exists>i \<in> set is. n = canonicalUTLSKey lib i"
  by (induction "is" arbitrary: seen) (auto simp: Let_def split: if_splits)

lemma helpNames_set: "n \<in> set (helpNames lib c) \<longleftrightarrow> (c, n) \<in> set (helpGroups lib)"
  by (auto simp: helpNames_def)

lemma lower_lower [simp]: "lower (lower c) = lower c"
  by (auto simp: lower_def)

lemma lower_punctuation: "lower CHR ''_'' = CHR ''_''"
  by (simp add: lower_def)

lemma ToLower_ReplaceAll: "ToLower s = s \<Longrightarrow> ToLower (ReplaceAll s c ''_'') = ReplaceAll s c ''_''"
  by (induction s) (auto simp: ToLower_def ReplaceAll_def lower_punctuation)

lemma ToLower_ToLower: "ToLower (ToLower s) = ToLower s"
  by (simp add: ToLower_def)

lemma ToLower_canonical: "ToLower (canonicalUTLSKey lib i) = canonicalUTLSKey lib i"
  by (simp add: canonicalUTLSKey_def Let_def ToLower_ReplaceAll ToLower_ToLower)

lemma alias_lower: "(n, i) \<in> set (browserAutoAliases lib) \<Longrightarrow> ToLower n = n"
proof -
  have "list_all (\<lambda>n. ToLower n = n) [''chrome'', ''firefox'', ''safari'', ''edge'', ''ios'', ''qq'', ''360browser'']"
    by code_simp
  then show "(n, i) \<in> set (browserAutoAliases lib) \<Longrightarrow> ToLower n = n"
    unfolding alias_names [of lib, symmetric] by (auto simp: list_all_iff)
qed

lemma table_lookup:
  "clientHelloIDByName lib (browserAutoAliases lib) n =
     (case map_of (browserAutoAliases lib) n of
        Some i \<Rightarrow> Some i
      | None \<Rightarrow> foldl (\<lambda>m i. registerPresetKeys lib i m) Map.empty (presetClientHelloIDs lib) n)"
  using foldl_updates [of "browserAutoAliases lib"]
  by (simp add: clientHelloIDByName_def alias_names map_add_def)

lemma listed_name_found:
  assumes "(c, n) \<in> set (helpGroups lib)"
  shows "\<exists>i \<in> set (presetClientHelloIDs lib) \<union> snd ` set (browserAutoAliases lib).
     clientHelloIDByName lib (browserAutoAliases lib) n = Some i \<and> (\<forall>j. (n, j) \<in> set (browserAutoAliases lib) \<longrightarrow> i = j)"
proof (cases "map_of (browserAutoAliases lib) n")
  case (Some i)
  then have "(n, i) \<in> set (browserAutoAliases lib)" by (rule map_of_SomeD)
  then have "i \<in> snd ` set (browserAutoAliases lib)" by (rule image_eqI [rotated]) simp
  moreover have "j = i" if "(n, j) \<in> set (browserAutoAliases lib)" for j
    using that Some map_of_is_SomeI [of "browserAutoAliases lib" n j] by (simp add: alias_names)
  moreover have "clientHelloIDByName lib (browserAutoAliases lib) n = Some i" by (simp add: table_lookup Some)
  ultimately show ?thesis by blast
next
  case None
  have no_alias: "(n, j) \<notin> set (browserAutoAliases lib)" for j
    using None weak_map_of_SomeI [of n j "browserAutoAliases lib"] by auto
  then have "(c, n) \<in> set (addPresets lib [] (presetClientHelloIDs lib))"
    using assms by (auto simp: helpGroups_def)
  then obtain i where "i \<in> set (presetClientHelloIDs lib)" "n = canonicalUTLSKey lib i"
    by (blast dest: addPresets_keys)
  then obtain i' where i': "foldl (\<lambda>m i. registerPresetKeys lib i m) Map.empty (presetClientHelloIDs lib) n = Some i'"
    using presets_table [of Map.empty lib "presetClientHelloIDs lib"] by blast
  then have "i' \<in> set (presetClientHelloIDs lib)"
    using presets_table [of Map.empty lib "presetClientHelloIDs lib"] ranI by fastforce
  moreover have "clientHelloIDByName lib (browserAutoAliases lib) n = Some i'" by (simp add: table_lookup None i')
  ultimately show ?thesis using no_alias by blast
qed

lemma listed_name_lower: "(c, n) \<in> set (helpGroups lib) \<Longrightarrow> ToLower n = n"
  by (auto simp: helpGroups_def ToLower_canonical alias_lower dest!: addPresets_keys)

text \<open>
  C34. Every name the help text lists is accepted by \<^verbatim>\<open>-utls\<close>, in whatever order the aliases were entered: a
  listed name without outer blanks that is not the legacy name selects a preset of the table, and a browser
  name selects the preset uTLS recommends for that browser.
\<close>

theorem help_names_accepted:
  assumes "n \<in> set (helpNames lib c)" and "TrimSpace n = n" and "n \<noteq> []" and "\<not> IsLegacyUTLS n"
    and "distinct (map fst aliases)" and "set aliases = set (browserAutoAliases lib)"
  shows "\<exists>i \<in> set (presetClientHelloIDs lib) \<union> snd ` set (browserAutoAliases lib).
     ParseClientHelloID dflt (clientHelloIDByName lib aliases) n = Inr i \<and> (\<forall>j. (n, j) \<in> set (browserAutoAliases lib) \<longrightarrow> i = j)"
proof -
  have listed: "(c, n) \<in> set (helpGroups lib)" using assms(1) by (simp add: helpNames_set)
  have "ParseClientHelloID dflt (clientHelloIDByName lib aliases) n = Inr i"
    if "clientHelloIDByName lib (browserAutoAliases lib) n = Some i" for i
    using that assms(2-4) listed_name_lower [OF listed] by (simp add: ParseClientHelloID_def table_order [OF assms(5,6)])
  with listed_name_found [OF listed] show ?thesis by blast
qed

text \<open>The browser names are accepted without looking at the help text.\<close>

lemma browser_accepted:
  assumes "n \<in> fst ` set (browserAutoAliases lib)" and "distinct (map fst aliases)"
    and "set aliases = set (browserAutoAliases lib)"
  shows "\<exists>i. ParseClientHelloID dflt (clientHelloIDByName lib aliases) n = Inr i"
proof -
  have n: "n \<in> set (map fst (browserAutoAliases lib))" using assms(1) by simp
  have "list_all (\<lambda>n. TrimSpace n = n \<and> n \<noteq> [] \<and> \<not> IsLegacyUTLS n \<and> ToLower n = n)
      [''chrome'', ''firefox'', ''safari'', ''edge'', ''ios'', ''qq'', ''360browser'']"
    by code_simp
  then have "TrimSpace n = n" "n \<noteq> []" "\<not> IsLegacyUTLS n" "ToLower n = n"
    using n unfolding alias_names by (auto simp: list_all_iff)
  moreover obtain i where "map_of (browserAutoAliases lib) n = Some i"
    using assms(1) by (metis map_of_eq_None_iff not_None_eq)
  ultimately show ?thesis by (simp add: ParseClientHelloID_def table_order [OF assms(2,3)] table_lookup)
qed

definition sample_utls :: "(string \<times> string) utls_library" where
  "sample_utls = \<lparr>ul_Client = fst, ul_Version = snd, ul_Str = (\<lambda>(c, v). c @ ''-'' @ v),
     ul_id = (\<lambda>variable. case Cut (drop 5 variable) CHR ''_'' of (c, v, ok) \<Rightarrow> (c, if ok then v else ''0''))\<rparr>"

theorem help_names_accepted_witness:
  "\<exists>i. ParseClientHelloID (DefaultClientHelloID sample_utls) (clientHelloIDByName sample_utls (rev (browserAutoAliases sample_utls))) ''firefox'' = Inr i"
proof -
  have "(ul_Client sample_utls (ul_id sample_utls ''HelloFirefox_Auto''), ''firefox'') \<in> set (helpGroups sample_utls)"
    by (simp add: helpGroups_def browserAutoAliases_def)
  then have listed: "''firefox'' \<in> set (helpNames sample_utls (ul_Client sample_utls (ul_id sample_utls ''HelloFirefox_Auto'')))"
    unfolding helpNames_set .
  have "TrimSpace ''firefox'' = ''firefox''" "\<not> IsLegacyUTLS ''firefox''" by code_simp+
  moreover have "distinct (map fst (rev (browserAutoAliases sample_utls)))" by (simp add: browserAutoAliases_def)
  ultimately show ?thesis
    using help_names_accepted [OF listed, of "rev (browserAutoAliases sample_utls)" "DefaultClientHelloID sample_utls"]
    by auto
qed

end
