(* ===== verification/Method_Test.thy ===== *)
theory Method_Test
  imports Proxy UTLS_Names
begin

text \<open>
  Model of the \<^verbatim>\<open>-test\<close> mode in \<^verbatim>\<open>main.go\<close>: the matrix of methods, the preflight check, the end-to-end test
  of one case through \<^verbatim>\<open>runProxy\<close>, the requests and the parsing of what the probed servers answer. The answer
  to an HTTP request, the verdict of the JSON parser and the certificates are parameters; printed lines are
  lists of strings, the pauses between the cases are left out.
\<close>

section \<open>The matrix\<close>

record methodMatrixCase =
  mc_UTLS :: string
  mc_FakeRepeat :: int
  mc_EnableFragment :: bool

definition methodMatrixCases :: "methodMatrixCase list" where
  "methodMatrixCases =
     [\<lparr>mc_UTLS = utlsName, mc_FakeRepeat = repeat, mc_EnableFragment = fragmented\<rparr>.
        utlsName \<leftarrow> [''none'', ''firefox'', ''chrome'', ''safari'', ''ios'', ''edge''],
        repeat \<leftarrow> [1, 2],
        fragmented \<leftarrow> [False, True]]"

definition case_proxyOptions :: "InjectorMode \<Rightarrow> methodMatrixCase \<Rightarrow> proxyOptions" where
  "case_proxyOptions injector c =
     \<lparr>po_fakeRepeat = mc_FakeRepeat c, po_fakeDelay = 10 * 1000000, po_enableFragment = mc_EnableFragment c,
      po_fragmentDelay = 10 * 1000000, po_sniChunk = 3, po_ackTimeout = 3 * 1000000000, po_quiet = True,
      po_injector = injector\<rparr>"

definition case_String :: "methodMatrixCase \<Rightarrow> string" where
  "case_String c =
     ''utls='' @ mc_UTLS c @ '' repeat='' @ decimal_int (mc_FakeRepeat c) @ '' fragment='' @
     (if mc_EnableFragment c then ''on'' else ''off'')"

definition fragmentLabel :: "bool \<Rightarrow> string" where
  "fragmentLabel enabled = (if enabled then ''on'' else ''off'')"

text \<open>\<^verbatim>\<open>%-8s %-11d %-8s %-6s\<close>.\<close>

definition padRight :: "nat \<Rightarrow> string \<Rightarrow> string" where
  "padRight n s = s @ replicate (n - length s) CHR '' ''"

definition resultLine :: "methodMatrixCase \<Rightarrow> string \<Rightarrow> string" where
  "resultLine c result =
     padRight 8 (mc_UTLS c) @ '' '' @ padRight 11 (decimal_int (mc_FakeRepeat c)) @ '' '' @
     padRight 8 (fragmentLabel (mc_EnableFragment c)) @ '' '' @ padRight 6 result"

section \<open>What the probed servers answer\<close>

text \<open>\<^verbatim>\<open>strings.Contains\<close> and \<^verbatim>\<open>strings.ContainsAny\<close>.\<close>

fun Contains :: "string \<Rightarrow> string \<Rightarrow> bool" where
  "Contains [] p = (p = [])"
| "Contains (c # cs) p = (HasPrefix (c # cs) p \<or> Contains cs p)"

definition ContainsAny :: "string \<Rightarrow> string \<Rightarrow> bool" where
  "ContainsAny s chars \<longleftrightarrow> (\<exists>c \<in> set s. c \<in> set chars)"

fun traceLines :: "string list \<Rightarrow> string + string" where
  "traceLines [] = Inl ''trace response has no ip field''"
| "traceLines (line # lines) =
     (case Cut (TrimSpace line) CHR ''='' of
        (key, val, ok) \<Rightarrow>
          if ok \<and> key = ''ip'' then
            let ip = TrimSpace val in
            if To4_of ip = None then Inl (''invalid trace IP '' @ Quote ip) else Inr ip
          else traceLines lines)"

definition parseCloudflareTraceIP :: "string \<Rightarrow> string + string" where
  "parseCloudflareTraceIP body = traceLines (Split body CHR 0x0A)"

text \<open>\<^verbatim>\<open>FindStringSubmatch\<close> of the pattern \<^verbatim>\<open>Your IP:\s*([0-9.]+)\<close>: the group of its leftmost match. White space
  and the group have no character in common, so the greedy match of each is the only one.\<close>

definition re_space :: "char \<Rightarrow> bool" where
  "re_space c \<longleftrightarrow> code c = 9 \<or> code c = 10 \<or> code c = 12 \<or> code c = 13 \<or> code c = 32"

definition ip_char :: "char \<Rightarrow> bool" where
  "ip_char c \<longleftrightarrow> is_digit c \<or> c = CHR ''.''"

fun arvanIPMatch :: "string \<Rightarrow> string option" where
  "arvanIPMatch [] = None"
| "arvanIPMatch (c # cs) =
     (let group = takeWhile ip_char (dropWhile re_space (drop 8 (c # cs))) in
      if HasPrefix (c # cs) ''Your IP:'' \<and> group \<noteq> [] then Some group else arvanIPMatch cs)"

definition parseArvanTraceIP :: "string \<Rightarrow> string + string" where
  "parseArvanTraceIP body =
     (case arvanIPMatch body of
        None \<Rightarrow> Inl ''response has no internal IP''
      | Some ip \<Rightarrow> if To4_of ip = None then Inl (''invalid internal IP '' @ Quote ip) else Inr ip)"

section \<open>Trusted certificates\<close>

text \<open>\<open>AppendCertsFromPEM\<close> is the operation of the certificate pool \<open>'p\<close>.\<close>

record 'p cert_env =
  ce_Getenv :: "string \<Rightarrow> string"
  ce_ReadFile :: "string \<Rightarrow> string option"
  ce_ReadDir :: "string \<Rightarrow> (string \<times> bool) list option"
  ce_Join :: "string \<Rightarrow> string \<Rightarrow> string"
  ce_SystemCertPool :: "'p option"
  ce_NewCertPool :: 'p
  ce_AppendCertsFromPEM :: "string \<Rightarrow> 'p \<Rightarrow> bool \<times> 'p"

definition caBundleCandidates :: "'p cert_env \<Rightarrow> string list" where
  "caBundleCandidates env =
     [ce_Getenv env ''SSL_CERT_FILE'',
      ''/data/data/com.termux/files/usr/etc/tls/cert.pem'',
      ''/data/data/com.termux/files/usr/etc/ssl/cert.pem'',
      ''/etc/ssl/certs/ca-certificates.crt'',
      ''/etc/pki/tls/certs/ca-bundle.crt'',
      ''/etc/ssl/ca-bundle.pem'',
      ''/etc/pki/tls/cacert.pem'',
      ''/etc/pki/ca-trust/extracted/pem/tls-ca-bundle.pem'']"

definition caDirCandidates :: "'p cert_env \<Rightarrow> string list" where
  "caDirCandidates env =
     [ce_Getenv env ''SSL_CERT_DIR'',
      ''/data/data/com.termux/files/usr/etc/tls/certs'',
      ''/data/data/com.termux/files/usr/etc/ssl/certs'',
      ''/etc/ssl/certs'',
      ''/system/etc/security/cacerts'']"

definition appendCertFile :: "'p cert_env \<Rightarrow> string \<Rightarrow> 'p \<Rightarrow> bool \<times> 'p" where
  "appendCertFile env path pool =
     (if TrimSpace path = [] then (False, pool)
      else (case ce_ReadFile env path of
              None \<Rightarrow> (False, pool)
            | Some pem \<Rightarrow> ce_AppendCertsFromPEM env pem pool))"

fun appendCertFiles :: "'p cert_env \<Rightarrow> string list \<Rightarrow> 'p \<Rightarrow> bool \<times> 'p" where
  "appendCertFiles env [] pool = (False, pool)"
| "appendCertFiles env (path # paths) pool =
     (let (ok, pool) = appendCertFile env path pool;
          (appended, pool) = appendCertFiles env paths pool
      in (ok \<or> appended, pool))"

fun appendCertDirs :: "'p cert_env \<Rightarrow> string list \<Rightarrow> 'p \<Rightarrow> bool \<times> 'p" where
  "appendCertDirs env [] pool = (False, pool)"
| "appendCertDirs env (dir # dirs) pool =
     (if TrimSpace dir = [] then appendCertDirs env dirs pool
      else (case ce_ReadDir env dir of
              None \<Rightarrow> appendCertDirs env dirs pool
            | Some entries \<Rightarrow>
                let (ok, pool) = appendCertFiles env [ce_Join env dir name. (name, isDir) \<leftarrow> entries, \<not> isDir] pool;
                    (appended, pool) = appendCertDirs env dirs pool
                in (ok \<or> appended, pool)))"

definition methodTestRootCAs :: "'p cert_env \<Rightarrow> 'p option" where
  "methodTestRootCAs env =
     (let systemOK = (ce_SystemCertPool env \<noteq> None);
          pool = (case ce_SystemCertPool env of None \<Rightarrow> ce_NewCertPool env | Some pool \<Rightarrow> pool);
          (files, pool) = appendCertFiles env (caBundleCandidates env) pool;
          (dirs, pool) = appendCertDirs env (caDirCandidates env) pool;
          appended = (dirs \<or> files)
      in if systemOK \<or> appended then Some pool else None)"

section \<open>The requests\<close>

text \<open>A response: status code, status text, and the body with the error that ended reading it. The code
  reads at most 1 MiB.\<close>

record http_response =
  StatusCode :: int
  Status :: string
  Body :: "string \<times> string option"

definition ReadLimited :: "http_response \<Rightarrow> string + string" where
  "ReadLimited resp =
     (case Body resp of (bytes, err) \<Rightarrow>
        if length bytes \<ge> 2 ^ 20 then Inr (take (2 ^ 20) bytes)
        else case err of None \<Rightarrow> Inr bytes | Some e \<Rightarrow> Inl e)"

definition traceHost :: "string \<Rightarrow> string + string" where
  "traceHost fakeSNI =
     (let host = TrimSpace fakeSNI in
      if host = [] then Inl ''empty fake SNI''
      else if Contains host ''://'' \<or> ContainsAny host ''/?#'' then
        Inl (''fake SNI must be a hostname, got '' @ Quote fakeSNI)
      else Inr host)"

text \<open>A request with the transport and client it is sent through: the address the dialer connects to
  (\<^const>\<open>None\<close> is the one of the URL), the \<^verbatim>\<open>Host\<close> and \<^verbatim>\<open>accept\<close> headers where set, and the time limits. A URL
  that \<^verbatim>\<open>http.NewRequest\<close> refuses is one of the errors of the answer.\<close>

record 'p tls_config =
  ServerName :: string
  RootCAs :: "'p option"

definition testTLSConfig :: "'p cert_env \<Rightarrow> string \<Rightarrow> 'p tls_config" where
  "testTLSConfig env serverName = \<lparr>ServerName = serverName, RootCAs = methodTestRootCAs env\<rparr>"

record 'p http_request =
  rq_URL :: string
  rq_Host :: string
  rq_accept :: string
  rq_dialAddr :: "string option"
  rq_TLSClientConfig :: "'p tls_config"
  rq_dialTimeout :: int
  rq_KeepAlive :: int
  rq_TLSHandshakeTimeout :: int
  rq_ResponseHeaderTimeout :: int
  rq_Timeout :: int

definition Second :: int where
  "Second = 1000000000"

definition traceRequest :: "'p cert_env \<Rightarrow> string \<Rightarrow> string \<Rightarrow> 'p http_request" where
  "traceRequest env connectIP host =
     \<lparr>rq_URL = ''https://'' @ host @ ''/cdn-cgi/trace'', rq_Host = [], rq_accept = [],
      rq_dialAddr = Some (JoinHostPort connectIP ''443''), rq_TLSClientConfig = testTLSConfig env host,
      rq_dialTimeout = 10 * Second, rq_KeepAlive = 30 * Second, rq_TLSHandshakeTimeout = 10 * Second,
      rq_ResponseHeaderTimeout = 10 * Second, rq_Timeout = 20 * Second\<rparr>"

definition fetchFakeSNITraceIP ::
  "'p cert_env \<Rightarrow> ('p http_request \<Rightarrow> string + http_response) \<Rightarrow> string \<Rightarrow> string \<Rightarrow> string + string" where
  "fetchFakeSNITraceIP env Do connectIP fakeSNI =
     (case traceHost fakeSNI of
        Inl err \<Rightarrow> Inl err
      | Inr host \<Rightarrow>
          (case Do (traceRequest env connectIP host) of
             Inl err \<Rightarrow> Inl err
           | Inr resp \<Rightarrow>
               if StatusCode resp < 200 \<or> StatusCode resp \<ge> 300 then Inl (''unexpected HTTP status '' @ Status resp)
               else (case ReadLimited resp of Inl err \<Rightarrow> Inl err | Inr body \<Rightarrow> parseCloudflareTraceIP body)))"

definition arvanRequest :: "'p cert_env \<Rightarrow> 'p http_request" where
  "arvanRequest env =
     \<lparr>rq_URL = ''https://arvancloud.ir'', rq_Host = ''invalid'', rq_accept = [],
      rq_dialAddr = None, rq_TLSClientConfig = testTLSConfig env ''arvancloud.ir'',
      rq_dialTimeout = 10 * Second, rq_KeepAlive = 30 * Second, rq_TLSHandshakeTimeout = 10 * Second,
      rq_ResponseHeaderTimeout = 10 * Second, rq_Timeout = 20 * Second\<rparr>"

definition fetchArvanTraceIP :: "'p cert_env \<Rightarrow> ('p http_request \<Rightarrow> string + http_response) \<Rightarrow> string + string" where
  "fetchArvanTraceIP env Do =
     (case Do (arvanRequest env) of
        Inl err \<Rightarrow> Inl err
      | Inr resp \<Rightarrow> (case ReadLimited resp of Inl err \<Rightarrow> Inl err | Inr body \<Rightarrow> parseArvanTraceIP body))"

definition e2eRequest :: "'p cert_env \<Rightarrow> string \<Rightarrow> 'p http_request" where
  "e2eRequest env listenAddr =
     \<lparr>rq_URL = ''https://one.one.one.one/dns-query?name=one.one.one.one&type=A'', rq_Host = [],
      rq_accept = ''application/dns-json'',
      rq_dialAddr = Some listenAddr, rq_TLSClientConfig = testTLSConfig env ''one.one.one.one'',
      rq_dialTimeout = 10 * Second, rq_KeepAlive = 30 * Second, rq_TLSHandshakeTimeout = 10 * Second,
      rq_ResponseHeaderTimeout = 15 * Second, rq_Timeout = 30 * Second\<rparr>"

definition fetchE2EDNSJSON ::
  "'p cert_env \<Rightarrow> (string \<Rightarrow> string option) \<Rightarrow> ('p http_request \<Rightarrow> string + http_response) \<Rightarrow> string \<Rightarrow> string option" where
  "fetchE2EDNSJSON env Unmarshal Do listenAddr =
     (case Do (e2eRequest env listenAddr) of
        Inl err \<Rightarrow> Some err
      | Inr resp \<Rightarrow>
          (case ReadLimited resp of
             Inl err \<Rightarrow> Some err
           | Inr body \<Rightarrow>
               if StatusCode resp \<noteq> 200 then Some (''unexpected HTTP status '' @ Status resp)
               else (case Unmarshal body of
                       Some err \<Rightarrow> Some (''invalid JSON payload: '' @ err)
                     | None \<Rightarrow> None)))"

section \<open>One case end to end\<close>

definition loopbackListenAddr :: "string \<Rightarrow> string" where
  "loopbackListenAddr listenAddr =
     (case SplitHostPort listenAddr of
        Inl err \<Rightarrow> listenAddr
      | Inr (host, port) \<Rightarrow>
          let host = (if host = [] \<or> host = ''0.0.0.0'' \<or> host = ''::'' then ''127.0.0.1'' else host)
          in JoinHostPort host port)"

text \<open>What a test gets from outside: certificates, the uTLS library and the order its aliases were entered in,
  the answers to the requests (in the \<open>k\<close>th case the client of \<open>te_DoCase k\<close> goes through the proxy), and what the
  \<open>k\<close>th proxy meets.\<close>

record ('i, 'p) test_env =
  te_certs :: "'p cert_env"
  te_lib :: "'i utls_library"
  te_aliases :: "(string \<times> 'i) list"
  te_Do :: "'p http_request \<Rightarrow> string + http_response"
  te_DoCase :: "nat \<Rightarrow> 'p http_request \<Rightarrow> string + http_response"
  te_Unmarshal :: "string \<Rightarrow> string option"
  te_dialUDP :: "string \<Rightarrow> string + byte list"
  te_run :: "nat \<Rightarrow> run_env"
  te_accepts :: "nat \<Rightarrow> accept_result list"
  te_select :: "nat \<Rightarrow> nat"

text \<open>The \<^verbatim>\<open>select\<close>: what its channels can deliver, given what the proxy does, and \<open>te_select\<close> picks one. The test
  cancels the proxy in any case and waits for its end only after a successful request.\<close>

datatype tunnel_event = TunnelReady "string + string" | TunnelStopped "string option" | TunnelTimeout

datatype tunnel_action = CancelProxy | AwaitProxy

fun reports :: "run_action list \<Rightarrow> (string + string) list" where
  "reports [] = []"
| "reports (ReportReady m # acts) = m # reports acts"
| "reports (_ # acts) = reports acts"

definition tunnelEvents :: "string option option \<times> run_action list \<Rightarrow> tunnel_event list" where
  "tunnelEvents started =
     (case started of (res, acts) \<Rightarrow>
        map TunnelReady (reports acts) @ (case res of None \<Rightarrow> [] | Some err \<Rightarrow> [TunnelStopped err]) @ [TunnelTimeout])"

definition tunnelOutcome :: "tunnel_event \<Rightarrow> (string \<Rightarrow> string option) \<Rightarrow> string option \<times> tunnel_action list" where
  "tunnelOutcome event fetch =
     (case event of
        TunnelReady (Inl err) \<Rightarrow> (Some (''method test: tunnel start failed: '' @ err), [CancelProxy])
      | TunnelStopped err \<Rightarrow>
          (Some (''method test: tunnel stopped before ready: '' @ (case err of None \<Rightarrow> ''%!w(<nil>)'' | Some e \<Rightarrow> e)), [CancelProxy])
      | TunnelTimeout \<Rightarrow> (Some ''method test: tunnel start timeout'', [CancelProxy])
      | TunnelReady (Inr addr) \<Rightarrow>
          (case fetch (loopbackListenAddr addr) of
             Some err \<Rightarrow> (Some (''e2e request failed: '' @ err), [CancelProxy])
           | None \<Rightarrow> (None, [CancelProxy, AwaitProxy, CancelProxy])))"

definition startTunnel :: "('i, 'p) test_env \<Rightarrow> nat \<Rightarrow> Config \<Rightarrow> proxyOptions \<Rightarrow> string option option \<times> run_action list" where
  "startTunnel env k cfg opts =
     runProxy ((te_run env k)\<lparr>re_interfaceIPv4 := GetDefaultInterfaceIPv4 (te_dialUDP env) (ConnectIP cfg)\<rparr>)
       cfg opts True (te_accepts env k)"

definition runMethodE2E :: "('i, 'p) test_env \<Rightarrow> nat \<Rightarrow> Config \<Rightarrow> proxyOptions \<Rightarrow> string option \<times> tunnel_action list" where
  "runMethodE2E env k cfg opts =
     (let events = tunnelEvents (startTunnel env k cfg opts)
      in tunnelOutcome (events ! (te_select env k mod length events))
           (fetchE2EDNSJSON (te_certs env) (te_Unmarshal env) (te_DoCase env k)))"

section \<open>Preflight and matrix\<close>

text \<open>The printed lines and the result.\<close>

definition preflight :: "string + string \<Rightarrow> string + string \<Rightarrow> string list \<times> (string + bool)" where
  "preflight trace internal =
     (case trace of
        Inl err \<Rightarrow> ([], Inl (''method test: fake-SNI trace failed: '' @ err @ ''; method won't work''))
      | Inr traceIP \<Rightarrow>
          let out = [''  external IP: '' @ traceIP] in
          (case internal of
             Inl err \<Rightarrow> (out @ [''  internal IP: unavailable''], Inr False)
           | Inr internalIP \<Rightarrow>
               let out = out @ [''  internal IP: '' @ internalIP] in
               if traceIP = internalIP then (out @ [''  result: IPs match; running e2e matrix''], Inr True)
               else (out, Inl (''method test: IPs differ ('' @ traceIP @ '' != '' @ internalIP @ ''); method won't work''))))"

definition checkMethodPreconditions :: "('i, 'p) test_env \<Rightarrow> string \<Rightarrow> string \<Rightarrow> string list \<times> (string + bool)" where
  "checkMethodPreconditions env connectIP fakeSNI =
     preflight (fetchFakeSNITraceIP (te_certs env) (te_Do env) connectIP fakeSNI) (fetchArvanTraceIP (te_certs env) (te_Do env))"

text \<open>The loop over the cases: \<open>run i\<close> is the outcome of the \<open>i\<close>th test. It returns the printed lines and
  how many failed, or an error.\<close>

fun matrixLoop ::
  "(string \<Rightarrow> string option) \<Rightarrow> (nat \<Rightarrow> Config \<Rightarrow> proxyOptions \<Rightarrow> string option) \<Rightarrow> Config \<Rightarrow> InjectorMode \<Rightarrow>
   nat \<Rightarrow> methodMatrixCase list \<Rightarrow> string list \<times> (string + nat)" where
  "matrixLoop utlsError run cfg injector i [] = ([], Inr 0)"
| "matrixLoop utlsError run cfg injector i (tc # tcs) =
     (let caseCfg = cfg\<lparr>UTLSClientHello := mc_UTLS tc\<rparr>;
          invalid = (if IsLegacyUTLS (UTLSClientHello caseCfg) then None else utlsError (UTLSClientHello caseCfg))
      in case invalid of
           Some err \<Rightarrow> ([], Inl (''method matrix: invalid uTLS '' @ Quote (UTLSClientHello caseCfg) @ '': '' @ err))
         | None \<Rightarrow>
             (case run i caseCfg (case_proxyOptions injector tc) of
                Some err \<Rightarrow>
                  (case matrixLoop utlsError run cfg injector (i + 1) tcs of
                     (out, res) \<Rightarrow> (resultLine tc ''FAIL'' # out, map_sum id Suc res))
              | None \<Rightarrow>
                  (case matrixLoop utlsError run cfg injector (i + 1) tcs of
                     (out, res) \<Rightarrow> (resultLine tc ''PASS'' # out, res))))"

definition reportMatrix ::
  "string list \<times> (string + bool) \<Rightarrow> (string \<Rightarrow> string option) \<Rightarrow> (nat \<Rightarrow> Config \<Rightarrow> proxyOptions \<Rightarrow> string option) \<Rightarrow>
   Config \<Rightarrow> InjectorMode \<Rightarrow> string list \<times> string option" where
  "reportMatrix preconditions utlsError run cfg injector =
     (case preconditions of
        (out, Inl err) \<Rightarrow> (''Preflight'' # out, Some err)
      | (out, Inr ok) \<Rightarrow>
          let head = ''Preflight'' # out @
                (if ok then [] else [''  warning: internal IP unavailable; running e2e matrix anyway'']) @
                [[], ''Matrix'', padRight 8 ''UTLS'' @ '' '' @ padRight 11 ''Fake-Repeat'' @ '' '' @ padRight 8 ''Fragment'' @
                   '' '' @ padRight 6 ''Result'']
          in (case matrixLoop utlsError run cfg injector 0 methodMatrixCases of
                (out, Inl err) \<Rightarrow> (head @ out, Some err)
              | (out, Inr failed) \<Rightarrow>
                  if failed > 0 then
                    (head @ out, Some (''method matrix: '' @ decimal failed @ ''/'' @ decimal (length methodMatrixCases) @ '' failed''))
                  else (head @ out @ [[], ''All '' @ decimal (length methodMatrixCases) @ '' cases passed.''], None)))"

definition presetError :: "('i, 'p) test_env \<Rightarrow> string \<Rightarrow> string option" where
  "presetError env name =
     (case ParseClientHelloID (DefaultClientHelloID (te_lib env)) (clientHelloIDByName (te_lib env) (te_aliases env)) name of
        Inl err \<Rightarrow> Some err
      | Inr _ \<Rightarrow> None)"

definition runMethodMatrix :: "('i, 'p) test_env \<Rightarrow> Config \<Rightarrow> InjectorMode \<Rightarrow> string list \<times> string option" where
  "runMethodMatrix env cfg injector =
     reportMatrix (checkMethodPreconditions env (ConnectIP cfg) (FakeSNI cfg)) (presetError env)
       (\<lambda>k caseCfg opts. fst (runMethodE2E env k caseCfg opts)) cfg injector"

section \<open>What the parsers accept\<close>

text \<open>An address that is taken from a trace is an IPv4 address, and stands behind the first key \<^verbatim>\<open>ip\<close>.\<close>

lemma traceLines_sound: "traceLines lines = Inr ip \<Longrightarrow> To4_of ip \<noteq> None"
  by (induction lines) (auto simp: Let_def split: prod.splits if_splits)

lemma traceLines_skip:
  "list_all (\<lambda>line. fst (Cut (TrimSpace line) CHR ''='') \<noteq> ''ip'') before \<Longrightarrow>
   traceLines (before @ lines) = traceLines lines"
  by (induction before) (auto split: prod.splits)

lemma trace_finds_ip:
  assumes "list_all (\<lambda>line. fst (Cut (TrimSpace line) CHR ''='') \<noteq> ''ip'') before"
    and "TrimSpace (''ip='' @ ip) = ''ip='' @ ip" and "TrimSpace ip = ip" and "To4_of ip \<noteq> None"
  shows "traceLines (before @ (''ip='' @ ip) # after) = Inr ip"
  using assms(2-4) by (simp add: traceLines_skip [OF assms(1)] Cut_def)

lemma HasPrefix_drop: "HasPrefix s p \<Longrightarrow> length p = n \<Longrightarrow> s = p @ drop n s"
  unfolding HasPrefix_def by (metis append_take_drop_id)

lemma arvanIPMatch_sound:
  "arvanIPMatch body = Some ip \<Longrightarrow>
   \<exists>before ws after. body = before @ ''Your IP:'' @ ws @ ip @ after \<and> list_all re_space ws \<and> list_all ip_char ip \<and> ip \<noteq> []"
proof (induction body)
  case (Cons c cs)
  show ?case
  proof (cases "arvanIPMatch cs = Some ip")
    case True
    with Cons.IH obtain before ws after where "cs = before @ ''Your IP:'' @ ws @ ip @ after"
      "list_all re_space ws" "list_all ip_char ip" "ip \<noteq> []" by blast
    moreover from this have "c # cs = (c # before) @ ''Your IP:'' @ ws @ ip @ after" by simp
    ultimately show ?thesis by blast
  next
    case False
    let ?rest = "drop 8 (c # cs)"
    have m: "HasPrefix (c # cs) ''Your IP:''" "ip = takeWhile ip_char (dropWhile re_space ?rest)" "ip \<noteq> []"
      using Cons.prems False by (auto simp: Let_def split: if_splits)
    have "c # cs = ''Your IP:'' @ ?rest"
      by (rule HasPrefix_drop [OF m(1)]) simp
    moreover have "?rest = takeWhile re_space ?rest @ ip @ dropWhile ip_char (dropWhile re_space ?rest)"
      unfolding m(2) by (simp only: takeWhile_dropWhile_id)
    ultimately have "c # cs = [] @ ''Your IP:'' @ takeWhile re_space ?rest @ ip @ dropWhile ip_char (dropWhile re_space ?rest)"
      by (simp only: append_Nil)
    moreover have "list_all re_space (takeWhile re_space ?rest)" "list_all ip_char ip"
      by (auto simp: m(2) list_all_iff dest: set_takeWhileD)
    ultimately show ?thesis using m(3) by blast
  qed
qed simp

section \<open>The report\<close>

text \<open>The outcomes of the tests, and the line printed for each.\<close>

definition outcomes ::
  "(nat \<Rightarrow> Config \<Rightarrow> proxyOptions \<Rightarrow> string option) \<Rightarrow> Config \<Rightarrow> InjectorMode \<Rightarrow> nat \<Rightarrow> methodMatrixCase list \<Rightarrow> string option list" where
  "outcomes run cfg injector i tcs =
     map2 (\<lambda>k tc. run k (cfg\<lparr>UTLSClientHello := mc_UTLS tc\<rparr>) (case_proxyOptions injector tc)) [i ..< i + length tcs] tcs"

definition table :: "methodMatrixCase list \<Rightarrow> string option list \<Rightarrow> string list" where
  "table = map2 (\<lambda>tc r. resultLine tc (if r = None then ''PASS'' else ''FAIL''))"

lemma outcomes_Cons:
  "outcomes run cfg injector i (tc # tcs) =
     run i (cfg\<lparr>UTLSClientHello := mc_UTLS tc\<rparr>) (case_proxyOptions injector tc) # outcomes run cfg injector (i + 1) tcs"
  by (simp add: outcomes_def upt_conv_Cons del: upt_Suc)

lemma matrixLoop_outcomes:
  assumes "list_all (\<lambda>tc. IsLegacyUTLS (mc_UTLS tc) \<or> utlsError (mc_UTLS tc) = None) tcs"
  shows "matrixLoop utlsError run cfg injector i tcs =
    (table tcs (outcomes run cfg injector i tcs), Inr (length (filter (\<lambda>r. r \<noteq> None) (outcomes run cfg injector i tcs))))"
  using assms
proof (induction tcs arbitrary: i)
  case (Cons tc tcs)
  then show ?case by (auto simp: Let_def outcomes_Cons table_def split: option.split)
qed (simp add: outcomes_def table_def)

lemma matrix_cases: "length methodMatrixCases = 24" "distinct methodMatrixCases"
  by (simp_all add: methodMatrixCases_def)

lemma framed:
  "\<exists>before after m. (if b then (head @ t, Some n) else (head @ t @ foot, None)) = (before @ t @ after, if b then Some m else None)"
  by (rule exI [of _ head], rule exI [of _ "if b then [] else foot"], rule exI [of _ n]) simp

lemma reportMatrix_table:
  assumes "list_all (\<lambda>tc. IsLegacyUTLS (mc_UTLS tc) \<or> utlsError (mc_UTLS tc) = None) methodMatrixCases"
    and "results = outcomes run cfg injector 0 methodMatrixCases"
  shows "\<exists>before after m. reportMatrix (o1, Inr ok) utlsError run cfg injector =
    (before @ table methodMatrixCases results @ after, if 0 < length (filter (\<lambda>r. r \<noteq> None) results) then Some m else None)"
  unfolding reportMatrix_def prod.case sum.case Let_def matrixLoop_outcomes [OF assms(1)] assms(2) [symmetric]
  by (rule framed)

lemma matrix_names_known:
  assumes "distinct (map fst (te_aliases env))" and "set (te_aliases env) = set (browserAutoAliases (te_lib env))"
  shows "list_all (\<lambda>tc. IsLegacyUTLS (mc_UTLS tc) \<or> presetError env (mc_UTLS tc) = None) methodMatrixCases"
proof -
  have "presetError env n = None" if "n \<in> {''firefox'', ''chrome'', ''safari'', ''ios'', ''edge''}" for n
  proof -
    have "n \<in> fst ` set (browserAutoAliases (te_lib env))" using that by (auto simp: browserAutoAliases_def)
    from browser_accepted [OF this assms, of "DefaultClientHelloID (te_lib env)"] show ?thesis by (auto simp: presetError_def)
  qed
  moreover have "IsLegacyUTLS ''none''" by code_simp
  ultimately show ?thesis by (simp add: methodMatrixCases_def)
qed

lemma preflight_passes:
  "(\<exists>o1 ok. preflight trace internal = (o1, Inr ok)) \<longleftrightarrow> (\<exists>ip. trace = Inr ip \<and> ((\<exists>e. internal = Inl e) \<or> internal = Inr ip))"
  by (cases trace; cases internal) (auto simp: preflight_def Let_def)

text \<open>A case passes exactly when its proxy came up and the request through the address it reported was
  answered with status 200 and JSON.\<close>

lemma reports_set: "m \<in> set (reports acts) \<longleftrightarrow> ReportReady m \<in> set acts"
  by (induction acts rule: reports.induct) auto

lemma e2e_pass_iff:
  "fst (runMethodE2E env k cfg opts) = None \<longleftrightarrow>
   (\<exists>addr resp body. tunnelEvents (startTunnel env k cfg opts) ! (te_select env k mod length (tunnelEvents (startTunnel env k cfg opts))) =
        TunnelReady (Inr addr) \<and>
      te_DoCase env k (e2eRequest (te_certs env) (loopbackListenAddr addr)) = Inr resp \<and>
      ReadLimited resp = Inr body \<and> StatusCode resp = 200 \<and> te_Unmarshal env body = None)"
  by (auto simp: runMethodE2E_def tunnelOutcome_def fetchE2EDNSJSON_def Let_def split: tunnel_event.splits sum.splits option.splits)

lemma e2e_through_proxy:
  assumes "fst (runMethodE2E env k cfg opts) = None"
  shows "\<exists>addr resp. ReportReady (Inr addr) \<in> set (snd (startTunnel env k cfg opts)) \<and>
    te_DoCase env k (e2eRequest (te_certs env) (loopbackListenAddr addr)) = Inr resp \<and> StatusCode resp = 200"
proof -
  let ?es = "tunnelEvents (startTunnel env k cfg opts)"
  have "?es \<noteq> []" by (simp add: tunnelEvents_def split: prod.split)
  then have "?es ! (te_select env k mod length ?es) \<in> set ?es" by (intro nth_mem) simp
  then have "ReportReady (Inr addr) \<in> set (snd (startTunnel env k cfg opts))"
    if "?es ! (te_select env k mod length ?es) = TunnelReady (Inr addr)" for addr
    using that by (auto simp: tunnelEvents_def reports_set split: prod.splits option.splits)
  with assms [unfolded e2e_pass_iff] show ?thesis by blast
qed

text \<open>The proxy of a case that fails is cancelled, but its end is not awaited.\<close>

lemma failed_case_not_awaited:
  "fst (runMethodE2E env k cfg opts) \<noteq> None \<Longrightarrow> AwaitProxy \<notin> set (snd (runMethodE2E env k cfg opts))"
  by (auto simp: runMethodE2E_def tunnelOutcome_def Let_def split: tunnel_event.splits sum.splits option.splits)

text \<open>
  C35. The \<^verbatim>\<open>-test\<close> mode reports what it found. It succeeds exactly when the fake-SNI trace worked, the internal
  address, where it is known, is the same, and the end-to-end test of each of the 24 different combinations
  passed; a test only passes if its own proxy came up and a request through the address it reported was
  answered with status 200; and unless the preflight check fails one line is printed per combination, in
  order, with its own result. None of the names it tries is refused, in whatever order the aliases were entered.
\<close>

theorem method_matrix_report:
  assumes "distinct (map fst (te_aliases env))" and "set (te_aliases env) = set (browserAutoAliases (te_lib env))"
    and "runMethodMatrix env cfg injector = (out, res)"
    and "trace = fetchFakeSNITraceIP (te_certs env) (te_Do env) (ConnectIP cfg) (FakeSNI cfg)"
    and "internal = fetchArvanTraceIP (te_certs env) (te_Do env)"
    and "results = outcomes (\<lambda>k caseCfg opts. fst (runMethodE2E env k caseCfg opts)) cfg injector 0 methodMatrixCases"
  shows "(res = None \<longleftrightarrow>
      (\<exists>ip. trace = Inr ip \<and> ((\<exists>e. internal = Inl e) \<or> internal = Inr ip)) \<and> list_all (\<lambda>r. r = None) results) \<and>
    ((\<exists>ip. trace = Inr ip \<and> ((\<exists>e. internal = Inl e) \<or> internal = Inr ip)) \<longrightarrow>
      (\<exists>before after. out = before @ table methodMatrixCases results @ after \<and> length results = 24)) \<and>
    (\<forall>k caseCfg opts. fst (runMethodE2E env k caseCfg opts) = None \<longrightarrow>
      (\<exists>addr resp. ReportReady (Inr addr) \<in> set (snd (startTunnel env k caseCfg opts)) \<and>
        te_DoCase env k (e2eRequest (te_certs env) (loopbackListenAddr addr)) = Inr resp \<and> StatusCode resp = 200)) \<and>
    distinct methodMatrixCases"
proof -
  let ?failed = "filter (\<lambda>r. r \<noteq> None) results" and ?pass = "\<exists>ip. trace = Inr ip \<and> ((\<exists>e. internal = Inl e) \<or> internal = Inr ip)"
  have passed: "length ?failed = 0 \<longleftrightarrow> list_all (\<lambda>r. r = None) results" by (auto simp: filter_empty_conv list_all_iff)
  have len: "length results = 24" by (simp add: assms(6) outcomes_def matrix_cases)
  have run: "reportMatrix (preflight trace internal) (presetError env) (\<lambda>k caseCfg opts. fst (runMethodE2E env k caseCfg opts)) cfg injector = (out, res)"
    using assms(3) by (simp add: runMethodMatrix_def checkMethodPreconditions_def assms(4,5))
  have "(res = None \<longleftrightarrow> ?pass \<and> list_all (\<lambda>r. r = None) results) \<and>
    (?pass \<longrightarrow> (\<exists>before after. out = before @ table methodMatrixCases results @ after \<and> length results = 24))"
  proof (cases ?pass)
    case True
    then obtain o1 ok where "preflight trace internal = (o1, Inr ok)" using preflight_passes [of trace internal] by blast
    with run reportMatrix_table [OF matrix_names_known [OF assms(1,2)] assms(6), of o1 ok]
    have "(\<exists>before after. out = before @ table methodMatrixCases results @ after)"
      "res = None \<longleftrightarrow> length ?failed = 0" by (auto split: if_splits)
    with True passed len show ?thesis by blast
  next
    case False
    then obtain o1 e where "preflight trace internal = (o1, Inl e)"
      using preflight_passes [of trace internal] by (metis surj_pair sum.exhaust)
    with run have "res = Some e" by (auto simp: reportMatrix_def)
    with False show ?thesis by blast
  qed
  then show ?thesis using e2e_through_proxy matrix_cases(2) by blast
qed

text \<open>An upstream that answers every request, and a proxy that always comes up; then the \<^verbatim>\<open>select\<close> times out.\<close>

definition sample_test :: "(string \<times> string, unit) test_env" where
  "sample_test =
     \<lparr>te_certs = \<lparr>ce_Getenv = \<lambda>_. [], ce_ReadFile = \<lambda>_. None, ce_ReadDir = \<lambda>_. None, ce_Join = (@), ce_SystemCertPool = Some (),
        ce_NewCertPool = (), ce_AppendCertsFromPEM = \<lambda>_ _. (False, ())\<rparr>,
      te_lib = sample_utls, te_aliases = browserAutoAliases sample_utls,
      te_Do = \<lambda>rq. if rq_Host rq = ''invalid'' then Inl ''timeout''
        else Inr \<lparr>StatusCode = 200, Status = ''200 OK'', Body = (''ip=1.2.3.4'', None)\<rparr>,
      te_DoCase = \<lambda>_ _. Inr \<lparr>StatusCode = 200, Status = ''200 OK'', Body = (''{}'', None)\<rparr>,
      te_Unmarshal = \<lambda>_. None, te_dialUDP = \<lambda>_. Inr [10, 0, 0, 2],
      te_run = \<lambda>_. \<lparr>re_interfaceIPv4 = [], re_newInjector = None, re_ready = None, re_listen = Inr ''127.0.0.1:4000''\<rparr>,
      te_accepts = \<lambda>_. [], te_select = \<lambda>_. 0\<rparr>"

lemma sample_trace: "fetchFakeSNITraceIP (te_certs sample_test) (te_Do sample_test) (ConnectIP sample_cfg) (FakeSNI sample_cfg) = Inr ''1.2.3.4''"
proof -
  have "traceHost ''a.b'' = Inr ''a.b''" "parseCloudflareTraceIP ''ip=1.2.3.4'' = Inr ''1.2.3.4''" by code_simp+
  then show ?thesis
    by (simp add: fetchFakeSNITraceIP_def sample_test_def sample_cfg_def traceRequest_def ReadLimited_def)
qed

lemma sample_internal: "fetchArvanTraceIP (te_certs sample_test) (te_Do sample_test) = Inl ''timeout''"
  by (simp add: fetchArvanTraceIP_def arvanRequest_def sample_test_def)

lemma sample_events:
  "tunnelEvents (startTunnel (sample_test\<lparr>te_select := s\<rparr>) k cfg (case_proxyOptions m tc)) = [TunnelReady (Inr ''127.0.0.1:4000''), TunnelTimeout]"
  by (simp add: startTunnel_def sample_test_def runProxy_def case_proxyOptions_def GetDefaultInterfaceIPv4_def IP_String_def
      tunnelEvents_def Let_def)

lemma sample_passes: "fst (runMethodE2E sample_test k cfg (case_proxyOptions m tc)) = None"
  using sample_events [of "te_select sample_test"]
  by (simp add: e2e_pass_iff) (simp add: sample_test_def ReadLimited_def)

lemma sample_times_out:
  "fst (runMethodE2E (sample_test\<lparr>te_select := \<lambda>_. Suc 0\<rparr>) k cfg (case_proxyOptions m tc)) = Some ''method test: tunnel start timeout''"
  by (simp add: runMethodE2E_def sample_events tunnelOutcome_def)

theorem method_matrix_report_witness:
  "snd (runMethodMatrix sample_test sample_cfg InjectorModeActive) = None \<and>
   snd (runMethodMatrix (sample_test\<lparr>te_select := \<lambda>_. Suc 0\<rparr>) sample_cfg InjectorModeActive) \<noteq> None"
proof -
  let ?late = "sample_test\<lparr>te_select := \<lambda>_. Suc 0\<rparr>"
  let ?results = "\<lambda>env. outcomes (\<lambda>k c opts. fst (runMethodE2E env k c opts)) sample_cfg InjectorModeActive 0 methodMatrixCases"
  have d: "distinct (map fst (te_aliases sample_test))" "set (te_aliases sample_test) = set (browserAutoAliases (te_lib sample_test))"
    by (simp_all add: sample_test_def alias_names)
  then have d': "distinct (map fst (te_aliases ?late))" "set (te_aliases ?late) = set (browserAutoAliases (te_lib ?late))"
    by simp_all
  have pass: "list_all (\<lambda>r. r = None) (?results sample_test)"
    by (auto simp: outcomes_def list_all_iff sample_passes)
  have fails: "\<not> list_all (\<lambda>r. r = None) (?results ?late)"
    by (simp add: methodMatrixCases_def outcomes_Cons sample_times_out)
  show ?thesis
    using method_matrix_report [OF d surjective_pairing refl refl refl, of sample_cfg InjectorModeActive, THEN conjunct1]
      method_matrix_report [OF d' surjective_pairing refl refl refl, of sample_cfg InjectorModeActive, THEN conjunct1]
      pass fails sample_trace sample_internal by simp
qed

end
