(* ===== verification/Main_Program.thy ===== *)
theory Main_Program
  imports UTLS_Names Method_Test
begin

text \<open>
  Model of \<^verbatim>\<open>main\<close> from the arguments to the exit status: the privilege check and the default mode of each
  platform (\<^verbatim>\<open>privilege_*.go\<close>, \<^verbatim>\<open>injector_mode_default*.go\<close>), the usage text, the ways out of \<^verbatim>\<open>main\<close>, and the
  runs of the proxy and of the method test it starts. The defaults \<^verbatim>\<open>flag.PrintDefaults\<close> lists and the
  \<^verbatim>\<open>shutdown\<close> line of the signal handler are not spelled out.
\<close>

section \<open>The platforms\<close>

text \<open>The process as the privilege check sees it: the effective user, or the outcome of opening the
  process token and whether it is elevated.\<close>

datatype os_process = LinuxProcess int | DarwinProcess int | WindowsProcess "string + bool"

definition isPrivileged_unix :: "int \<Rightarrow> string + bool" where
  "isPrivileged_unix euid = Inr (euid = 0)"

definition isPrivileged_windows :: "string + bool \<Rightarrow> string + bool" where
  "isPrivileged_windows token = (case token of Inl err \<Rightarrow> Inl err | Inr elevated \<Rightarrow> Inr elevated)"

definition isPrivileged :: "os_process \<Rightarrow> string + bool" where
  "isPrivileged p =
     (case p of
        LinuxProcess euid \<Rightarrow> isPrivileged_unix euid
      | DarwinProcess euid \<Rightarrow> isPrivileged_unix euid
      | WindowsProcess token \<Rightarrow> isPrivileged_windows token)"

definition privilegeHint_unix :: string where
  "privilegeHint_unix = ''run as root''"

definition privilegeHint_windows :: string where
  "privilegeHint_windows = ''run as Administrator''"

definition privilegeHint :: "os_process \<Rightarrow> string" where
  "privilegeHint p = (case p of WindowsProcess _ \<Rightarrow> privilegeHint_windows | _ \<Rightarrow> privilegeHint_unix)"

definition defaultInjectorMode_darwin :: InjectorMode where
  "defaultInjectorMode_darwin = InjectorModePassive"

definition defaultInjectorMode_other :: InjectorMode where
  "defaultInjectorMode_other = InjectorModeActive"

definition defaultInjectorMode :: "os_process \<Rightarrow> InjectorMode" where
  "defaultInjectorMode p = (case p of DarwinProcess _ \<Rightarrow> defaultInjectorMode_darwin | _ \<Rightarrow> defaultInjectorMode_other)"

section \<open>Ways out of \<^verbatim>\<open>main\<close>\<close>

datatype main_action =
    Stderr string
  | PrintDefaults
  | ReadLine
  | LogFatal main_error
  | LogFatalText string
  | Matrix "string list"
  | ProxyRun "run_action list"

abbreviation nl :: string where
  "nl \<equiv> [CHR 0x0A]"

definition waitForExitKey :: "main_action list" where
  "waitForExitKey = [Stderr (nl @ ''Press Enter to exit...''), ReadLine, Stderr nl]"

definition usage_text :: "string \<Rightarrow> string list" where
  "usage_text exe =
    [''SNI-Spoofing '' @ [CHR 0xE2, CHR 0x80, CHR 0x94] @
       '' fake TLS ClientHello (SNI) injection proxy. IPv4 only; run as Administrator / root.'',
     [],
     ''Usage:'',
     ''  '' @ exe @ '' -listen <addr> -connect <addr> [options]'',
     [],
     ''Required:'',
     ''  -listen <host:port>   listen address (host optional, e.g. :8080)'',
     ''  -connect <host:port>  upstream; hostname (SNI from host) or IPv4 (needs -fake-sni)'',
     [],
     ''Optional:'',
     ''  -config <path>       INI config file (default: ./config.ini if it exists)'',
     ''  -test              run e2e method test matrix for the selected -connect/-fake-sni pair, then exit'',
     ''  -fake-sni <hostname>  SNI in the injected ClientHello (overrides -connect hostname)'',
     ''  -fake-repeat <n>      fake ClientHello injections before real traffic (default 1)'',
     ''  -fake-delay          delay after fake injection (default 2ms)'',
     ''  -ack-timeout         max wait for server ACK after fake injection (default 2s)'',
     ''  -utls <name>         TLS fingerprint (default: firefox); use '' @ [CHR 0x22] @ ''none'' @ [CHR 0x22] @ '' for legacy template; list below'',
     ''  -enable-fragment     fragment real ClientHello (prefix / SNI chunks / suffix); default false'',
     ''  -fragment-delay      delay between TCP segments when ClientHello is split (default 500ms)'',
     ''  -sni-chunk            SNI bytes per TCP write after prefix (default 3; 0 = whole name in one write)'',
     [],
     ''Examples:'',
     ''  '' @ exe @ '' -listen 127.0.0.1:8080 -connect example.com:443'',
     ''  '' @ exe @ '' -listen 127.0.0.1:8080 -connect 198.51.100.2:443 -fake-sni allowed.example.com'',
     [],
     ''Valid -utls names:'',
     []]"

definition usage :: "'i utls_library \<Rightarrow> string \<Rightarrow> main_action list" where
  "usage lib exe =
     map (\<lambda>line. Stderr (line @ nl)) (usage_text exe) @
     [Stderr (UTLSHelpGroupedCSV lib),
      Stderr (nl @ ''Default when -utls is omitted: '' @ DefaultUTLSSummary @ ''. Use -utls none for the legacy fixed ClientHello.'' @ nl @ nl),
      Stderr (''Options:'' @ nl), PrintDefaults]"

text \<open>\<^verbatim>\<open>requirePrivilegedOrExit\<close>: \<^const>\<open>None\<close> when it returns.\<close>

definition requirePrivilegedOrExit :: "os_process \<Rightarrow> (nat \<times> main_action list) option" where
  "requirePrivilegedOrExit p =
     (if isPrivileged p = Inr True then None
      else Some (1, (case isPrivileged p of Inl err \<Rightarrow> [Stderr (''Privilege check failed: '' @ err @ nl)] | Inr _ \<Rightarrow> []) @
             [Stderr (''This program needs elevated privileges; please '' @ privilegeHint p @ ''.'' @ nl)] @ waitForExitKey))"

text \<open>What package \<^verbatim>\<open>flag\<close> prints before it shows the usage; the cause of an invalid value and the escapes of
  \<^verbatim>\<open>%q\<close> are left out.\<close>

definition quoted :: "string \<Rightarrow> string" where
  "quoted s = [CHR 0x22] @ s @ [CHR 0x22]"

definition flagMessage :: "flag_error \<Rightarrow> main_action list" where
  "flagMessage e =
     (case e of
        HelpRequested \<Rightarrow> []
      | BadFlagSyntax s \<Rightarrow> [Stderr (''bad flag syntax: '' @ s @ nl)]
      | UndefinedFlag n \<Rightarrow> [Stderr (''flag provided but not defined: -'' @ n @ nl)]
      | NeedsArgument n \<Rightarrow> [Stderr (''flag needs an argument: -'' @ n @ nl)]
      | InvalidValue n v \<Rightarrow>
          [Stderr (''invalid '' @ (if isBoolFlag n then ''boolean '' else []) @ ''value '' @ quoted v @ '' for '' @
             (if isBoolFlag n then [] else ''flag '') @ ''-'' @ n @ nl)])"

definition refuse :: "'i utls_library \<Rightarrow> string \<Rightarrow> os_process \<Rightarrow> main_error \<Rightarrow> nat \<times> main_action list" where
  "refuse lib exe p e =
     (case e of
        FlagError HelpRequested \<Rightarrow> (0, usage lib exe)
      | FlagError fe \<Rightarrow> (2, flagMessage fe @ usage lib exe)
      | UnexpectedArguments args \<Rightarrow>
          (2, [Stderr (''error: unexpected arguments: ['' @ Join (map quoted args) '' '' @ '']'' @ nl), Stderr nl] @ usage lib exe)
      | NotPrivileged \<Rightarrow> (case requirePrivilegedOrExit p of Some out \<Rightarrow> out | None \<Rightarrow> (1, []))
      | _ \<Rightarrow> (1, [LogFatal e]))"

section \<open>The program\<close>

text \<open>What the proxy gets from outside, with all that the tests get: both look up the interface address the same
  way, and the usage text lists the presets of the same library.\<close>

record ('i, 'p) run_world =
  rw_run :: run_env
  rw_events :: "accept_result list"
  rw_test :: "('i, 'p) test_env"

definition platform_env :: "os_process \<Rightarrow> 'i main_env \<Rightarrow> 'i main_env" where
  "platform_env p env = env\<lparr>me_privileged := isPrivileged p, me_defaultMode := defaultInjectorMode p\<rparr>"

definition startRun :: "('i, 'p) run_world \<Rightarrow> bool \<Rightarrow> Config \<Rightarrow> proxyOptions \<Rightarrow> nat option \<times> main_action list" where
  "startRun w test cfg opts =
     (if test then
        (case runMethodMatrix (rw_test w) cfg (po_injector opts) of
           (out, Some err) \<Rightarrow> (Some 1, [Matrix out, Stderr (err @ nl)] @ waitForExitKey)
         | (out, None) \<Rightarrow> (Some 0, [Matrix out] @ waitForExitKey))
      else
        (case runProxy ((rw_run w)\<lparr>re_interfaceIPv4 := GetDefaultInterfaceIPv4 (te_dialUDP (rw_test w)) (ConnectIP cfg)\<rparr>)
                cfg opts False (rw_events w) of
           (None, acts) \<Rightarrow> (None, [ProxyRun acts])
         | (Some (Some err), acts) \<Rightarrow> (Some 1, [ProxyRun acts, LogFatalText err])
         | (Some None, acts) \<Rightarrow> (Some 0, [ProxyRun acts])))"

text \<open>The exit status, \<^const>\<open>None\<close> while the proxy runs.\<close>

definition main_program ::
  "'i main_env \<Rightarrow> ('i, 'p) run_world \<Rightarrow> os_process \<Rightarrow> string \<Rightarrow> string list \<Rightarrow> nat option \<times> main_action list" where
  "main_program env w p exe args =
     (let env = platform_env p env; lib = te_lib (rw_test w)
      in case main_options env args of
           Inl e \<Rightarrow> (let (status, acts) = refuse lib exe p e in (Some status, acts))
         | Inr o1 \<Rightarrow>
             (case main_checks env o1 of
                Inl e \<Rightarrow> (let (status, acts) = refuse lib exe p e in (Some status, acts))
              | Inr (cfg, opts) \<Rightarrow> startRun w (testMode o1) cfg opts))"

section \<open>What \<^verbatim>\<open>main\<close> starts and how it ends\<close>

fun starts :: "main_action \<Rightarrow> bool" where
  "starts (Matrix out) = True"
| "starts (ProxyRun acts) = True"
| "starts _ = False"

text \<open>The processes that may run the program, and the mode each platform starts with.\<close>

fun root_or_administrator :: "os_process \<Rightarrow> bool" where
  "root_or_administrator (LinuxProcess euid) = (euid = 0)"
| "root_or_administrator (DarwinProcess euid) = (euid = 0)"
| "root_or_administrator (WindowsProcess token) = (token = Inr True)"

fun platform_mode :: "os_process \<Rightarrow> InjectorMode" where
  "platform_mode (DarwinProcess euid) = InjectorModePassive"
| "platform_mode (LinuxProcess euid) = InjectorModeActive"
| "platform_mode (WindowsProcess token) = InjectorModeActive"

lemma isPrivileged_iff: "isPrivileged p = Inr True \<longleftrightarrow> root_or_administrator p"
  by (cases p) (auto simp: isPrivileged_def isPrivileged_unix_def isPrivileged_windows_def split: sum.split)

lemma defaultInjectorMode_eq: "defaultInjectorMode p = platform_mode p"
  by (cases p) (simp_all add: defaultInjectorMode_def defaultInjectorMode_darwin_def defaultInjectorMode_other_def)

text \<open>The errors the usage text answers: the flags and what is left after them.\<close>

fun usage_error :: "main_error \<Rightarrow> bool" where
  "usage_error (FlagError e) = (e \<noteq> HelpRequested)"
| "usage_error (UnexpectedArguments args) = True"
| "usage_error _ = False"

lemma usage_quiet [simp]: "filter starts (usage lib exe) = []" "filter starts waitForExitKey = []"
  by (simp_all add: usage_def waitForExitKey_def filter_empty_conv)

lemma refuse_quiet: "filter starts (snd (refuse lib exe p e)) = []"
  by (simp add: refuse_def flagMessage_def requirePrivilegedOrExit_def split: main_error.split flag_error.split sum.split)

lemma refuse_status:
  "fst (refuse lib exe p e) = (if e = FlagError HelpRequested then 0 else if usage_error e then 2 else 1)"
  by (simp add: refuse_def requirePrivilegedOrExit_def split: main_error.split flag_error.split)

lemma main_checks_gate:
  "main_checks env o1 = Inr x \<Longrightarrow> me_privileged env = Inr True"
  "main_checks env o1 = Inl e \<Longrightarrow> \<not> usage_error e \<and> e \<noteq> FlagError HelpRequested"
  by (auto simp: main_checks_def Let_def split: sum.splits if_splits)

lemma startRun_starts: "length (filter starts (snd (startRun w test cfg opts))) = 1"
  by (simp add: startRun_def split: prod.split option.split)

lemma startRun_status: "fst (startRun w test cfg opts) \<noteq> Some 2"
  by (simp add: startRun_def split: prod.split option.split)

lemma runProxy_injector:
  assumes "runProxy env cfg opts hasReady events = (res, acts)" and "NewInjector i ips port m \<in> set acts"
  shows "m = po_injector opts"
proof -
  have "NewInjector i ips port m \<notin> set (snd (acceptLoop silent events))" for silent
    by (induction silent events rule: acceptLoop.induct) (auto simp: Let_def split: prod.splits option.splits)
  then have "acceptLoop silent events = (r, as) \<Longrightarrow> NewInjector i ips port m \<notin> set as" for silent r as
    by (metis snd_conv)
  then show ?thesis using assms
    by (auto simp: runProxy_def Let_def split: if_splits option.splits sum.splits prod.splits)
qed

lemma proxy_run_injector:
  "ProxyRun acts' \<in> set (snd (startRun w test cfg opts)) \<Longrightarrow> NewInjector i ips port m \<in> set acts' \<Longrightarrow> m = po_injector opts"
  by (auto simp: startRun_def waitForExitKey_def dest: runProxy_injector split: if_splits prod.splits option.splits)

lemma main_program_refused:
  assumes "main_setup (platform_env p env) args = Inl e"
  shows "main_program env w p exe args = (Some (fst (refuse (te_lib (rw_test w)) exe p e)), snd (refuse (te_lib (rw_test w)) exe p e))"
    and "usage_error e \<longleftrightarrow> (\<exists>e. main_options (platform_env p env) args = Inl e \<and> usage_error e)"
  using assms main_checks_gate(2) [of "platform_env p env" _ e]
  by (auto simp: main_program_def main_setup_def Let_def split: sum.splits prod.splits)

text \<open>
  C14. Whatever the command line and the files say, the program starts at most one run, of the proxy or of
  the method test, and it starts one exactly when the configuration is accepted, which only happens to
  root or an elevated administrator. It ends with status 2 exactly when the command line is refused by the
  flags or leaves arguments over. Without an \<^verbatim>\<open>-injector\<close> flag the injector the proxy creates is the passive one on
  macOS and the active one on the other platforms, even if the configuration file names another:
  declaring the flag stores the default over the value read from the file.
\<close>

theorem main_outcome:
  assumes "main_program env w p exe args = (status, acts)"
  shows "(filter starts acts \<noteq> [] \<longleftrightarrow> (\<exists>r. main_setup (platform_env p env) args = Inr r)) \<and>
    length (filter starts acts) \<le> 1 \<and>
    (filter starts acts \<noteq> [] \<longrightarrow> root_or_administrator p) \<and>
    (status = Some 2 \<longleftrightarrow> (\<exists>e. main_options (platform_env p env) args = Inl e \<and> usage_error e)) \<and>
    (list_all (\<lambda>a. \<not> names_flag ''injector'' a) args \<longrightarrow>
      (\<forall>acts' i ips port m. ProxyRun acts' \<in> set acts \<and> NewInjector i ips port m \<in> set acts' \<longrightarrow> m = platform_mode p))"
proof (cases "main_setup (platform_env p env) args")
  case (Inl e)
  note out = main_program_refused [OF Inl]
  let ?lib = "te_lib (rw_test w)"
  have "(status, acts) = (Some (fst (refuse ?lib exe p e)), snd (refuse ?lib exe p e))"
    using out(1) [of w exe] assms by simp
  moreover have "ProxyRun acts' \<notin> set (snd (refuse ?lib exe p e))" for acts'
    using refuse_quiet [of ?lib exe p e] by (auto simp: filter_empty_conv)
  ultimately show ?thesis using Inl refuse_quiet [of ?lib exe p e] out(2) by (auto simp: refuse_status)
next
  case (Inr r)
  obtain cfg opts o1 where r: "r = (cfg, opts)" "main_options (platform_env p env) args = Inr o1"
    "main_checks (platform_env p env) o1 = Inr (cfg, opts)"
    using Inr by (cases r) (auto simp: main_setup_def split: sum.splits)
  then have run: "(status, acts) = startRun w (testMode o1) cfg opts"
    using assms by (simp add: main_program_def Let_def)
  have "root_or_administrator p"
    using main_checks_gate(1) [OF r(3)] by (simp add: platform_env_def isPrivileged_iff)
  moreover have "po_injector opts = platform_mode p" if "list_all (\<lambda>a. \<not> names_flag ''injector'' a) args"
    using file_injector_ignored [OF Inr [unfolded r(1)] that] by (simp add: platform_env_def defaultInjectorMode_eq)
  ultimately show ?thesis
    using Inr r(2) startRun_starts [of w "testMode o1" cfg opts] startRun_status [of w "testMode o1" cfg opts]
      proxy_run_injector [of _ w "testMode o1" cfg opts]
    by (auto simp flip: run)
qed

text \<open>Root on Linux with the configuration file of \<^const>\<open>sample_main\<close>, which names the passive injector.\<close>

definition sample_world :: "(nat, unit) run_world" where
  "sample_world =
     \<lparr>rw_run = \<lparr>re_interfaceIPv4 = [], re_newInjector = None, re_ready = None, re_listen = Inr ''0.0.0.0:8080''\<rparr>,
      rw_events = [Accepted 1],
      rw_test =
        \<lparr>te_certs = te_certs sample_test,
         te_lib = \<lparr>ul_Client = (\<lambda>_. ''Firefox''), ul_Version = (\<lambda>_. ''0''), ul_Str = (\<lambda>_. ''Firefox-0''), ul_id = (\<lambda>_. 0)\<rparr>,
         te_aliases = [(''firefox'', 0)], te_Do = te_Do sample_test, te_DoCase = te_DoCase sample_test,
         te_Unmarshal = te_Unmarshal sample_test, te_dialUDP = te_dialUDP sample_test, te_run = te_run sample_test,
         te_accepts = te_accepts sample_test, te_select = te_select sample_test\<rparr>\<rparr>"

lemma sample_platform: "platform_env (LinuxProcess 0) sample_main = sample_main"
  by (simp add: platform_env_def isPrivileged_def isPrivileged_unix_def defaultInjectorMode_def defaultInjectorMode_other_def
      sample_main_def)

lemma sample_program:
  "main_program sample_main sample_world (LinuxProcess 0) ''proxy'' [] = startRun sample_world False sample_cfg sample_opts"
  using sample_main_setup
  by (auto simp: main_program_def sample_platform main_setup_def sample_main_options split: sum.splits)

lemma sample_run:
  "startRun sample_world False sample_cfg sample_opts =
    (None, [ProxyRun [RunLog ''iface: 10.0.0.2'', NewInjector ''10.0.0.2'' [''1.1.1.1''] 443 InjectorModeActive, StartInjector,
       Listen '':8080'', RunLog ''listen: 0.0.0.0:8080'', HandleConn 1]])"
proof -
  have "GetDefaultInterfaceIPv4 (\<lambda>_. Inr [10, 0, 0, 2]) ''1.1.1.1'' = ''10.0.0.2''" by code_simp
  moreover have "JoinHostPort [] ''8080'' = '':8080''" by code_simp
  moreover have "decimal_int 8080 = ''8080''" by (simp add: decimal_int_def decimal.simps char_of_def bit_0)
  ultimately show ?thesis by (simp add: startRun_def sample_world_def sample_test_def sample_cfg_def sample_opts_def runProxy_def Let_def)
qed

theorem main_outcome_witness:
  "main_program sample_main sample_world (LinuxProcess 0) ''proxy'' [] =
    (None, [ProxyRun [RunLog ''iface: 10.0.0.2'', NewInjector ''10.0.0.2'' [''1.1.1.1''] 443 InjectorModeActive, StartInjector,
       Listen '':8080'', RunLog ''listen: 0.0.0.0:8080'', HandleConn 1]]) \<and>
   root_or_administrator (LinuxProcess 0) \<and> platform_mode (LinuxProcess 0) = InjectorModeActive"
  using main_outcome [OF sample_program [unfolded sample_run]] sample_program [unfolded sample_run]
  by simp

end
