(* ===== verification/TCP_Receiver.thy ===== *)
theory TCP_Receiver
  imports Wrong_Seq Handshake
begin

text \<open>
  Why the fake does no harm: the specification of a TCP receiver's acceptability test (RFC 793, section 3.3)
  and what it makes of the packets of an injection. The server, which expects \<^verbatim>\<open>SynSeq + 1\<close> after the
  handshake, discards every one of them and answers with an acknowledgement of \<^verbatim>\<open>SynSeq + 1\<close>, the very
  segment the injector waits for.
\<close>

section \<open>The acceptability test\<close>

text \<open>\<open>nxt\<close> is \<^verbatim>\<open>RCV.NXT\<close>, \<open>wnd\<close> is \<^verbatim>\<open>RCV.WND\<close>; sequence numbers are compared modulo \<open>2 ^ 32\<close>.\<close>

definition in_window :: "u32 \<Rightarrow> nat \<Rightarrow> u32 \<Rightarrow> bool" where
  "in_window nxt wnd x \<longleftrightarrow> unat (x - nxt) < wnd"

definition seg_acceptable :: "u32 \<Rightarrow> nat \<Rightarrow> u32 \<Rightarrow> nat \<Rightarrow> bool" where
  "seg_acceptable nxt wnd sq len \<longleftrightarrow>
     (if len = 0 then (if wnd = 0 then sq = nxt else in_window nxt wnd sq)
      else wnd > 0 \<and> (in_window nxt wnd sq \<or> in_window nxt wnd (sq + of_nat (len - 1))))"

text \<open>What the receiver does with a segment: take its data into account, or drop it and acknowledge what it
  has.\<close>

datatype tcp_answer = Taken | Dropped "u32"

definition tcp_receive :: "u32 \<Rightarrow> nat \<Rightarrow> u32 \<Rightarrow> nat \<Rightarrow> tcp_answer" where
  "tcp_receive nxt wnd sq len = (if seg_acceptable nxt wnd sq len then Taken else Dropped nxt)"

lemma before_window:
  assumes "0 < d" and "d \<le> t" and "wnd + t \<le> 2 ^ 32"
  shows "\<not> in_window nxt wnd (nxt - of_nat d)"
proof -
  have d: "unat (of_nat d :: u32) = d \<or> d = 2 ^ 32" using assms by (auto simp: unat_of_nat take_bit_eq_mod)
  show ?thesis
  proof (cases "d = 2 ^ 32")
    case True
    with assms show ?thesis by (simp add: in_window_def)
  next
    case False
    with d have u: "unat (of_nat d :: u32) = d" by simp
    have "nxt - of_nat d - nxt = - (of_nat d :: u32)" by simp
    moreover have "unat (- (of_nat d :: u32)) = 2 ^ 32 - d"
      using u assms(1) unat_sub_if_size [of 0 "of_nat d :: u32"] by (simp add: word_size)
    ultimately show ?thesis using assms by (simp add: in_window_def)
  qed
qed

text \<open>A segment that ends at or before \<open>nxt\<close> is dropped.\<close>

lemma old_segment_dropped:
  assumes "sq = nxt - of_nat d" and "len \<le> d" and "0 < len" and "d \<le> t" and "wnd + t \<le> 2 ^ 32"
  shows "tcp_receive nxt wnd sq len = Dropped nxt"
proof -
  have "len - 1 \<le> d" using assms(2) by simp
  then have "(of_nat (d - (len - 1)) :: u32) = of_nat d - of_nat (len - 1)" by (rule of_nat_diff)
  then have last: "sq + of_nat (len - 1) = nxt - of_nat (d - (len - 1))" by (simp only: assms(1)) (simp only: diff_diff_eq2 diff_add_eq)
  have "\<not> in_window nxt wnd (sq + of_nat (len - 1))"
    unfolding last by (rule before_window [of _ t]) (use assms in auto)
  moreover have "\<not> in_window nxt wnd sq"
    unfolding assms(1) by (rule before_window [of _ t]) (use assms in auto)
  ultimately show ?thesis using assms(3) by (simp add: tcp_receive_def seg_acceptable_def)
qed

section \<open>The fake is dropped\<close>

lemma fakeSegments_dropped:
  assumes "valid_headers template" and "IPVersion template = 4" and "wnd + length (FakeData conn) \<le> 2 ^ 32"
    and "pkt \<in> set (fakeSegments nicMTU template conn)"
  shows "tcp_receive (next_seq (SynSeq conn)) wnd (TCPSeqNum pkt) (length (payload_of template pkt)) = Dropped (next_seq (SynSeq conn))"
proof -
  let ?t = "length (FakeData conn)" and ?m = "segmentMSS nicMTU template"
  from assms(4) obtain k where k: "k < segCount nicMTU template conn" and pkt: "pkt = fakeSegments nicMTU template conn ! k"
    by (auto simp: in_set_conv_nth)
  have le: "k * ?m < ?t" using k by (simp add: segCount_gr)
  have "TCPSeqNum pkt = baseWrongSeq conn + of_nat (k * ?m)"
    using wrongSeqPacket_fields(2) [OF fakeSegments_nth [OF assms(1) k, unfolded segmentAt_def] assms(2)] by (simp add: pkt)
  also have "\<dots> = next_seq (SynSeq conn) - of_nat (?t - k * ?m)"
    using le by (simp add: baseWrongSeq_def next_seq_def of_nat_diff)
  finally have sq: "TCPSeqNum pkt = next_seq (SynSeq conn) - of_nat (?t - k * ?m)" .
  have len: "length (payload_of template pkt) = min ?m (?t - k * ?m)"
    unfolding pkt payload_segment [OF assms(1,2) k] by (simp add: segChunk_def Let_def)
  show ?thesis
    by (rule old_segment_dropped [OF sq _ _ _ assms(3)]) (use le len in auto)
qed

text \<open>The acknowledgement a server sends for a segment it drops: \<open>nxt'\<close> is its own next sequence number.\<close>

definition acknowledges :: "u32 \<Rightarrow> tcp_answer \<Rightarrow> segment \<Rightarrow> bool" where
  "acknowledges nxt' answer s \<longleftrightarrow>
     (case answer of
        Taken \<Rightarrow> False
      | Dropped nxt \<Rightarrow> pure_ack s \<and> sg_seq s = nxt' \<and> sg_ack s = nxt)"

text \<open>
  C4. A server that has completed the handshake, with any receive window below \<open>2 ^ 32\<close> less the length of the
  fake, drops every packet of the injection, so that none of the fake reaches its application; and the
  acknowledgement it answers with is taken for the acknowledgement of the fake by the injector, noted while
  the injection is running and signalled as success, by its strict check, once the fake is sent.
\<close>

theorem fake_dropped_and_acknowledged:
  assumes "valid_headers template" and "IPVersion template = 4" and "wnd + length (FakeData conn) \<le> 2 ^ 32"
    and "SynSeq conn \<noteq> -1" and "SynAckSeq conn \<noteq> -1"
    and "pkt \<in> set (fakeSegments nicMTU template conn)"
    and "answer = tcp_receive (next_seq (SynSeq conn)) wnd (TCPSeqNum pkt) (length (payload_of template pkt))"
    and "acknowledges (next_seq (SynAckSeq conn)) answer s"
  shows "answer = Dropped (next_seq (SynSeq conn)) \<and>
    postFakeInboundStrictOK (sg_seq s) (sg_ack s) conn \<and>
    inbound s (conn\<lparr>FakeSent := True\<rparr>) = FakeAcked \<and>
    inbound s (conn\<lparr>FakeInjectInProgress := True, FakeSent := False\<rparr>) = NoteAck"
proof -
  have answer: "answer = Dropped (next_seq (SynSeq conn))"
    using fakeSegments_dropped [OF assms(1-3,6)] assms(7) by simp
  then have s: "pure_ack s" "sg_seq s = next_seq (SynAckSeq conn)" "sg_ack s = next_seq (SynSeq conn)"
    using assms(8) by (simp_all add: acknowledges_def)
  have "ackAcceptsPostFakeInbound (sg_ack s) (SynSeq conn) (length (FakeData conn))"
    using s(3) by (simp add: ackAcceptsPostFakeInbound_def Let_def next_seq_def ring_interval)
  then have "postFakeInboundStrictOK (sg_seq s) (sg_ack s) conn"
    using s(2) assms(5) by (simp add: postFakeInboundStrictOK_def Let_def next_seq_def)
  moreover have "inbound s (conn\<lparr>FakeSent := True\<rparr>) = FakeAcked"
    "inbound s (conn\<lparr>FakeInjectInProgress := True, FakeSent := False\<rparr>) = NoteAck"
    using s(1) assms(4,5) by (simp_all add: inbound_def pure_ack_def ack_class_def pure_synack_def)
  ultimately show ?thesis using answer by simp
qed

theorem fake_dropped_and_acknowledged_witness:
  "inbound \<lparr>sg_flags = noTCPFlags\<lparr>ACK := True\<rparr>, sg_len = 0, sg_seq = 5001, sg_ack = 1001\<rparr> (sample_conn\<lparr>FakeSent := True\<rparr>) = FakeAcked \<and>
   tcp_receive 1001 65535 (TCPSeqNum (fakeSegments 0 sample_ack sample_conn ! 0))
     (length (payload_of sample_ack (fakeSegments 0 sample_ack sample_conn ! 0))) = Dropped 1001"
proof -
  let ?pkt = "fakeSegments 0 sample_ack sample_conn ! 0"
    and ?s = "\<lparr>sg_flags = noTCPFlags\<lparr>ACK := True\<rparr>, sg_len = 0, sg_seq = 5001, sg_ack = 1001 :: u32\<rparr>"
  have "0 < segCount 0 sample_ack sample_conn" by (simp add: segCount_gr)
  then have pkt: "?pkt \<in> set (fakeSegments 0 sample_ack sample_conn)" by simp
  have nxt: "next_seq (SynSeq sample_conn) = 1001" "next_seq (SynAckSeq sample_conn) = 5001" by (simp_all add: next_seq_def)
  have fits: "65535 + length (FakeData sample_conn) \<le> 2 ^ 32" by simp
  have answer: "tcp_receive (next_seq (SynSeq sample_conn)) 65535 (TCPSeqNum ?pkt) (length (payload_of sample_ack ?pkt)) = Dropped 1001"
    using fakeSegments_dropped [OF sample_ack_valid fits pkt] unfolding nxt .
  have acks: "acknowledges (next_seq (SynAckSeq sample_conn))
      (tcp_receive (next_seq (SynSeq sample_conn)) 65535 (TCPSeqNum ?pkt) (length (payload_of sample_ack ?pkt))) ?s"
    unfolding answer by (simp add: acknowledges_def pure_ack_def noTCPFlags_def next_seq_def)
  from fake_dropped_and_acknowledged [OF sample_ack_valid fits _ _ pkt refl acks] answer nxt(1) show ?thesis by simp
qed

end
