(* ===== verification/Ack_Session.thy ===== *)
theory Ack_Session
  imports Session
begin

text \<open>
  Whole sessions of an injector, from the first packet of a handshake to the message the client handler
  waits for. While the injection goroutine runs, acknowledgements of the server and packets of the client
  arrive in any number and at any point. A handler holds the lock of the connection, but the goroutine stores
  \<^verbatim>\<open>FakeSent\<close> and \<^verbatim>\<open>FakeInjectInProgress\<close> without it, so the handler may load the one and the other at
  different moments and act on values that have changed since.
\<close>

section \<open>Packets that arrive during the injection\<close>

text \<open>A packet handler that loaded \<open>prog\<close> from \<^verbatim>\<open>FakeInjectInProgress\<close> and \<open>sent\<close> from \<^verbatim>\<open>FakeSent\<close>: it decides on these
  values, and its stores go to the connection as it is then. The rest it reads is protected by the lock. No
  handler stores \<^verbatim>\<open>FakeSent\<close>, and one that found \<^verbatim>\<open>FakeInjectInProgress\<close> unset may store it.\<close>

definition as_seen :: "bool \<Rightarrow> bool \<Rightarrow> FakeInjectiveConnection \<Rightarrow> FakeInjectiveConnection" where
  "as_seen prog sent c = c\<lparr>FakeInjectInProgress := prog, FakeSent := sent\<rparr>"

definition interleaved ::
  "(FakeInjectiveConnection \<Rightarrow> FakeInjectiveConnection) \<Rightarrow> bool \<Rightarrow> bool \<Rightarrow> FakeInjectiveConnection \<Rightarrow> FakeInjectiveConnection" where
  "interleaved handler prog sent c =
     (let c' = handler (as_seen prog sent c)
      in c'\<lparr>FakeSent := FakeSent c,
           FakeInjectInProgress := FakeInjectInProgress c \<or> FakeInjectInProgress c' \<and> \<not> prog\<rparr>)"

text \<open>The values that can have been loaded before: \<^verbatim>\<open>FakeSent\<close> is never reset, and while a handler runs nobody else
  sets \<^verbatim>\<open>FakeInjectInProgress\<close>.\<close>

definition loads_possible :: "bool \<Rightarrow> bool \<Rightarrow> FakeInjectiveConnection \<Rightarrow> bool" where
  "loads_possible prog sent c \<longleftrightarrow> (sent \<longrightarrow> FakeSent c) \<and> (\<not> prog \<longrightarrow> \<not> FakeInjectInProgress c)"

text \<open>A packet of a registered connection, with the values its handler loads (a flag it does not load may be
  given any possible value): handled while the connection is monitored, passed on otherwise.\<close>

datatype arrival = FromServer "byte list" bool bool | FromClient "byte list" bool bool

definition handle_arrival ::
  "(byte list \<Rightarrow> FakeInjectiveConnection \<Rightarrow> 'a handled) \<Rightarrow> (byte list \<Rightarrow> FakeInjectiveConnection \<Rightarrow> 'a handled) \<Rightarrow>
   arrival \<Rightarrow> FakeInjectiveConnection \<Rightarrow> FakeInjectiveConnection" where
  "handle_arrival outb inb a c =
     (case a of
        FromServer p prog sent \<Rightarrow>
          if Monitor c \<and> loads_possible prog sent c then interleaved (\<lambda>c. fst (inb p c)) prog sent c else c
      | FromClient p prog sent \<Rightarrow>
          if Monitor c \<and> loads_possible prog sent c then interleaved (\<lambda>c. fst (outb p c)) prog sent c else c)"

text \<open>What a regular session lets arrive. From the server, acknowledgements: their handler loads
  \<^verbatim>\<open>FakeInjectInProgress\<close> first, and once the goroutine has reset it \<^verbatim>\<open>FakeSent\<close> is set. From the client, packets
  whose handler did not load \<^verbatim>\<open>FakeSent\<close> before the goroutine stored it and \<^verbatim>\<open>FakeInjectInProgress\<close> after the
  goroutine's end; \<open>straddling_retransmission\<close> below shows what happens otherwise.\<close>

fun regular :: "arrival \<Rightarrow> bool" where
  "regular (FromServer p prog sent) = (ack_class (seg_of p) \<and> (prog \<or> sent))"
| "regular (FromClient p prog sent) = (prog \<or> sent)"

text \<open>The same by the handshake machine, and the packets that arrive between two accesses of the goroutine.\<close>

fun machine_arrival :: "arrival \<Rightarrow> FakeInjectiveConnection \<Rightarrow> FakeInjectiveConnection" where
  "machine_arrival (FromServer p prog sent) c =
     (if Monitor c \<and> loads_possible prog sent c then apply_outcome (inbound (seg_of p) (as_seen prog sent c)) c else c)"
| "machine_arrival (FromClient p prog sent) c =
     (if Monitor c \<and> loads_possible prog sent c then apply_outcome (outbound (seg_of p) (as_seen prog sent c)) c else c)"

definition session_move :: "(FakeInjectiveConnection \<Rightarrow> FakeInjectiveConnection) \<Rightarrow> bool" where
  "session_move m \<longleftrightarrow> (\<exists>batch. list_all regular batch \<and> m = fold machine_arrival batch)"

lemma as_seen_fields [simp]:
  "FakeInjectInProgress (as_seen prog sent c) = prog" "FakeSent (as_seen prog sent c) = sent"
  "SynSeq (as_seen prog sent c) = SynSeq c" "SynAckSeq (as_seen prog sent c) = SynAckSeq c" "Monitor (as_seen prog sent c) = Monitor c"
  "FakeData (as_seen prog sent c) = FakeData c"
  by (simp_all add: as_seen_def)

lemma apply_as_seen:
  assumes "out = StartInjection \<Longrightarrow> \<not> prog"
  shows "interleaved (\<lambda>c. apply_outcome out c) prog sent c = apply_outcome out c"
  using assms
  by (cases out) (auto simp: interleaved_def apply_outcome_def as_seen_def trySend_def Let_def)

lemma interleaved_refines:
  assumes "\<And>c. h c = apply_outcome (dir s c) c" and "dir = inbound \<or> dir = outbound"
  shows "interleaved h prog sent c = apply_outcome (dir s (as_seen prog sent c)) c"
proof -
  have "dir s (as_seen prog sent c) = StartInjection \<Longrightarrow> \<not> prog"
    using assms(2) by (auto simp: inbound_def outbound_def split: if_splits)
  from apply_as_seen [OF this] show ?thesis by (simp add: interleaved_def assms(1))
qed

lemma handle_arrival_refines:
  assumes "\<And>p c. fst (outb p c) = apply_outcome (outbound (seg_of p) c) c" and "\<And>p c. fst (inb p c) = apply_outcome (inbound (seg_of p) c) c"
  shows "handle_arrival outb inb a = machine_arrival a"
proof
  fix c
  have "interleaved (\<lambda>c. fst (outb p c)) prog sent c = apply_outcome (outbound (seg_of p) (as_seen prog sent c)) c"
    "interleaved (\<lambda>c. fst (inb p c)) prog sent c = apply_outcome (inbound (seg_of p) (as_seen prog sent c)) c" for p prog sent
    using assms by (simp_all add: interleaved_refines)
  then show "handle_arrival outb inb a c = machine_arrival a c" by (cases a) (simp_all add: handle_arrival_def)
qed

lemma apply_outcome_keeps [simp]:
  "FakeRepeat (apply_outcome out c) = FakeRepeat c" "BypassMethod (apply_outcome out c) = BypassMethod c"
  by (cases out; simp add: apply_outcome_def trySend_def)+

lemma progress_apply: "FakeInjectInProgress (apply_outcome out c) \<longleftrightarrow> out = StartInjection \<or> FakeInjectInProgress c"
  by (cases out) (simp_all add: apply_outcome_def trySend_def)

lemma inbound_starts_nothing: "inbound s c \<noteq> StartInjection"
  by (simp add: inbound_def)

lemma move_ok_id: "move_ok id"
  by (simp add: move_ok_def)

lemma move_ok_comp:
  assumes "move_ok m" and "move_ok m'"
  shows "move_ok (m' \<circ> m)"
proof -
  have "conn_le c (m' (m c))" for c
    using assms conn_le_trans [of c "m c" "m' (m c)"] by (simp add: move_ok_def)
  then show ?thesis using assms by (simp add: move_ok_def)
qed

lemma machine_arrival_ok: "move_ok (machine_arrival a)"
proof -
  have i: "conn_le c (apply_outcome (inbound s (as_seen prog sent c)) c)" for s prog sent c
    by (rule conn_le_apply) (simp_all add: inbound_def split: if_splits)
  have o: "conn_le c (apply_outcome (outbound s (as_seen prog sent c)) c)" for s prog sent c
    by (rule conn_le_apply) (simp_all add: outbound_def split: if_splits)
  show ?thesis by (cases a) (simp_all add: move_ok_def i o)
qed

lemma session_move_ok: "session_move m \<Longrightarrow> move_ok m"
proof -
  have "move_ok (fold machine_arrival batch)" for batch
    by (induction batch) (simp_all only: fold.simps move_ok_id move_ok_comp machine_arrival_ok)
  then show "session_move m \<Longrightarrow> move_ok m" by (auto simp: session_move_def)
qed

text \<open>Before the fake is sent, and after.\<close>

definition unsent :: "FakeInjectiveConnection \<Rightarrow> bool" where
  "unsent c \<longleftrightarrow> Monitor c \<and> \<not> FakeSent c \<and> FakeInjectInProgress c \<and> SynSeq c \<noteq> -1 \<and> SynAckSeq c \<noteq> -1 \<and> T2aChan c = []"

definition sent_ok :: "FakeInjectiveConnection \<Rightarrow> bool" where
  "sent_ok c \<longleftrightarrow> FakeSent c \<and> SynSeq c \<noteq> -1 \<and> SynAckSeq c \<noteq> -1 \<and>
     T2aChan c = (if Monitor c then [] else [''fake_data_ack_recv''])"

lemma ack_class_inbound:
  "ack_class s \<Longrightarrow> SynSeq c \<noteq> -1 \<Longrightarrow> FakeInjectInProgress c \<Longrightarrow> \<not> FakeSent c \<Longrightarrow> inbound s c = NoteAck"
  "ack_class s \<Longrightarrow> SynSeq c \<noteq> -1 \<Longrightarrow> SynAckSeq c \<noteq> -1 \<Longrightarrow> FakeSent c \<Longrightarrow> inbound s c = FakeAcked"
  by (auto simp: inbound_def pure_synack_def ack_class_def)

lemma outbound_passes: "FakeInjectInProgress c \<or> FakeSent c \<Longrightarrow> outbound s c = PassOn"
  by (auto simp: outbound_def)

lemma acked_sent_ok: "sent_ok c \<Longrightarrow> sent_ok (trySend ''fake_data_ack_recv'' (c\<lparr>Monitor := False\<rparr>)) \<longleftrightarrow> Monitor c"
  by (auto simp: sent_ok_def trySend_def T2aCap_def)

lemma arrival_unsent: "regular a \<Longrightarrow> unsent c \<Longrightarrow> unsent (machine_arrival a c)"
  by (cases a) (auto simp: unsent_def loads_possible_def ack_class_inbound(1) outbound_passes apply_outcome_def)

lemma arrival_sent:
  assumes "regular a" and "sent_ok c"
  shows "sent_ok (machine_arrival a c)"
proof (cases a)
  case (FromServer p prog sent)
  then have "inbound (seg_of p) (as_seen prog sent c) = (if sent then FakeAcked else NoteAck)"
    using assms by (auto simp: sent_ok_def ack_class_inbound)
  moreover have "sent_ok (c\<lparr>PostFakeAckObserved := True\<rparr>)" using assms(2) by (simp add: sent_ok_def)
  ultimately show ?thesis
    using FromServer assms(2) acked_sent_ok [OF assms(2)] by (simp add: apply_outcome_def)
next
  case (FromClient p prog sent)
  then show ?thesis using assms by (simp add: outbound_passes apply_outcome_def)
qed

lemma session_move_unsent: "session_move m \<Longrightarrow> unsent c \<Longrightarrow> unsent (m c)"
proof -
  have "list_all regular batch \<Longrightarrow> unsent c \<Longrightarrow> unsent (fold machine_arrival batch c)" for batch
    by (induction batch arbitrary: c) (simp_all add: arrival_unsent)
  then show "session_move m \<Longrightarrow> unsent c \<Longrightarrow> unsent (m c)" by (auto simp: session_move_def)
qed

lemma arrivals_sent: "list_all regular batch \<Longrightarrow> sent_ok c \<Longrightarrow> sent_ok (fold machine_arrival batch c)"
  by (induction batch arbitrary: c) (simp_all add: arrival_sent)

lemma session_move_sent: "session_move m \<Longrightarrow> sent_ok c \<Longrightarrow> sent_ok (m c)"
  by (auto simp: session_move_def arrivals_sent)

section \<open>The run\<close>

definition waiting :: "inj_world \<Rightarrow> bool" where
  "waiting w \<longleftrightarrow> unsent (iw_conn w) \<and> list_all session_move (iw_moves w) \<and> list_all ((=) None) (iw_results w)"

definition answered :: "inj_world \<Rightarrow> bool" where
  "answered w \<longleftrightarrow> sent_ok (iw_conn w) \<and> list_all session_move (iw_moves w)"

lemma waiting_interfere: "waiting w \<Longrightarrow> waiting (interfere w)"
  by (auto simp: waiting_def interfere_def session_move_unsent split: list.split)

lemma answered_interfere: "answered w \<Longrightarrow> answered (interfere w)"
  by (auto simp: answered_def interfere_def session_move_sent split: list.split)

lemma answered_conclude:
  assumes "waiting w"
  shows "answered (concludeInjection w)"
proof -
  let ?w = "w_store (\<lambda>c. c\<lparr>FakeSent := True\<rparr>) w"
  have "answered ?w"
    using waiting_interfere [OF assms] by (auto simp: waiting_def answered_def w_store_def Let_def unsent_def sent_ok_def)
  then have a: "answered (interfere ?w)" "answered (interfere (interfere ?w))"
    by (simp_all add: answered_interfere)
  have "answered (w_locked signalIfMonitoring (interfere ?w))"
    using a(2) acked_sent_ok [of "iw_conn (interfere (interfere ?w))"]
    by (auto simp: w_locked_def Let_def answered_def signalIfMonitoring_def split: prod.split)
  with a(1) show ?thesis by (simp add: concludeInjection_def Let_def)
qed

lemma answered_end: "answered w \<Longrightarrow> sent_ok (iw_conn (endInjection w))"
  using answered_interfere [of w] by (simp add: endInjection_def w_store_def Let_def answered_def sent_ok_def)

sublocale live_sender \<subseteq> acks: guarded_run send strip waiting good
proof
  fix w p d m
  show "\<exists>w'. continues (Some w_IsMonitoring) w = (True, w') \<and> waiting w'" if "waiting w"
    using waiting_interfere [OF that]
    by (simp add: continues_def w_IsMonitoring_def Let_def IsMonitoring_def waiting_def unsent_def)
  show "waiting (w_sleep d w)" if "waiting w" using that by (simp add: w_sleep_def)
  show "\<exists>w'. send p w = (None, w') \<and> waiting w'" if "waiting w" "good p"
    using send_live [of w p] that send_conn [of p w] send_moves [of p w] by (auto simp: waiting_def)
  show "waiting (w_log m w)" if "waiting w" using that by (simp add: waiting_def w_log_def)
  show "list_all move_ok (iw_moves w)" if "waiting w"
    using that session_move_ok by (auto simp: waiting_def list_all_iff)
qed

context live_sender
begin

lemma acks_conclude:
  assumes "waiting w0" and "valid_headers rawCopy" and "FakeData (iw_conn w0) \<noteq> []"
    and good: "\<And>pkt. pkt \<in> set (fakeSegments nicMTU rawCopy (iw_conn w0)) \<Longrightarrow> good pkt"
  shows "sent_ok (iw_conn (endInjection (repeatAndConclude nicMTU rawCopy send (interfere (w_sleep d w0)))))"
proof -
  let ?w = "interfere (w_sleep d w0)"
  have q: "waiting ?w" by (rule acks.inv_start(1) [OF assms(1)])
  have s: "same_fake (iw_conn w0) (iw_conn ?w)" "SynSeq (iw_conn ?w) \<noteq> -1"
    using rely_start [of w0 d] acks.inv_moves [OF assms(1)] assms(1) by (simp_all add: rely_def waiting_def unsent_def)
  have "\<exists>w1. repeatLoop nicMTU rawCopy send r 0 ?w = (True, w1) \<and> waiting w1" for r
    using s assms(2,3) good q by (intro acks.repeatLoop_completes) (simp_all add: same_fake_def fakeSegments_same [OF s(1)])
  then obtain w1 where "repeatLoop nicMTU rawCopy send (if FakeRepeat (iw_conn ?w) < 1 then 1 else FakeRepeat (iw_conn ?w)) 0 ?w = (True, w1)"
    "waiting w1" by blast
  then show ?thesis
    using answered_end [OF answered_conclude] by (simp add: repeatAndConclude_def Let_def)
qed

end

section \<open>A session\<close>

definition start_world :: "(FakeInjectiveConnection \<Rightarrow> FakeInjectiveConnection) list \<Rightarrow> FakeInjectiveConnection \<Rightarrow> inj_world" where
  "start_world ms c = \<lparr>iw_conn = c, iw_wire = [], iw_effects = [], iw_moves = ms, iw_results = []\<rparr>"

text \<open>
  The handshake \<open>p1\<close>, \<open>p2\<close>, \<open>p3\<close> is handled and the goroutine runs; at each of its accesses to the connection the
  handlers of the next entry of \<open>during\<close> do their stores, those of \<open>late\<close> after its end. Then \<open>p4\<close> arrives. The
  whole fake was sent, and the handler of the client is told so exactly once.
\<close>

definition session_succeeds ::
  "(byte list \<Rightarrow> FakeInjectiveConnection \<Rightarrow> 'a handled) \<Rightarrow> (byte list \<Rightarrow> FakeInjectiveConnection \<Rightarrow> 'a handled) \<Rightarrow>
   (byte list \<Rightarrow> inj_world \<Rightarrow> inj_world) \<Rightarrow> (byte list \<Rightarrow> byte list) \<Rightarrow> int \<Rightarrow>
   arrival list list \<Rightarrow> arrival list \<Rightarrow> FakeInjectiveConnection \<Rightarrow>
   byte list \<Rightarrow> byte list \<Rightarrow> byte list \<Rightarrow> byte list \<Rightarrow> bool" where
  "session_succeeds outb inb run strip mtu during late c p1 p2 p3 p4 \<longleftrightarrow>
     (let c3 = fst (outb p3 (fst (inb p2 (fst (outb p1 c)))));
          w = run p3 (start_world (map (fold (handle_arrival outb inb)) during) c3);
          c4 = fold (handle_arrival outb inb) late (iw_conn w);
          c5 = (if Monitor c4 then fst (inb p4 c4) else c4)
      in map strip (iw_wire w) = concat (replicate (nat (FakeRepeat c)) (fakeSegments mtu p3 c3)) \<and>
         FakeSent c5 \<and> \<not> FakeInjectInProgress c5 \<and> \<not> Monitor c5 \<and> T2aChan c5 = [''fake_data_ack_recv''])"

definition regular_handshake :: "FakeInjectiveConnection \<Rightarrow> byte list \<Rightarrow> byte list \<Rightarrow> byte list \<Rightarrow> bool" where
  "regular_handshake c p1 p2 p3 \<longleftrightarrow>
     Monitor c \<and> SynSeq c = -1 \<and> SynAckSeq c = -1 \<and> \<not> FakeSent c \<and> \<not> FakeInjectInProgress c \<and> T2aChan c = [] \<and>
     1 \<le> FakeRepeat c \<and> BypassMethod c = ''wrong_seq'' \<and> FakeData c \<noteq> [] \<and>
     pure_syn (seg_of p1) \<and> TCPAckNum p1 = 0 \<and>
     pure_synack (seg_of p2) \<and> TCPAckNum p2 = TCPSeqNum p1 + 1 \<and>
     pure_ack (seg_of p3) \<and> TCPSeqNum p3 = TCPSeqNum p1 + 1 \<and> TCPAckNum p3 = TCPSeqNum p2 + 1 \<and>
     valid_headers p3 \<and> IPVersion p3 = 4"

lemma handshake_world:
  fixes p1 p2 p3 :: "byte list"
  defines "step \<equiv> \<lambda>dir p c. apply_outcome (dir (seg_of p) c) c"
  assumes "regular_handshake c p1 p2 p3" and "list_all session_move ms"
  shows "step outbound p3 (step inbound p2 (step outbound p1 c)) =
      c\<lparr>SynSeq := int (unat (TCPSeqNum p1)), SynAckSeq := int (unat (TCPSeqNum p2)), FakeInjectInProgress := True\<rparr>"
    and "waiting (start_world ms (step outbound p3 (step inbound p2 (step outbound p1 c))))"
proof -
  show c3: "step outbound p3 (step inbound p2 (step outbound p1 c)) =
      c\<lparr>SynSeq := int (unat (TCPSeqNum p1)), SynAckSeq := int (unat (TCPSeqNum p2)), FakeInjectInProgress := True\<rparr>"
  proof -
    let ?c1 = "dw_onOutboundPacket p1 c" let ?c2 = "dw_onInboundPacket p2 (fst ?c1)" let ?c3 = "dw_onOutboundPacket p3 (fst ?c2)"
    have "fst ?c3 = c\<lparr>SynSeq := int (unat (TCPSeqNum p1)), SynAckSeq := int (unat (TCPSeqNum p2)), FakeInjectInProgress := True\<rparr>"
      by (rule darwin.handshake_injects [of c p1 p2 p3 "fst ?c1" "snd ?c1" "fst ?c2" "snd ?c2" "fst ?c3" "snd ?c3", THEN conjunct1])
        (use assms(2) in \<open>simp_all add: regular_handshake_def\<close>)
    then show ?thesis by (simp add: step_def darwin.inbound_refines darwin.outbound_refines)
  qed
  show "waiting (start_world ms (step outbound p3 (step inbound p2 (step outbound p1 c))))"
    unfolding c3 using assms(2,3) by (simp add: waiting_def start_world_def regular_handshake_def unsent_def)
qed

text \<open>Handlers that end after the goroutine do not start another injection.\<close>

lemma late_not_in_progress:
  "list_all regular late \<Longrightarrow> sent_ok c \<Longrightarrow> \<not> FakeInjectInProgress c \<Longrightarrow> \<not> FakeInjectInProgress (fold machine_arrival late c)"
proof (induction late arbitrary: c)
  case (Cons a late)
  have "\<not> FakeInjectInProgress (machine_arrival a c)"
    using Cons.prems by (cases a) (auto simp: progress_apply inbound_starts_nothing outbound_passes)
  then show ?case using Cons arrival_sent [of a c] by simp
qed simp

lemma session_succeedsI:
  assumes h: "regular_handshake c p1 p2 p3" and "ack_class (seg_of p4)"
    and o: "\<And>p c. fst (outb p c) = apply_outcome (outbound (seg_of p) c) c"
    and i: "\<And>p c. fst (inb p c) = apply_outcome (inbound (seg_of p) c) c"
    and run: "\<And>ms c3. c3 = c\<lparr>SynSeq := int (unat (TCPSeqNum p1)), SynAckSeq := int (unat (TCPSeqNum p2)), FakeInjectInProgress := True\<rparr> \<Longrightarrow>
      waiting (start_world ms c3) \<Longrightarrow>
      all_sent (fakeSegments mtu p3 c3) (nat (FakeRepeat c3)) [] (map strip (iw_wire (run p3 (start_world ms c3))))
        (iw_conn (run p3 (start_world ms c3))) \<and> sent_ok (iw_conn (run p3 (start_world ms c3)))"
    and during: "list_all (list_all regular) during" and late: "list_all regular late"
  shows "session_succeeds outb inb run strip mtu during late c p1 p2 p3 p4"
proof -
  define ms where "ms = map (fold machine_arrival) during"
  have m: "handle_arrival outb inb = machine_arrival" using handle_arrival_refines [OF o i] by blast
  have ms: "list_all session_move ms" using during by (auto simp: ms_def list_all_iff session_move_def)
  define c3 where "c3 = fst (outb p3 (fst (inb p2 (fst (outb p1 c)))))"
  define w where "w = run p3 (start_world ms c3)"
  have c3: "c3 = c\<lparr>SynSeq := int (unat (TCPSeqNum p1)), SynAckSeq := int (unat (TCPSeqNum p2)), FakeInjectInProgress := True\<rparr>"
    "waiting (start_world ms c3)"
    unfolding c3_def o i using handshake_world [OF h ms] by simp_all
  from run [OF this, folded w_def] have w: "all_sent (fakeSegments mtu p3 c3) (nat (FakeRepeat c3)) [] (map strip (iw_wire w)) (iw_conn w)"
    "sent_ok (iw_conn w)" by simp_all
  define c4 where "c4 = fold machine_arrival late (iw_conn w)"
  have c4: "sent_ok c4" "\<not> FakeInjectInProgress c4"
    unfolding c4_def using w late by (simp_all add: arrivals_sent late_not_in_progress all_sent_def)
  define c5 where "c5 = (if Monitor c4 then fst (inb p4 c4) else c4)"
  have "inbound (seg_of p4) c4 = FakeAcked" using c4(1) by (intro ack_class_inbound(2) assms(2)) (simp_all add: sent_ok_def)
  then have "sent_ok c5 \<and> \<not> Monitor c5 \<and> \<not> FakeInjectInProgress c5"
    using c4 acked_sent_ok [OF c4(1)] progress_apply [of FakeAcked c4] by (auto simp: c5_def i apply_outcome_def trySend_def)
  then show ?thesis
    using w(1) unfolding session_succeeds_def Let_def m
    unfolding c3_def [symmetric] ms_def [symmetric] unfolding w_def [symmetric] unfolding c4_def [symmetric] unfolding c5_def [symmetric]
    by (simp add: all_sent_def sent_ok_def c3(1))
qed

text \<open>The two forms of \<^verbatim>\<open>runFakeInjection\<close>, started after the handshake.\<close>

context live_sender
begin

lemma acks_run:
  assumes c3: "c3 = c\<lparr>SynSeq := int (unat (TCPSeqNum p1)), SynAckSeq := int (unat (TCPSeqNum p2)), FakeInjectInProgress := True\<rparr>"
    and h: "regular_handshake c p1 p2 p3" and w: "waiting (start_world ms c3)"
    and good: "\<And>pkt. pkt \<in> set (fakeSegments nicMTU p3 c3) \<Longrightarrow> good pkt"
  shows acks_run_locked: "w' = (let w = interfere (w_sleep 1000000 (start_world ms c3)); conn = iw_conn w
      in if \<not> Monitor conn then endInjection w
         else if BypassMethod conn \<noteq> ''wrong_seq'' then
           let w = w_log (''not implemented bypass method: '' @ BypassMethod conn) w;
               (c, es) = AbortUnexpectedCloseLocked (iw_conn w)
           in endInjection (w\<lparr>iw_conn := c, iw_effects := iw_effects w @ es\<rparr>)
         else endInjection (repeatAndConclude nicMTU p3 send w)) \<Longrightarrow>
      all_sent (fakeSegments nicMTU p3 c3) (nat (FakeRepeat c3)) [] (ip_wire w') (iw_conn w') \<and> sent_ok (iw_conn w')"
    and acks_run_windows: "w' = (case w_IsMonitoring (w_sleep 1000000 (start_world ms c3)) of
        (False, w) \<Rightarrow> endInjection w
      | (True, w) \<Rightarrow>
          if BypassMethod (iw_conn w) \<noteq> ''wrong_seq'' then
            endInjection (w_locked AbortUnexpectedCloseLocked
              (w_log (''not implemented bypass method: '' @ BypassMethod (iw_conn w)) w))
          else endInjection (repeatAndConclude nicMTU p3 send w)) \<Longrightarrow>
      all_sent (fakeSegments nicMTU p3 c3) (nat (FakeRepeat c3)) [] (ip_wire w') (iw_conn w') \<and> sent_ok (iw_conn w')"
proof -
  let ?w = "start_world ms c3"
  have e: "iw_conn ?w = c3" "iw_wire ?w = []" by (simp_all add: start_world_def)
  have f: "SynSeq (iw_conn ?w) \<noteq> -1" "\<not> FakeSent (iw_conn ?w)" "1 \<le> FakeRepeat (iw_conn ?w)"
    "BypassMethod (iw_conn ?w) = ''wrong_seq''" "valid_headers p3" "FakeData (iw_conn ?w) \<noteq> []"
    unfolding e using h by (simp_all add: c3 regular_handshake_def)
  have g: "\<And>pkt. pkt \<in> set (fakeSegments nicMTU p3 (iw_conn ?w)) \<Longrightarrow> good pkt" using good by (simp add: e)
  have live: "sent_ok (iw_conn (endInjection (repeatAndConclude nicMTU p3 send (interfere (w_sleep 1000000 ?w)))))"
    by (rule acks_conclude [OF w f(5,6) g])
  show "all_sent (fakeSegments nicMTU p3 c3) (nat (FakeRepeat c3)) [] (ip_wire w') (iw_conn w') \<and> sent_ok (iw_conn w')"
    if r: "w' = (let w = interfere (w_sleep 1000000 ?w); conn = iw_conn w
      in if \<not> Monitor conn then endInjection w
         else if BypassMethod conn \<noteq> ''wrong_seq'' then
           let w = w_log (''not implemented bypass method: '' @ BypassMethod conn) w;
               (c, es) = AbortUnexpectedCloseLocked (iw_conn w)
           in endInjection (w\<lparr>iw_conn := c, iw_effects := iw_effects w @ es\<rparr>)
         else endInjection (repeatAndConclude nicMTU p3 send w))"
    using acks.run_locked_live [OF w f g r] live unfolding acks.run_locked_form [OF w f(1,4) r, symmetric] by (simp add: e)
  show "all_sent (fakeSegments nicMTU p3 c3) (nat (FakeRepeat c3)) [] (ip_wire w') (iw_conn w') \<and> sent_ok (iw_conn w')"
    if r: "w' = (case w_IsMonitoring (w_sleep 1000000 ?w) of
        (False, w) \<Rightarrow> endInjection w
      | (True, w) \<Rightarrow>
          if BypassMethod (iw_conn w) \<noteq> ''wrong_seq'' then
            endInjection (w_locked AbortUnexpectedCloseLocked
              (w_log (''not implemented bypass method: '' @ BypassMethod (iw_conn w)) w))
          else endInjection (repeatAndConclude nicMTU p3 send w))"
    using acks.run_windows_live [OF w f g r] live unfolding acks.run_windows_form [OF w f(1,4) r, symmetric] by (simp add: e)
qed

end

lemma segments_40:
  assumes "valid_headers rawCopy" and "IPVersion rawCopy = 4" and "pkt \<in> set (fakeSegments nicMTU rawCopy conn)"
  shows "40 \<le> length pkt"
proof -
  obtain k where "k < segCount nicMTU rawCopy conn" "pkt = fakeSegments nicMTU rawCopy conn ! k"
    using assms(3) by (auto simp: in_set_conv_nth)
  then show ?thesis using length_segment [OF assms(1,2)] assms(1) by (simp add: valid_headers_def)
qed

section \<open>The excluded interleaving\<close>

text \<open>
  A handler that loads \<^verbatim>\<open>FakeSent\<close> before the goroutine stores it and \<^verbatim>\<open>FakeInjectInProgress\<close> after the
  goroutine's end takes a retransmitted handshake acknowledgement for the first one and starts a second
  injection, although the fake was sent.
\<close>

context injector_backend
begin

lemma straddling_retransmission:
  assumes "SynSeq c \<noteq> -1" "SynAckSeq c \<noteq> -1" "FakeSent c" "\<not> FakeInjectInProgress c" "Monitor c"
    and "pure_ack (seg_of p)" "TCPSeqNum p = next_seq (SynSeq c)" "TCPAckNum p = next_seq (SynAckSeq c)"
  shows "handle_arrival (onOutbound env) (onInbound env) (FromClient p False False) c = c\<lparr>FakeInjectInProgress := True\<rparr>"
    and "snd (onOutbound env p (as_seen False False c)) = pass env p @ spawn env p"
proof -
  have "\<not> pure_syn (seg_of p)" using assms(6) by (simp add: pure_syn_def pure_ack_def)
  then have o: "outbound (seg_of p) (as_seen False False c) = StartInjection"
    using assms by (simp add: outbound_def) (simp add: seg_of_def)
  have "handle_arrival (onOutbound env) (onInbound env) = machine_arrival"
    by (intro ext fun_cong [OF handle_arrival_refines]) (simp_all add: outbound_refines inbound_refines)
  with o show "handle_arrival (onOutbound env) (onInbound env) (FromClient p False False) c = c\<lparr>FakeInjectInProgress := True\<rparr>"
    "snd (onOutbound env p (as_seen False False c)) = pass env p @ spawn env p"
    using assms(3-5) by (simp_all add: outbound_refines outcome_effects_def loads_possible_def apply_outcome_def)
qed

end

end
