(* ===== verification/Spec2Isabelle.thy ===== *)
theory Spec2Isabelle
  imports Checksum CH_Fragment BPF Linux_Setup Proxy Windows_Life UTLS_Names Method_Test Main_Program TCP_Receiver Ack_Session
begin

text \<open>
  SNI-Spoofing-Go is a TCP proxy that lets a TLS client reach a server behind a censor that looks at the
  host name of the ClientHello. For every client it opens a connection to the upstream; an injector that
  watches the packets of that connection follows its TCP handshake, and right after the handshake it puts a
  fake ClientHello with an allowed host name on the wire, with sequence numbers the server discards. When the
  server has acknowledged, the proxy forwards the client's own bytes, if asked for with the ClientHello cut
  into several segments around its host name. This development models the program in \<^verbatim>\<open>src/\<close>, component by
  component, and proves what makes it work.

  \<^bold>\<open>Parts and theories.\<close>

  \<^item> \<open>Prelude\<close>: Go's machine types, big-endian codecs, slices and in-place writes, the shared rules.
  \<^item> \<open>Packet\<close>, \<open>Checksum\<close> (\<^verbatim>\<open>packet/tcp.go\<close>, \<^verbatim>\<open>packet/checksum_ipv4.go\<close>): fields of raw IPv4/TCP packets and
    their checksums. What each setter changes and each getter reads; the checksum loop against RFC 1071;
    validity after recalculation.
  \<^item> \<open>CH_Fragment\<close>, \<open>ClientHello_Legacy\<close> (\<^verbatim>\<open>packet/ch_fragment.go\<close>, \<^verbatim>\<open>packet/clienthello_legacy.go\<close>,
    \<^verbatim>\<open>packet/clienthello_utls.go\<close>, \<^verbatim>\<open>packet/utls_clienthello_id.go\<close>): reading a TLS record, finding the host
    name, splitting and writing the fragments; building the fake.
  \<^item> \<open>NetIP\<close>, \<open>Go_Strings\<close>: the functions of Go's \<^verbatim>\<open>net\<close>, \<^verbatim>\<open>strings\<close> and \<^verbatim>\<open>strconv\<close> the program uses.
  \<^item> \<open>Connection\<close> (\<^verbatim>\<open>connection/monitor.go\<close>, \<^verbatim>\<open>injection/common.go\<close>, \<^verbatim>\<open>injection/tcp_ack.go\<close>): the state of a
    monitored connection and the operations all injectors share.
  \<^item> \<open>Wrong_Seq\<close> (\<^verbatim>\<open>injection/wrong_seq.go\<close>, \<^verbatim>\<open>injection/mtu.go\<close>): the packets of one injection.
    \<open>TCP_Receiver\<close> specifies the acceptability test of TCP and shows that the server drops these packets.
  \<^item> \<open>Handshake\<close>: the specification of the handshake as one machine (\<open>inbound\<close>, \<open>outbound\<close>, \<open>apply_outcome\<close>),
    and the contract \<open>injector_backend\<close> which the handlers of each injector satisfy.
  \<^item> \<open>Injection_Run\<close>: the injection goroutine (\<^verbatim>\<open>runFakeInjection\<close>) and the contracts of its send functions.
  \<^item> \<open>Flow_Table\<close>: the tables of registered flows and the contract \<open>flow_lookup\<close>.
  \<^item> \<open>Linux_Active\<close>, \<open>Linux_Passive\<close>, \<open>Darwin\<close>, \<open>Windows_Active\<close>, \<open>Windows_Passive\<close>
    (\<^verbatim>\<open>injection/injector_*.go\<close>): the packet paths of the five injectors, each interpreting the contracts.
  \<^item> \<open>Linux_Setup\<close> (\<^verbatim>\<open>injection/injector_linux.go\<close>): constructor, routing and \<^verbatim>\<open>iptables\<close> rules, \<^verbatim>\<open>Start\<close> and
    \<^verbatim>\<open>Close\<close> of the nfqueue injector. Rules that stay installed are those whose deletion failed.
  \<^item> \<open>BPF\<close> (\<^verbatim>\<open>injection/bpf_darwin.go\<close>, \<^verbatim>\<open>injection/injector_linux_passive.go\<close>): the capture filters, run by an
    interpreter of classic BPF, and the walk over the capture buffer.
  \<^item> \<open>Packet_Steps\<close>, \<open>Session\<close>: everything that happens to a connection as inductive step relations;
    invariants are proved once by rule induction and hold for each injector.
  \<^item> \<open>Ack_Session\<close>: the session of a regular client, in which acknowledgements and client packets arrive at any
    time during the injection and the loads and stores of their handlers interleave with the goroutine's. All
    interleavings but one end with exactly one success; the one left out, a client packet whose handler loads
    \<^verbatim>\<open>FakeSent\<close> before the goroutine stores it and \<^verbatim>\<open>FakeInjectInProgress\<close> after its end, starts a second injection.
  \<^item> \<open>Receive_Loop\<close>: the contract of the loops that hand packets from the operating system to the handlers.
  \<^item> \<open>Capture_Life\<close> (\<^verbatim>\<open>injection/injector_linux_passive.go\<close>, \<^verbatim>\<open>injection/injector_darwin.go\<close>,
    \<^verbatim>\<open>injection/bpf_darwin.go\<close>) and \<open>Windows_Life\<close> (\<^verbatim>\<open>injection/injector_windows*.go\<close>,
    \<^verbatim>\<open>injection/winfilter_expr.go\<close>): constructors, receive loops and \<^verbatim>\<open>Close\<close> of the other four injectors;
    no descriptor or handle leaks, and the loops deliver what they receive.
  \<^item> \<open>Config\<close>, \<open>Options\<close> (\<^verbatim>\<open>network/network.go\<close>, \<^verbatim>\<open>config/*.go\<close>, \<^verbatim>\<open>main.go\<close>): addresses, the INI file, the
    command line and the checks of \<^verbatim>\<open>main\<close>.
  \<^item> \<open>Proxy\<close> (\<^verbatim>\<open>main.go\<close>, \<^verbatim>\<open>dial_*.go\<close>): dialling, the handler of a client, relay and accept loop.
  \<^item> \<open>UTLS_Names\<close> (\<^verbatim>\<open>packet/utls_clienthello_id.go\<close>): the table of preset names and the names in the help text.
  \<^item> \<open>Method_Test\<close> (\<^verbatim>\<open>main.go\<close>): the \<^verbatim>\<open>-test\<close> mode, its matrix, preflight check, requests and report,
    with the proxy of each case.
  \<^item> \<open>Main_Program\<close> (\<^verbatim>\<open>main.go\<close>, \<^verbatim>\<open>privilege_*.go\<close>, \<^verbatim>\<open>injector_mode_default*.go\<close>): \<^verbatim>\<open>main\<close> from the arguments to
    the exit status: what it starts, for whom, with which injector, and how it ends.

  \<^bold>\<open>How the code is rendered.\<close> A Go \<^verbatim>\<open>[]byte\<close> is a list of 8-bit words, unsigned integers are words of
  their width, \<^verbatim>\<open>int\<close> and durations are integers, and natural numbers where the code only holds lengths.
  Wrap-around is written out where it matters: in the checksums, the sequence numbers and the chunk
  arithmetic of the splitter. Errors are values of sums or options; where an index or slice could panic the
  access is checked and a panic is a value. Text is ASCII. A mutable connection is a record in a store
  addressed by references, the tables hold references. A handler returns the new state and its effects in
  program order (log lines, verdicts, reinjected packets, sockets closed, goroutines started).

  \<^bold>\<open>Concurrency.\<close> The injection goroutine and the handler of a client run beside the goroutine that handles
  packets. Their worlds carry a list of moves of the others, one of which happens at each access to shared
  state; theorems quantify over all lists of moves that satisfy the rely condition (\<open>move_ok\<close>,
  \<open>table_move\<close>), and the packet handlers are shown to satisfy it. A handler's own accesses are not all one
  step either: in \<open>Ack_Session\<close> it acts on values of the two flags it may have loaded earlier, and \<open>acknowledgement_lost\<close>
  and \<open>straddling_retransmission\<close> show what the missing locks cost.

  \<^bold>\<open>Loops.\<close> All loops are total functions: over the bytes or the events they consume, or by a measure. Only
  the rejection loop \<open>randomFwMark\<close> need not end; it is a \<^verbatim>\<open>partial_function\<close> with a theorem that says when it
  returns. No fuel is used. The properties of the splitter and of what the relay delivers assume a chunk size below 2^62; those
  of the client handler hold for every chunk size an \<^verbatim>\<open>int\<close> holds, and a theorem shows what larger ones do.

  \<^bold>\<open>Parameters.\<close> The answers of the operating system (sockets, commands, files, random bytes, interfaces),
  the resolver, the variables uTLS exports and what it builds from them, the answers to HTTP requests, the WinDivert handle and its addresses, and the
  floating-point product in \<^verbatim>\<open>time.ParseDuration\<close> are arguments of the definitions that use them.

  \<^bold>\<open>Not modelled.\<close> The HTTP client and the JSON parser of the \<^verbatim>\<open>-test\<close> mode, of which only the requests and
  the answers appear, the pauses between its cases and the log writer it swaps out; the certificates it reads
  once are computed per request. uTLS itself; the flag defaults \<^verbatim>\<open>flag.PrintDefaults\<close> lists; the \<^verbatim>\<open>shutdown\<close>
  log line; the closing of the process token; system calls whose result the code ignores. Durations and
  wrapped error texts are left out of some log lines.
\<close>

section \<open>Packets of a handshake\<close>

text \<open>The packets of one handshake, for the witnesses; the third is \<open>sample_ack\<close>.\<close>

definition sample_syn :: "byte list" where
  "sample_syn =
    [0x45, 0, 0, 40, 0x12, 0x33, 0x40, 0, 64, 6, 0, 0, 10, 0, 0, 2, 104, 19, 229, 21,
     0xC3, 0x50, 1, 0xBB, 0, 0, 3, 0xE8, 0, 0, 0, 0, 0x50, 0x02, 0xFF, 0xFF, 0, 0, 0, 0]"

definition sample_synack :: "byte list" where
  "sample_synack =
    [0x45, 0, 0, 40, 0, 0, 0x40, 0, 57, 6, 0, 0, 104, 19, 229, 21, 10, 0, 0, 2,
     1, 0xBB, 0xC3, 0x50, 0, 0, 0x13, 0x88, 0, 0, 3, 0xE9, 0x50, 0x12, 0xFF, 0xFF, 0, 0, 0, 0]"

definition sample_new :: FakeInjectiveConnection where
  "sample_new = NewFakeInjectiveConnection (Some 3) ''10.0.0.2'' ''104.19.229.21'' 50000 443
     (replicate 1500 7) ''wrong_seq'' (Some 4) 1 0 0"

lemma sample_new_simps [simp]:
  "SynSeq sample_new = -1" "SynAckSeq sample_new = -1" "\<not> FakeSent sample_new" "\<not> FakeInjectInProgress sample_new"
  "Monitor sample_new"
  by (simp_all add: sample_new_def NewFakeInjectiveConnection_def Let_def MonitorConnection.defs
      FakeInjectiveConnection.defs NewMonitorConnection_def)

lemma sample_segments:
  "pure_syn (seg_of sample_syn)" "TCPAckNum sample_syn = 0" "TCPSeqNum sample_syn = 1000"
  "pure_synack (seg_of sample_synack)" "TCPAckNum sample_synack = 1001" "TCPSeqNum sample_synack = 5000"
  "pure_ack (seg_of sample_ack)" "TCPSeqNum sample_ack = 1001" "TCPAckNum sample_ack = 5001"
  by code_simp+

section \<open>All injectors follow the handshake machine\<close>

text \<open>
  C5. The ten packet handlers of the five injectors implement one state machine: each computes the
  outcome the machine prescribes for the segment, updates the connection accordingly, and on top
  of that only logs and closes the sockets on an abort, passes the packet on in its own way
  (nfqueue verdict, WinDivert reinjection, nothing when it only listens), and starts the
  injection goroutine after that.
\<close>

theorem backends_refine_handshake:
  "lx_onInboundPacket pid raw c =
     (apply_outcome (inbound (seg_of raw) c) c,
      outcome_effects [SetVerdict pid] [GoInject raw] raw c (inbound (seg_of raw) c)) \<and>
   lx_onOutboundPacket pid raw c =
     (apply_outcome (outbound (seg_of raw) c) c,
      outcome_effects [SetVerdict pid] [GoInject raw] raw c (outbound (seg_of raw) c)) \<and>
   wd_onInboundPacket env raw addr c =
     (apply_outcome (inbound (seg_of raw) c) c,
      outcome_effects (snd (wd_sendPacket env raw addr)) [GoInjectAddr raw addr] raw c (inbound (seg_of raw) c)) \<and>
   wd_onOutboundPacket env raw addr c =
     (apply_outcome (outbound (seg_of raw) c) c,
      outcome_effects (snd (wd_sendPacket env raw addr)) [GoInjectAddr raw addr] raw c (outbound (seg_of raw) c)) \<and>
   lxp_onInboundPacket raw c = (apply_outcome (inbound (seg_of raw) c) c,
     outcome_effects [] [GoInject raw] raw c (inbound (seg_of raw) c)) \<and>
   dw_onInboundPacket raw c = (apply_outcome (inbound (seg_of raw) c) c,
     outcome_effects [] [GoInject raw] raw c (inbound (seg_of raw) c)) \<and>
   wdp_onInboundPacket raw c = (apply_outcome (inbound (seg_of raw) c) c,
     outcome_effects [] [GoInject raw] raw c (inbound (seg_of raw) c)) \<and>
   lxp_onOutboundPacket raw c = (apply_outcome (outbound (seg_of raw) c) c,
     outcome_effects [] [GoInject raw] raw c (outbound (seg_of raw) c)) \<and>
   dw_onOutboundPacket raw c = (apply_outcome (outbound (seg_of raw) c) c,
     outcome_effects [] [GoInject raw] raw c (outbound (seg_of raw) c)) \<and>
   wdp_onOutboundPacket raw c = (apply_outcome (outbound (seg_of raw) c) c,
     outcome_effects [] [GoInject raw] raw c (outbound (seg_of raw) c))"
  using linux_active.inbound_refines [of pid raw c] linux_active.outbound_refines [of pid raw c]
    windows_active.inbound_refines [of "(env, addr)" raw c] windows_active.outbound_refines [of "(env, addr)" raw c]
    linux_passive.inbound_refines [of raw c] linux_passive.outbound_refines [of raw c]
    darwin.inbound_refines [of raw c] darwin.outbound_refines [of raw c]
    windows_passive.inbound_refines [of raw c] windows_passive.outbound_refines [of raw c]
  by (simp only: prod.case simp_thms)

text \<open>
  C6. A three-way handshake observed on a new connection starts the injection: after the SYN, the
  matching SYN-ACK and the matching ACK every injector has learned both sequence numbers, has
  marked the injection as in progress, and starts the goroutine on the third packet, after
  passing it on.
\<close>

theorem handshake_starts_injection:
  fixes e1 e2 e3 :: "'a wd_env"
  assumes "SynSeq c = -1" "SynAckSeq c = -1" "\<not> FakeSent c" "\<not> FakeInjectInProgress c"
    and "pure_syn (seg_of p1)" "TCPAckNum p1 = 0"
    and "pure_synack (seg_of p2)" "TCPAckNum p2 = TCPSeqNum p1 + 1"
    and "pure_ack (seg_of p3)" "TCPSeqNum p3 = TCPSeqNum p1 + 1" "TCPAckNum p3 = TCPSeqNum p2 + 1"
  defines "c' \<equiv> c\<lparr>SynSeq := int (unat (TCPSeqNum p1)), SynAckSeq := int (unat (TCPSeqNum p2)), FakeInjectInProgress := True\<rparr>"
  shows "lx_onOutboundPacket i3 p3 (fst (lx_onInboundPacket i2 p2 (fst (lx_onOutboundPacket i1 p1 c)))) =
      (c', [SetVerdict i3, GoInject p3]) \<and>
    wd_onOutboundPacket e3 p3 a3 (fst (wd_onInboundPacket e2 p2 a2 (fst (wd_onOutboundPacket e1 p1 a1 c)))) =
      (c', snd (wd_sendPacket e3 p3 a3) @ [GoInjectAddr p3 a3]) \<and>
    lxp_onOutboundPacket p3 (fst (lxp_onInboundPacket p2 (fst (lxp_onOutboundPacket p1 c)))) = (c', [GoInject p3]) \<and>
    dw_onOutboundPacket p3 (fst (dw_onInboundPacket p2 (fst (dw_onOutboundPacket p1 c)))) = (c', [GoInject p3]) \<and>
    wdp_onOutboundPacket p3 (fst (wdp_onInboundPacket p2 (fst (wdp_onOutboundPacket p1 c)))) = (c', [GoInject p3])"
proof -
  note h = assms(1-11)
  have "lx_onOutboundPacket i3 p3 (fst (lx_onInboundPacket i2 p2 (fst (lx_onOutboundPacket i1 p1 c)))) =
      (c', [SetVerdict i3, GoInject p3])"
    using linux_active.handshake_injects [OF h, of i1 _ _ i2 _ _ i3] unfolding c'_def
    by (metis append_Cons append_Nil prod.collapse)
  moreover have "wd_onOutboundPacket e3 p3 a3 (fst (wd_onInboundPacket e2 p2 a2 (fst (wd_onOutboundPacket e1 p1 a1 c)))) =
      (c', snd (wd_sendPacket e3 p3 a3) @ [GoInjectAddr p3 a3])"
    using windows_active.handshake_injects [OF h, of "(e1, a1)" _ _ "(e2, a2)" _ _ "(e3, a3)"] unfolding c'_def prod.case
    by (metis prod.collapse)
  moreover have "lxp_onOutboundPacket p3 (fst (lxp_onInboundPacket p2 (fst (lxp_onOutboundPacket p1 c)))) = (c', [GoInject p3])"
    using linux_passive.handshake_injects [OF h] unfolding c'_def by (metis append_Nil prod.collapse)
  moreover have "dw_onOutboundPacket p3 (fst (dw_onInboundPacket p2 (fst (dw_onOutboundPacket p1 c)))) = (c', [GoInject p3])"
    using darwin.handshake_injects [OF h] unfolding c'_def by (metis append_Nil prod.collapse)
  moreover have "wdp_onOutboundPacket p3 (fst (wdp_onInboundPacket p2 (fst (wdp_onOutboundPacket p1 c)))) = (c', [GoInject p3])"
    using windows_passive.handshake_injects [OF h] unfolding c'_def by (metis append_Nil prod.collapse)
  ultimately show ?thesis by blast
qed

theorem handshake_starts_injection_witness:
  "snd (lx_onOutboundPacket 3 sample_ack (fst (lx_onInboundPacket 2 sample_synack
     (fst (lx_onOutboundPacket 1 sample_syn sample_new))))) = [SetVerdict 3, GoInject sample_ack]"
proof -
  let ?e = "\<lparr>wd_shutdown = False, wd_shutdownLate = False, wd_SendErr = \<lambda>_ (_ :: unit). None\<rparr>"
  show ?thesis
    using handshake_starts_injection [of sample_new sample_syn sample_synack sample_ack 3 2 1 ?e "()" ?e "()" ?e "()"]
    by (simp add: sample_segments)
qed

section \<open>Diverted packets are passed on exactly once\<close>

fun is_verdict :: "'a effect \<Rightarrow> bool" where
  "is_verdict (SetVerdict i) = True"
| "is_verdict _ = False"

fun is_reinjection :: "'a effect \<Rightarrow> bool" where
  "is_reinjection (WdSend p a) = True"
| "is_reinjection _ = False"

lemma filter_closeSocks [simp]:
  "filter is_verdict (closeSocks c) = []" "filter is_reinjection (closeSocks c) = []"
  by (simp_all add: closeSocks_def split: option.split)

lemma filter_outcome:
  "filter P (closeSocks c) = [] \<Longrightarrow> (\<And>s. \<not> P (LogF s)) \<Longrightarrow> filter P spawn = [] \<Longrightarrow>
    filter P (outcome_effects pass spawn raw c out) = filter P pass"
  by (cases out) (simp_all add: outcome_effects_def)

lemma filter_logVerdict [simp]: "filter is_verdict (lx_logVerdict e) = []"
  by (simp add: lx_logVerdict_def split: option.split)

definition sample_linux :: LinuxInjector where
  "sample_linux = lx_RegisterConn 0
     \<lparr>Connections = Map.empty, byLocalPort = Map.empty, heap = \<lambda>_. sample_new, lx_rawFd = 5,
      lx_connectIP = ''104.19.229.21'', lx_connectPort = 443, lx_nicMTU = 1500, lx_nfqueueNum = 9,
      lx_fwMark = 77, lx_fwRulePref = 0, lx_fwRuleTable = []\<rparr>"

lemma filter_sendPacket:
  "filter is_reinjection (snd (wd_sendPacket env raw addr)) = (if wd_shutdown env then [] else [WdSend raw addr])"
  by (simp add: wd_sendPacket_def Let_def split: option.split)

lemma inject_reinjects:
  "filter is_reinjection (snd (wd_inject env raw addr f)) = (if wd_shutdown env then [] else [WdSend raw addr])"
proof -
  have h: "filter is_reinjection (snd (wd_onInboundPacket env raw addr c)) = (if wd_shutdown env then [] else [WdSend raw addr])"
    "filter is_reinjection (snd (wd_onOutboundPacket env raw addr c)) = (if wd_shutdown env then [] else [WdSend raw addr])" for c
    using windows_active.inbound_refines [of "(env, addr)" raw c] windows_active.outbound_refines [of "(env, addr)" raw c]
    by (simp_all add: filter_outcome filter_sendPacket)
  obtain l f' where l: "wd_lookupConnQuad f (IP_String (IPv4SrcAddr raw)) (TCPSrcPort raw)
      (IP_String (IPv4DstAddr raw)) (TCPDstPort raw) = (l, f')" by fastforce
  have "filter is_reinjection (snd (let (c, es) = (if b then wd_onOutboundPacket env raw addr c
      else wd_onInboundPacket env raw addr c) in (update_conn r c f', es))) =
      (if wd_shutdown env then [] else [WdSend raw addr])" for b c r
    using h by (cases b) (simp_all add: Let_def case_prod_unfold)
  then show ?thesis
    using l by (cases l) (auto simp: wd_inject_def Let_def filter_sendPacket)
qed

lemma filter_handle_all:
  "(\<And>p f. filter P (snd (h p f)) = g p) \<Longrightarrow> filter P (snd (handle_all h ps f)) = concat (map g ps)"
  by (induction ps arbitrary: f) (simp_all add: case_prod_beta)

lemma filter_not_log:
  "(\<And>e. P e \<Longrightarrow> \<not> is_log e) \<Longrightarrow> filter (\<lambda>e. \<not> is_log e) xs = filter (\<lambda>e. \<not> is_log e) ys \<Longrightarrow> filter P xs = filter P ys"
  by (metis (mono_tags, lifting) filter_cong filter_filter)

lemma wd_loop_reinjects:
  "filter is_reinjection (snd (snd (wd_RecvLoop received f))) =
   concat (map (\<lambda>(raw, addr, env). if wd_shutdown env then [] else [WdSend raw addr]) (wd_received received))"
proof -
  have "filter (\<lambda>e. \<not> is_log e) (snd (snd (wd_RecvLoop received f))) =
      filter (\<lambda>e. \<not> is_log e) (snd (handle_all wd_handle_packet (wd_received received) f))"
    using wd_loop.loop_exactly [of received f] by (simp add: handles_exactly_def wd_delivered case_prod_beta)
  then have "filter is_reinjection (snd (snd (wd_RecvLoop received f))) =
      filter is_reinjection (snd (handle_all wd_handle_packet (wd_received received) f))"
    by (rule filter_not_log [rotated]) (auto elim: is_log.elims)
  also have "\<dots> = concat (map (\<lambda>(raw, addr, env). if wd_shutdown env then [] else [WdSend raw addr]) (wd_received received))"
    by (rule filter_handle_all) (simp add: wd_handle_packet_def inject_reinjects split: prod.split)
  finally show ?thesis .
qed

text \<open>
  C15. The injectors that divert packets hold none back and duplicate none. Every packet nfqueue hands over
  with an id gets exactly one verdict, on every path of the callback, aborts included; and the WinDivert loop
  reinjects every packet it receives until shutdown exactly once, unchanged and in order.
\<close>

theorem diverted_packets_passed_once:
  assumes "PacketID a = Some pid"
  shows "filter is_verdict (snd (lx_processPacket verdictErr a f)) = [SetVerdict pid] \<and>
    filter is_reinjection (snd (snd (wd_RecvLoop received g))) =
      concat (map (\<lambda>(raw, addr, env). if wd_shutdown env then [] else [WdSend raw addr]) (wd_received received))"
  using assms
  by (simp add: lx_processPacket_def Let_def linux_active.inbound_refines linux_active.outbound_refines filter_outcome
      wd_loop_reinjects split: option.split prod.split)

theorem diverted_packets_passed_once_witness:
  "filter is_verdict (snd (lx_processPacket (\<lambda>_. None) \<lparr>PacketID = Some 7, Payload = Some sample_syn\<rparr> sample_linux)) = [SetVerdict 7]"
  by (rule diverted_packets_passed_once [THEN conjunct1]) simp

section \<open>Packets keep the invariant\<close>

text \<open>
  C16. No captured packet breaks a connection: each of the five packet entry points keeps the
  invariant of every registered connection (sequence numbers unset or 32-bit, at most two
  messages in the channel, injection only with both sequence numbers known), never resumes
  monitoring, never changes a learned sequence number, and never sets \<^verbatim>\<open>FakeSent\<close>.
\<close>

theorem packets_keep_invariant:
  "(conn_ok (heap f1 r) \<longrightarrow> conn_ok (heap (fst (lx_processPacket verdictErr a f1)) r)) \<and>
   conn_le (heap f1 r) (heap (fst (lx_processPacket verdictErr a f1)) r) \<and>
   (conn_ok (heap f2 r) \<longrightarrow> conn_ok (heap (fst (lxp_onFrame frame f2)) r)) \<and>
   conn_le (heap f2 r) (heap (fst (lxp_onFrame frame f2)) r) \<and>
   (conn_ok (heap f3 r) \<longrightarrow> conn_ok (heap (fst (dw_onFrame frame f3)) r)) \<and>
   conn_le (heap f3 r) (heap (fst (dw_onFrame frame f3)) r) \<and>
   (conn_ok (heap f4 r) \<longrightarrow> conn_ok (heap (fst (wd_inject env raw addr f4)) r)) \<and>
   conn_le (heap f4 r) (heap (fst (wd_inject env raw addr f4)) r) \<and>
   (conn_ok (heap f5 r) \<longrightarrow> conn_ok (heap (fst (wdp_onPacket raw f5)) r)) \<and>
   conn_le (heap f5 r) (heap (fst (wdp_onPacket raw f5)) r)"
  by (intro conjI impI)
    (rule heap_steps_ok heap_steps_le, rule lx_processPacket_steps lxp_onFrame_steps dw_onFrame_steps
      wd_inject_steps wdp_onPacket_steps, assumption?)+

theorem packets_keep_invariant_witness:
  "conn_ok (heap (fst (lx_processPacket (\<lambda>_. None) \<lparr>PacketID = Some 7, Payload = Some sample_syn\<rparr> sample_linux)) 0)"
proof -
  have "conn_ok (heap sample_linux 0)"
    by (simp add: sample_linux_def lx_RegisterConn_def Let_def sample_new_def conn_ok_new)
  then show ?thesis
    using packets_keep_invariant [of sample_linux 0 "\<lambda>_. None" "\<lparr>PacketID = Some 7, Payload = Some sample_syn\<rparr>", THEN conjunct1]
    by simp
qed

section \<open>The injection goroutine\<close>

text \<open>
  C1. \<^verbatim>\<open>FakeSent\<close> means the fake was sent: whatever the other goroutines do to the connection within
  their rely condition, and whichever sends fail, an injection run puts on the wire whole copies of
  the fake and at most the beginning of one more; and when it ends with \<^verbatim>\<open>FakeSent\<close> set there are
  exactly \<^verbatim>\<open>FakeRepeat\<close> whole copies and nothing else. This holds for all five injectors (on
  Windows before shutdown), reading the IP packets out of the frames of the passive ones.
\<close>

theorem fake_sent_means_sent:
  assumes "list_all move_ok (iw_moves w)" and "SynSeq (iw_conn w) \<noteq> -1" and "\<not> FakeSent (iw_conn w)"
    and "1 \<le> FakeRepeat (iw_conn w)"
  shows "whole_fakes (fakeSegments (lx_nicMTU f1) rawCopy (iw_conn w)) (nat (FakeRepeat (iw_conn w))) (iw_wire w)
      (iw_wire (lx_runFakeInjectionLocked f1 rawCopy w)) (FakeSent (iw_conn (lx_runFakeInjectionLocked f1 rawCopy w))) \<and>
    whole_fakes (fakeSegments (lxp_nicMTU f2) rawCopy (iw_conn w)) (nat (FakeRepeat (iw_conn w)))
      (map (drop ethernetHeaderLen) (iw_wire w)) (map (drop ethernetHeaderLen) (iw_wire (lxp_runFakeInjection f2 rawCopy w)))
      (FakeSent (iw_conn (lxp_runFakeInjection f2 rawCopy w))) \<and>
    whole_fakes (fakeSegments (dw_nicMTU f3) rawCopy (iw_conn w)) (nat (FakeRepeat (iw_conn w)))
      (map (drop (length (case dw_linkHdr f3 of None \<Rightarrow> [] | Some h \<Rightarrow> h))) (iw_wire w))
      (map (drop (length (case dw_linkHdr f3 of None \<Rightarrow> [] | Some h \<Rightarrow> h))) (iw_wire (dw_runFakeInjection f3 rawCopy w)))
      (FakeSent (iw_conn (dw_runFakeInjection f3 rawCopy w))) \<and>
    whole_fakes (fakeSegments (wd_nicMTU f4) rawCopy (iw_conn w)) (nat (FakeRepeat (iw_conn w))) (iw_wire w)
      (iw_wire (wd_runFakeInjection False late f4 rawCopy w)) (FakeSent (iw_conn (wd_runFakeInjection False late f4 rawCopy w))) \<and>
    whole_fakes (fakeSegments (wdp_nicMTU f5) rawCopy (iw_conn w)) (nat (FakeRepeat (iw_conn w))) (iw_wire w)
      (iw_wire (wdp_runFakeInjection False late f5 rawCopy w)) (FakeSent (iw_conn (wdp_runFakeInjection False late f5 rawCopy w)))"
  using linux_raw.run_locked_sound [OF assms lx_runFakeInjectionLocked_def [of f1 rawCopy w]]
    linux_frames.run_locked_sound [OF assms lxp_runFakeInjection_def [of f2 rawCopy w]]
    darwin_frames.run_locked_sound [OF assms dw_runFakeInjection_def [of f3 rawCopy w]]
    windows_sends.run_windows_sound [OF assms wd_runFakeInjection_def [of False late f4 rawCopy w]]
    windows_passive_sends.run_windows_sound [OF assms wdp_runFakeInjection_def [of False late f5 rawCopy w]]
  by simp

definition sample_world :: inj_world where
  "sample_world = \<lparr>iw_conn = sample_conn, iw_wire = [], iw_effects = [],
     iw_moves = [\<lambda>c. c\<lparr>PostFakeAckObserved := True\<rparr>], iw_results = []\<rparr>"

lemma sample_world_simps [simp]:
  "iw_conn sample_world = sample_conn" "iw_wire sample_world = []" "iw_results sample_world = []"
  "list_all move_quiet (iw_moves sample_world)"
  by (simp_all add: sample_world_def move_quiet_def move_ok_def conn_le_def)

lemma sample_world_ok: "list_all move_ok (iw_moves sample_world)"
  by (simp add: sample_world_def move_ok_def conn_le_def)

lemma sample_conn_fields [simp]:
  "\<not> FakeSent sample_conn" "FakeRepeat sample_conn = 1" "Monitor sample_conn" "BypassMethod sample_conn = ''wrong_seq''"
  by (simp_all add: sample_conn_def NewFakeInjectiveConnection_def Let_def MonitorConnection.defs
      FakeInjectiveConnection.defs NewMonitorConnection_def)

lemma lx_nicMTU_sample [simp]: "lx_nicMTU sample_linux = 1500"
  by (simp add: sample_linux_def lx_RegisterConn_def Let_def)

theorem fake_sent_means_sent_witness:
  "whole_fakes (fakeSegments 1500 sample_ack sample_conn) 1 []
     (iw_wire (lx_runFakeInjectionLocked sample_linux sample_ack sample_world))
     (FakeSent (iw_conn (lx_runFakeInjectionLocked sample_linux sample_ack sample_world)))"
  using fake_sent_means_sent [OF sample_world_ok, of sample_linux sample_ack, THEN conjunct1] by simp

text \<open>
  C3. The success message means that the fake was sent: in all five injectors no captured packet and no
  injection goroutine, interleaved with anything the injector does elsewhere, puts
  \<^verbatim>\<open>fake_data_ack_recv\<close> into the channel of a connection unless \<^verbatim>\<open>FakeSent\<close> is set.
\<close>

theorem success_means_fake_sent:
  assumes "success_sound c" and "list_all move_steps (iw_moves w)"
  shows "(heap f1 r = c \<longrightarrow> success_sound (heap (fst (lx_processPacket verdictErr a f1)) r)) \<and>
    (heap f2 r = c \<longrightarrow> success_sound (heap (fst (lxp_onFrame frame f2)) r)) \<and>
    (heap f3 r = c \<longrightarrow> success_sound (heap (fst (dw_onFrame frame f3)) r)) \<and>
    (heap f4 r = c \<longrightarrow> success_sound (heap (fst (wd_inject env raw addr f4)) r)) \<and>
    (heap f5 r = c \<longrightarrow> success_sound (heap (fst (wdp_onPacket raw f5)) r)) \<and>
    (iw_conn w = c \<longrightarrow> success_sound (iw_conn (lx_runFakeInjectionLocked f1 rawCopy w)) \<and>
       success_sound (iw_conn (lxp_runFakeInjection f2 rawCopy w)) \<and> success_sound (iw_conn (dw_runFakeInjection f3 rawCopy w)) \<and>
       success_sound (iw_conn (wd_runFakeInjection False late f4 rawCopy w)) \<and>
       success_sound (iw_conn (wdp_runFakeInjection False late f5 rawCopy w)))"
proof -
  have steps: "success_sound c'" if "injector_steps c c'" for c'
    using injector_steps_later [OF that] assms(1) by (simp add: later_def)
  have run: "success_sound (iw_conn w')" if "follows w w'" "iw_conn w = c" for w'
    using that assms(2) by (auto simp: follows_def intro: steps)
  show ?thesis
    by (intro conjI impI; (rule steps, erule subst, rule heap_steps_injector)?)
      (rule lx_processPacket_steps lxp_onFrame_steps dw_onFrame_steps wd_inject_steps wdp_onPacket_steps |
       (rule run, rule runs_follow, assumption))+
qed

theorem success_means_fake_sent_witness:
  "success_sound sample_conn \<and>
   success_sound (iw_conn (lx_runFakeInjectionLocked sample_linux sample_ack (sample_world\<lparr>iw_moves := []\<rparr>)))"
proof -
  have s: "success_sound sample_conn"
    by (simp add: success_sound_def sample_conn_def NewFakeInjectiveConnection_def MonitorConnection.defs
        FakeInjectiveConnection.defs NewMonitorConnection_def)
  have m: "list_all move_steps (iw_moves (sample_world\<lparr>iw_moves := []\<rparr>))" "iw_conn (sample_world\<lparr>iw_moves := []\<rparr>) = sample_conn"
    by simp_all
  show ?thesis
    using success_means_fake_sent [OF s m(1), where rawCopy = sample_ack and ?f1.0 = sample_linux, THEN conjunct2, THEN conjunct2,
        THEN conjunct2, THEN conjunct2, THEN conjunct2, THEN mp, OF m(2), THEN conjunct1] s
    by simp
qed

text \<open>
  C7. The injection succeeds when nothing prevents it: if monitoring stays on, the operating system
  accepts the sends, the template is a well-formed IPv4 TCP packet and (for the frame-based
  injectors) the link-layer header has been observed, then every injector ends its run with the
  fake sent exactly \<^verbatim>\<open>FakeRepeat\<close> times, \<^verbatim>\<open>FakeSent\<close> set and the in-progress mark cleared, whatever
  acknowledgements the packet handlers note meanwhile.
\<close>

theorem injection_completes:
  assumes "quiet w" and "SynSeq (iw_conn w) \<noteq> -1" and "\<not> FakeSent (iw_conn w)" and "1 \<le> FakeRepeat (iw_conn w)"
    and "BypassMethod (iw_conn w) = ''wrong_seq''" and "valid_headers rawCopy" and "FakeData (iw_conn w) \<noteq> []"
    and v4: "IPVersion rawCopy = 4"
    and lxp: "lxp_linkHdr f2 = Some hdr2" "ethernetHeaderLen \<le> length hdr2"
    and dw: "dw_linkHdr f3 = Some hdr3" "dw_linkLen f3 \<le> length hdr3"
  shows "all_sent (fakeSegments (lx_nicMTU f1) rawCopy (iw_conn w)) (nat (FakeRepeat (iw_conn w))) (iw_wire w)
      (iw_wire (lx_runFakeInjectionLocked f1 rawCopy w)) (iw_conn (lx_runFakeInjectionLocked f1 rawCopy w)) \<and>
    all_sent (fakeSegments (lxp_nicMTU f2) rawCopy (iw_conn w)) (nat (FakeRepeat (iw_conn w)))
      (map (drop ethernetHeaderLen) (iw_wire w)) (map (drop ethernetHeaderLen) (iw_wire (lxp_runFakeInjection f2 rawCopy w)))
      (iw_conn (lxp_runFakeInjection f2 rawCopy w)) \<and>
    all_sent (fakeSegments (dw_nicMTU f3) rawCopy (iw_conn w)) (nat (FakeRepeat (iw_conn w)))
      (map (drop (length hdr3)) (iw_wire w)) (map (drop (length hdr3)) (iw_wire (dw_runFakeInjection f3 rawCopy w)))
      (iw_conn (dw_runFakeInjection f3 rawCopy w)) \<and>
    all_sent (fakeSegments (wd_nicMTU f4) rawCopy (iw_conn w)) (nat (FakeRepeat (iw_conn w))) (iw_wire w)
      (iw_wire (wd_runFakeInjection False late f4 rawCopy w)) (iw_conn (wd_runFakeInjection False late f4 rawCopy w)) \<and>
    all_sent (fakeSegments (wdp_nicMTU f5) rawCopy (iw_conn w)) (nat (FakeRepeat (iw_conn w))) (iw_wire w)
      (iw_wire (wdp_runFakeInjection False late f5 rawCopy w)) (iw_conn (wdp_runFakeInjection False late f5 rawCopy w))"
proof -
  have s: "20 \<le> length pkt" if "pkt \<in> set (fakeSegments (lx_nicMTU f1) rawCopy (iw_conn w))" for pkt
    using segments_40 [OF assms(6) v4 that] by simp
  show ?thesis
    using linux_raw.run_locked_live [OF assms(1-7) s lx_runFakeInjectionLocked_def [of f1 rawCopy w]]
      linux_frames.run_locked_live [OF assms(1-7) _ lxp_runFakeInjection_def [of f2 rawCopy w]] lxp
      darwin_frames.run_locked_live [OF assms(1-7) _ dw_runFakeInjection_def [of f3 rawCopy w]] dw
      windows_sends.run_windows_live [OF assms(1-7) _ wd_runFakeInjection_def [of False late f4 rawCopy w]]
      windows_passive_sends.run_windows_live [OF assms(1-7) _ wdp_runFakeInjection_def [of False late f5 rawCopy w]]
    by simp
qed

lemma sample_quiet: "quiet sample_world"
  by (simp add: quiet_def)

theorem injection_completes_witness:
  "FakeSent (iw_conn (lx_runFakeInjectionLocked sample_linux sample_ack sample_world)) \<and>
   iw_wire (lx_runFakeInjectionLocked sample_linux sample_ack sample_world) = fakeSegments 1500 sample_ack sample_conn"
proof -
  let ?f2 = "(undefined :: LinuxPassiveInjector)\<lparr>lxp_linkHdr := Some (replicate 14 0)\<rparr>"
  let ?f3 = "(undefined :: DarwinInjector)\<lparr>dw_linkHdr := Some (replicate 14 0), dw_linkLen := 14\<rparr>"
  show ?thesis
    using injection_completes [OF sample_quiet, of sample_ack ?f2 "replicate 14 0" ?f3 "replicate 14 0" sample_linux, THEN conjunct1]
    by (simp add: sample_ack_valid ethernetHeaderLen_def all_sent_def)
qed


definition sample_reply :: "byte list" where
  "sample_reply =
    [0x45, 0, 0, 40, 0, 1, 0x40, 0, 57, 6, 0, 0, 104, 19, 229, 21, 10, 0, 0, 2,
     1, 0xBB, 0xC3, 0x50, 0, 0, 0x13, 0x89, 0, 0, 3, 0xE9, 0x50, 0x10, 0xFF, 0xFF, 0, 0, 0, 0]"

lemma sample_handshake: "regular_handshake sample_new sample_syn sample_synack sample_ack" and sample_reply_ack: "ack_class (seg_of sample_reply)"
proof -
  have "T2aChan sample_new = []" "FakeRepeat sample_new = 1" "BypassMethod sample_new = ''wrong_seq''" "FakeData sample_new \<noteq> []"
    by (simp_all add: sample_new_def NewFakeInjectiveConnection_def Let_def MonitorConnection.defs
        FakeInjectiveConnection.defs NewMonitorConnection_def)
  then show "regular_handshake sample_new sample_syn sample_synack sample_ack"
    by (simp add: regular_handshake_def sample_segments sample_ack_valid)
  show "ack_class (seg_of sample_reply)" by code_simp
qed


text \<open>What the frame-based injectors know of the link layer: nothing yet, or a whole header.\<close>

definition lxp_link_ok :: "LinuxPassiveInjector \<Rightarrow> bool" where
  "lxp_link_ok f \<longleftrightarrow> (\<forall>h. lxp_linkHdr f = Some h \<longrightarrow> length h = ethernetHeaderLen)"

definition dw_link_ok :: "DarwinInjector \<Rightarrow> bool" where
  "dw_link_ok f \<longleftrightarrow> (\<forall>h. dw_linkHdr f = Some h \<longrightarrow> length h = dw_linkLen f)"

lemma passive_inbound_no_inject:
  "GoInject p \<notin> set (snd (lxp_onInboundPacket raw c))" "GoInject p \<notin> set (snd (dw_onInboundPacket raw c))"
  by (auto simp: linux_passive.inbound_refines darwin.inbound_refines inbound_def outcome_effects_def closeSocks_def
      split: outcome.split if_splits option.split)

lemma lxp_link_step:
  assumes "lxp_link_ok f"
  shows "lxp_link_ok (fst (lxp_onFrame frame f)) \<and>
    (GoInject p \<in> set (snd (lxp_onFrame frame f)) \<longrightarrow> lxp_linkHdr (fst (lxp_onFrame frame f)) \<noteq> None)"
proof -
  have upd: "lxp_linkHdr (update_conn r c g) = lxp_linkHdr g" for r c and g :: LinuxPassiveInjector
    by (simp add: update_conn_def)
  show ?thesis
    using assms passive_inbound_no_inject(1)
    by (auto simp: lxp_onFrame_def lxp_captureLinkHeader_def lxp_link_ok_def Let_def upd case_prod_unfold split: option.split)
qed

lemma dw_link_step:
  assumes "dw_link_ok f"
  shows "dw_link_ok (fst (dw_onFrame frame f)) \<and>
    (GoInject p \<in> set (snd (dw_onFrame frame f)) \<and> 0 < dw_linkLen f \<longrightarrow> dw_linkHdr (fst (dw_onFrame frame f)) \<noteq> None)"
proof -
  have upd: "dw_linkHdr (update_conn r c g) = dw_linkHdr g" "dw_linkLen (update_conn r c g) = dw_linkLen g"
    for r c and g :: DarwinInjector
    by (simp_all add: update_conn_def)
  show ?thesis
    using assms passive_inbound_no_inject(2)
    by (auto simp: dw_onFrame_def dw_captureLinkHeader_def dw_link_ok_def Let_def upd case_prod_unfold split: option.split)
qed

text \<open>
  An injection always has a link-layer header to use: a frame never leaves the frame-based
  injectors with a header of the wrong length, and whenever a frame makes one of them start the
  injection goroutine the header is already stored (a raw IP capture on macOS has no link layer
  and needs none).
\<close>

lemma link_header_before_injection:
  assumes "lxp_link_ok f2" and "dw_link_ok f3"
  shows "lxp_link_ok (fst (lxp_onFrame frame f2)) \<and>
    (GoInject p \<in> set (snd (lxp_onFrame frame f2)) \<longrightarrow> lxp_linkHdr (fst (lxp_onFrame frame f2)) \<noteq> None) \<and>
    dw_link_ok (fst (dw_onFrame frame f3)) \<and>
    (GoInject p \<in> set (snd (dw_onFrame frame f3)) \<and> 0 < dw_linkLen f3 \<longrightarrow> dw_linkHdr (fst (dw_onFrame frame f3)) \<noteq> None)"
  using lxp_link_step [OF assms(1)] dw_link_step [OF assms(2)] by blast

definition sample_frame :: "byte list \<Rightarrow> byte list" where
  "sample_frame p = [2, 0, 0, 0, 0, 1, 2, 0, 0, 0, 0, 2, 8, 0] @ p"

definition sample_passive :: LinuxPassiveInjector where
  "sample_passive = lxp_RegisterConn 0
     \<lparr>Connections = Map.empty, byLocalPort = Map.empty, heap = \<lambda>_. sample_new, lxp_fd = 5, lxp_ifindex = 2,
      lxp_linkHdr = None, lxp_localIP = ''10.0.0.2'', lxp_connectIP = ''104.19.229.21'', lxp_connectPort = 443,
      lxp_nicMTU = 1500\<rparr>"

definition sample_darwin :: DarwinInjector where
  "sample_darwin = dw_RegisterConn 0
     ((undefined :: DarwinInjector)\<lparr>Connections := Map.empty, byLocalPort := Map.empty, heap := \<lambda>_. sample_new,
      dw_linkHdr := None, dw_linkLen := 14\<rparr>)"

lemma sample_link_ok: "lxp_link_ok sample_passive" "dw_link_ok sample_darwin"
  by (simp_all add: lxp_link_ok_def dw_link_ok_def sample_passive_def sample_darwin_def lxp_RegisterConn_def
      dw_RegisterConn_def Let_def)


section \<open>Interleaving\<close>

lemma move_ok_outcome:
  "move_ok (\<lambda>c. apply_outcome (inbound s c) c)" "move_ok (\<lambda>c. apply_outcome (outbound s c) c)"
  by (simp_all add: move_ok_def conn_le_inbound conn_le_outbound)

text \<open>
  The packet handlers respect what the injection goroutine relies on: whatever packet any of
  the ten handlers processes while the goroutine runs, monitoring is not resumed, the learned
  sequence numbers and the fake are not changed, and \<^verbatim>\<open>FakeSent\<close> is not stored. The same holds of
  the abort the goroutine itself performs.
\<close>

lemma handlers_respect_rely:
  "move_ok (\<lambda>c. fst (lx_onInboundPacket pid raw c)) \<and> move_ok (\<lambda>c. fst (lx_onOutboundPacket pid raw c)) \<and>
   move_ok (\<lambda>c. fst (lxp_onInboundPacket raw c)) \<and> move_ok (\<lambda>c. fst (lxp_onOutboundPacket raw c)) \<and>
   move_ok (\<lambda>c. fst (dw_onInboundPacket raw c)) \<and> move_ok (\<lambda>c. fst (dw_onOutboundPacket raw c)) \<and>
   move_ok (\<lambda>c. fst (wd_onInboundPacket env raw addr c)) \<and> move_ok (\<lambda>c. fst (wd_onOutboundPacket env raw addr c)) \<and>
   move_ok (\<lambda>c. fst (wdp_onInboundPacket raw c)) \<and> move_ok (\<lambda>c. fst (wdp_onOutboundPacket raw c)) \<and>
   move_ok (\<lambda>c. fst (AbortUnexpectedCloseLocked c))"
proof -
  have "move_ok (\<lambda>c. fst (AbortUnexpectedCloseLocked c))"
    using conn_le_trySend by (simp add: move_ok_def AbortUnexpectedCloseLocked_def) (simp add: trySend_def)
  then show ?thesis
    using move_ok_outcome [of "seg_of raw"]
      windows_active.inbound_refines [of "(env, addr)" raw] windows_active.outbound_refines [of "(env, addr)" raw]
    by (simp add: linux_active.inbound_refines linux_active.outbound_refines
      linux_passive.inbound_refines linux_passive.outbound_refines darwin.inbound_refines darwin.outbound_refines
      windows_passive.inbound_refines windows_passive.outbound_refines)
qed

text \<open>
  C38. An acknowledgement can be lost between the handler and the goroutine. The inbound handler
  decides to note an acknowledgement while \<^verbatim>\<open>FakeSent\<close> is not yet set, and stores
  \<^verbatim>\<open>PostFakeAckObserved\<close> only after the goroutine, which does not hold the mutex there, has stored
  \<^verbatim>\<open>FakeSent\<close> and loaded \<^verbatim>\<open>PostFakeAckObserved\<close>: the run ends with the acknowledgement noted and the
  fake sent, but no signal is sent and monitoring goes on, so the waiting connection learns of its
  success only from a later packet.
\<close>

theorem acknowledgement_lost:
  assumes "iw_conn w = c" and "iw_moves w = [\<lambda>c. c, \<lambda>c. c, apply_outcome (inbound (seg_of raw) c)]"
    and "SynSeq c \<noteq> -1" and "ack_class (seg_of raw)"
    and "FakeInjectInProgress c" and "\<not> FakeSent c" and "\<not> PostFakeAckObserved c" and "Monitor c"
  shows "iw_conn (endInjection (concludeInjection w)) =
    c\<lparr>FakeSent := True, PostFakeAckObserved := True, FakeInjectInProgress := False\<rparr>"
proof -
  have "\<not> pure_synack (seg_of raw)" using assms(4) by (simp add: ack_class_def pure_synack_def)
  then have "inbound (seg_of raw) c = NoteAck" using assms(3-6) by (simp add: inbound_def)
  with assms show ?thesis
    by (simp add: endInjection_def concludeInjection_def w_store_def interfere_def Let_def apply_outcome_def)
qed

theorem acknowledgement_lost_witness:
  "T2aChan (iw_conn (endInjection (concludeInjection (sample_world\<lparr>iw_conn := sample_conn\<lparr>FakeInjectInProgress := True\<rparr>,
     iw_moves := [\<lambda>c. c, \<lambda>c. c, apply_outcome (inbound (seg_of sample_ack) (sample_conn\<lparr>FakeInjectInProgress := True\<rparr>))]\<rparr>)))) = []"
proof -
  have "\<not> PostFakeAckObserved sample_conn" "T2aChan sample_conn = []"
    by (simp_all add: sample_conn_def NewFakeInjectiveConnection_def Let_def MonitorConnection.defs
      FakeInjectiveConnection.defs NewMonitorConnection_def)
  moreover have "ack_class (seg_of sample_ack)" using sample_segments(7) by (simp add: ack_class_def pure_ack_def)
  ultimately show ?thesis
    using acknowledgement_lost [of "sample_world\<lparr>iw_conn := sample_conn\<lparr>FakeInjectInProgress := True\<rparr>,
     iw_moves := [\<lambda>c. c, \<lambda>c. c, apply_outcome (inbound (seg_of sample_ack) (sample_conn\<lparr>FakeInjectInProgress := True\<rparr>))]\<rparr>"
     "sample_conn\<lparr>FakeInjectInProgress := True\<rparr>" sample_ack]
    by simp
qed

section \<open>Link-layer padding\<close>

lemma padded_fields:
  assumes "valid_headers raw"
  shows "GetTCPFlags (raw @ pad) = GetTCPFlags raw" "TCPSeqNum (raw @ pad) = TCPSeqNum raw"
    "TCPAckNum (raw @ pad) = TCPAckNum raw" "IPv4TotalLen (raw @ pad) = IPv4TotalLen raw"
    "TCPPayloadLen (raw @ pad) = length raw - (IPHeaderLen raw + TCPDataOffset raw) + length pad"
proof -
  have l: "20 \<le> IPHeaderLen raw" "IPHeaderLen raw + 20 \<le> length raw" using assms by (simp_all add: valid_headers_def)
  then have ih: "IPHeaderLen (raw @ pad) = IPHeaderLen raw" by (cases raw) (simp_all add: IPHeaderLen_def)
  note d = ih tcpOffset_def nth_append Let_def
  show "GetTCPFlags (raw @ pad) = GetTCPFlags raw" using l by (simp add: GetTCPFlags_def d)
  show "TCPSeqNum (raw @ pad) = TCPSeqNum raw" using l by (simp add: TCPSeqNum_def d)
  show "TCPAckNum (raw @ pad) = TCPAckNum raw" using l by (simp add: TCPAckNum_def d)
  show "IPv4TotalLen (raw @ pad) = IPv4TotalLen raw" using l by (simp add: IPv4TotalLen_def d)
  have "TCPDataOffset (raw @ pad) = TCPDataOffset raw" using l by (simp add: TCPDataOffset_def d)
  then show "TCPPayloadLen (raw @ pad) = length raw - (IPHeaderLen raw + TCPDataOffset raw) + length pad"
    using assms by (simp add: TCPPayloadLen_def TCPPayload_def ih Let_def valid_headers_def)
qed

text \<open>
  C39. The payload length is computed from the captured bytes and not from the IP total length.
  On an Ethernet a SYN-ACK short enough to be padded to the minimum frame size is therefore taken
  for one with payload by the Linux injector that reads whole frames: the packet whose unpadded
  form would have been learned aborts the connection.
\<close>

theorem padded_synack_aborts:
  assumes "valid_headers raw" and "pure_synack (seg_of raw)" and "SynSeq c \<noteq> -1" and "SynAckSeq c = -1"
    and "TCPAckNum raw = of_int (SynSeq c) + 1" and "\<not> FakeSent c" and "\<not> FakeInjectInProgress c"
    and "pad \<noteq> []"
  shows "fst (lxp_onInboundPacket raw c) = c\<lparr>SynAckSeq := int (unat (TCPSeqNum raw))\<rparr> \<and>
    fst (lxp_onInboundPacket (raw @ pad) c) = trySend ''unexpected_close'' (c\<lparr>Monitor := False\<rparr>)"
proof -
  note f = padded_fields [OF assms(1), of pad]
  have "inbound (seg_of raw) c = LearnSynAck (TCPSeqNum raw)"
    using assms by (simp add: inbound_def seg_of_def next_seq_def)
  moreover have "\<not> pure_synack (seg_of (raw @ pad))" "\<not> ack_class (seg_of (raw @ pad))"
    using assms(2,8) f by (simp_all add: pure_synack_def ack_class_def seg_of_def)
  then have "inbound (seg_of (raw @ pad)) c = Unexpected ''unexpected inbound packet''"
    using assms(3) by (simp add: inbound_def)
  ultimately show ?thesis by (simp add: linux_passive.inbound_refines apply_outcome_def)
qed

theorem padded_synack_aborts_witness:
  "IPv4TotalLen sample_synack = 40 \<and> length (sample_frame (sample_synack @ replicate 6 0)) = 60 \<and>
   \<not> Monitor (fst (lxp_onInboundPacket (sample_synack @ replicate 6 0) (sample_new\<lparr>SynSeq := 1000\<rparr>)))"
proof -
  have "valid_headers sample_synack" "IPv4TotalLen sample_synack = 40" "length sample_synack = 40" by code_simp+
  then show ?thesis
    using padded_synack_aborts [of sample_synack "sample_new\<lparr>SynSeq := 1000\<rparr>" "replicate 6 0"]
    by (simp add: sample_segments trySend_def sample_frame_def)
qed

section \<open>Flows\<close>

text \<open>
  C36. A registered connection is found, and nothing else changes. In each injector, whatever flows are
  registered already: right after \<^verbatim>\<open>RegisterConn\<close> the packets the connection sends are looked up to it as
  outbound, the replies as inbound (unless another connection is registered under exactly the reversed
  addresses). Neither \<^verbatim>\<open>RegisterConn\<close> nor \<^verbatim>\<open>UnregisterConn\<close> changes what is found for packets that have neither
  the connection's addresses nor its local port. After \<^verbatim>\<open>UnregisterConn\<close> neither direction is found any more,
  unless another flow stands under the reversed addresses or under the server's port as its local port; and
  unregistering a connection right after registering it under unused addresses and an unused port restores
  the tables.
\<close>

theorem registered_flows_found:
  assumes "id_ok (heap f1 r)" "id_ok (heap f2 r)" "id_ok (heap f3 r)" "id_ok (heap f4 r)" "id_ok (heap f5 r)"
  shows "flow_operations lx_RegisterConn lx_UnregisterConn (\<lambda>f a p b q. (lx_lookupConnQuad f a p b q, f)) f1 r \<and>
    flow_operations lxp_RegisterConn lxp_UnregisterConn (\<lambda>f a p b q. (lxp_lookupConnQuad f a p b q, f)) f2 r \<and>
    flow_operations dw_RegisterConn dw_UnregisterConn (\<lambda>f a p b q. (dw_lookupConnQuad f a p b q, f)) f3 r \<and>
    flow_operations wd_RegisterConn wd_UnregisterConn wd_lookupConnQuad f4 r \<and>
    flow_operations wdp_RegisterConn wdp_UnregisterConn wdp_lookupConnQuad f5 r"
  using assms
  by (intro conjI linux_flows.flows_kept linux_passive_flows.flows_kept darwin_flows.flows_kept windows_flows.flows_kept
      windows_passive_flows.flows_kept)

lemma sample_new_id:
  "id_ok sample_new" "SrcIP sample_new = ''10.0.0.2''" "SrcPort sample_new = 50000" "DstIP sample_new = ''104.19.229.21''"
  "DstPort sample_new = 443"
  by (simp_all add: id_ok_def quad_def sample_new_def NewFakeInjectiveConnection_def Let_def MonitorConnection.defs
      FakeInjectiveConnection.defs NewMonitorConnection_def)

text \<open>Registered beside another flow, under port 50001.\<close>

theorem registered_flows_found_witness:
  "lx_lookupConnQuad sample_linux ''10.0.0.2'' 50000 ''104.19.229.21'' 443 = Some (0, True) \<and>
   lx_lookupConnQuad sample_linux ''104.19.229.21'' 443 ''10.0.0.2'' 50000 = Some (0, False) \<and>
   fst (wd_lookupConnQuad (wd_RegisterConn 0 ((undefined :: WindowsInjector)\<lparr>Connections := [quad ''10.0.0.2'' 50001 ''104.19.229.21'' 443 \<mapsto> 1],
       byLocalPort := [50001 \<mapsto> 1], heap := \<lambda>_. sample_new\<rparr>)) ''10.0.0.2'' 50001 ''104.19.229.21'' 443) = Some (1, True)"
proof -
  let ?f1 = "\<lparr>Connections = Map.empty, byLocalPort = Map.empty, heap = \<lambda>_. sample_new, lx_rawFd = 5,
      lx_connectIP = ''104.19.229.21'', lx_connectPort = 443, lx_nicMTU = 1500, lx_nfqueueNum = 9,
      lx_fwMark = 77, lx_fwRulePref = 0, lx_fwRuleTable = []\<rparr> :: LinuxInjector"
  let ?f4 = "(undefined :: WindowsInjector)\<lparr>Connections := [quad ''10.0.0.2'' 50001 ''104.19.229.21'' 443 \<mapsto> 1],
       byLocalPort := [50001 \<mapsto> 1], heap := \<lambda>_. sample_new\<rparr>"
  have i: "ID sample_new = quad ''10.0.0.2'' 50000 ''104.19.229.21'' 443"
    using sample_new_id by (simp add: id_ok_def)
  note flows = registered_flows_found [of ?f1 0
      "(undefined :: LinuxPassiveInjector)\<lparr>heap := \<lambda>_. sample_new\<rparr>" "(undefined :: DarwinInjector)\<lparr>heap := \<lambda>_. sample_new\<rparr>" ?f4
      "(undefined :: WindowsPassiveInjector)\<lparr>heap := \<lambda>_. sample_new\<rparr>"]
  have "flow_operations lx_RegisterConn lx_UnregisterConn (\<lambda>f a p b q. (lx_lookupConnQuad f a p b q, f)) ?f1 0"
    "flow_operations wd_RegisterConn wd_UnregisterConn wd_lookupConnQuad ?f4 0"
    using flows by (simp_all add: sample_new_id)
  moreover have "fst (wd_lookupConnQuad ?f4 ''10.0.0.2'' 50001 ''104.19.229.21'' 443) = Some (1, True)"
    by (simp add: wd_lookupConnQuad_def)
  ultimately show ?thesis
    unfolding flow_operations_def Let_def by (simp add: sample_new_id i sample_linux_def)
qed

text \<open>
  The frame handlers do not look at the protocol field. A UDP datagram of the upstream whose ports are those of
  a connection is refused by the capture filter; a handler that sees it takes it for a segment of the
  connection, and this one aborts the connection.
\<close>

lemma unfiltered_datagram_aborts:
  defines "frame \<equiv> sample_frame (sample_reply[9 := 17])"
  shows "\<not> bpf_accepts (buildTCPHostFilter 14 [104, 19, 229, 21]) frame" and "Monitor (heap sample_passive 0)"
    and "\<not> Monitor (heap (fst (lxp_onFrame frame sample_passive)) 0)"
proof -
  show "\<not> bpf_accepts (buildTCPHostFilter 14 [104, 19, 229, 21]) frame"
    by (simp add: host_filter_exact tcp_host_frame_def frame_def sample_frame_def sample_reply_def)
  show "Monitor (heap sample_passive 0)"
    by (simp add: sample_passive_def lxp_RegisterConn_def Let_def)
  have fields: "IPv4SrcAddr (sample_reply[9 := 17]) = Some [104, 19, 229, 21]" "IPv4DstAddr (sample_reply[9 := 17]) = Some [10, 0, 0, 2]"
    "TCPSrcPort (sample_reply[9 := 17]) = 443" "TCPDstPort (sample_reply[9 := 17]) = 50000" "IPVersion (sample_reply[9 := 17]) = 4"
    "length sample_reply = 40"
    by code_simp+
  have names: "IP_String (Some [10, 0, 0, 2]) = ''10.0.0.2''" "IP_String (Some [104, 19, 229, 21]) = ''104.19.229.21''"
    by code_simp+
  have "lxp_lookupConnQuad sample_passive ''104.19.229.21'' 443 ''10.0.0.2'' 50000 = Some (0, False)" "heap sample_passive 0 = sample_new"
    using sample_new_id by (simp_all add: sample_passive_def lxp_RegisterConn_def lxp_lookupConnQuad_def id_ok_def quad_def Let_def)
  moreover have "inbound s sample_new = Unexpected ''unexpected inbound packet, no syn sent!''" for s
    by (simp add: inbound_def)
  ultimately show "\<not> Monitor (heap (fst (lxp_onFrame frame sample_passive)) 0)"
    by (simp add: frame_def sample_frame_def lxp_onFrame_def ethernetHeaderLen_def fields names linux_passive.inbound_refines
        apply_outcome_def trySend_def update_conn_def Let_def)
qed

lemma ipv4Equal_refl: "ipv4Equal a a"
  by (simp add: ipv4Equal_def IP_Equal_def split: option.split)

text \<open>
  C37. The Windows injectors learn the source address: an outbound packet that matches a registered
  connection only by its local port and destination rebinds the connection to the source address
  of the packet. From then on the connection's identity is its observed addresses, it is found
  under them, and the reply to the packet is found as inbound.
\<close>

theorem observed_source_learned:
  assumes "heap f r = c" "heap g r = c" and "byLocalPort f sp = Some r" "byLocalPort g sp = Some r"
    and "Connections f (quad sip sp dip dp) = None" "Connections f (quad dip dp sip sp) = None"
    and "Connections g (quad sip sp dip dp) = None" "Connections g (quad dip dp sip sp) = None"
    and "dip = DstIP c" and "dp = DstPort c" and "sp \<noteq> 0"
    and "\<not> ipv4Equal (SrcIP c) sip" and "quad dip dp sip sp \<noteq> quad sip sp dip dp"
  shows "(\<exists>f'. wd_lookupConnQuad f sip sp dip dp = (Some (r, True), f') \<and>
      id_ok (heap f' r) \<and> SrcIP (heap f' r) = sip \<and> SrcPort (heap f' r) = sp \<and>
      wd_lookupConnQuad f' sip sp dip dp = (Some (r, True), f') \<and>
      wd_lookupConnQuad f' dip dp sip sp = (Some (r, False), f')) \<and>
    (\<exists>g'. wdp_lookupConnQuad g sip sp dip dp = (Some (r, True), g') \<and>
      id_ok (heap g' r) \<and> SrcIP (heap g' r) = sip \<and> SrcPort (heap g' r) = sp \<and>
      wdp_lookupConnQuad g' sip sp dip dp = (Some (r, True), g') \<and>
      wdp_lookupConnQuad g' dip dp sip sp = (Some (r, False), g'))"
proof (intro conjI)
  let ?c = "c\<lparr>SrcIP := sip, SrcPort := sp, ID := quad sip sp dip dp\<rparr>"
  define f' where "f' = wd_bindObservedTuple r sip sp f"
  define g' where "g' = wdp_bindObservedTuple r sip sp g"
  have f': "wd_lookupConnQuad f sip sp dip dp = (Some (r, True), f')" "heap f' r = ?c"
    "Connections f' (quad sip sp dip dp) = Some r" "Connections f' (quad dip dp sip sp) = None"
    using assms ipv4Equal_refl by (simp_all add: f'_def wd_lookupConnQuad_def wd_bindObservedTuple_def Let_def update_conn_def)
  have g': "wdp_lookupConnQuad g sip sp dip dp = (Some (r, True), g')" "heap g' r = ?c"
    "Connections g' (quad sip sp dip dp) = Some r" "Connections g' (quad dip dp sip sp) = None"
    using assms ipv4Equal_refl by (simp_all add: g'_def wdp_lookupConnQuad_def wdp_bindObservedTuple_def Let_def update_conn_def)
  show "\<exists>f'. wd_lookupConnQuad f sip sp dip dp = (Some (r, True), f') \<and>
      id_ok (heap f' r) \<and> SrcIP (heap f' r) = sip \<and> SrcPort (heap f' r) = sp \<and>
      wd_lookupConnQuad f' sip sp dip dp = (Some (r, True), f') \<and>
      wd_lookupConnQuad f' dip dp sip sp = (Some (r, False), f')"
    using f' assms(9,10) by (intro exI [of _ f']) (simp add: id_ok_def windows_flows.lookup_out windows_flows.lookup_in)
  show "\<exists>g'. wdp_lookupConnQuad g sip sp dip dp = (Some (r, True), g') \<and>
      id_ok (heap g' r) \<and> SrcIP (heap g' r) = sip \<and> SrcPort (heap g' r) = sp \<and>
      wdp_lookupConnQuad g' sip sp dip dp = (Some (r, True), g') \<and>
      wdp_lookupConnQuad g' dip dp sip sp = (Some (r, False), g')"
    using g' assms(9,10)
    by (intro exI [of _ g']) (simp add: id_ok_def windows_passive_flows.lookup_out windows_passive_flows.lookup_in)
qed

lemma sample_addresses:
  "IP_String (Some [10, 0, 0, 2]) = ''10.0.0.2''" "IP_String (Some [192, 168, 1, 2]) = ''192.168.1.2''"
  by code_simp+

lemma sample_other_source: "\<not> ipv4Equal ''10.0.0.2'' ''192.168.1.2''"
  unfolding sample_addresses [symmetric] ipv4Equal_def ParseIP_String by (simp add: IP_Equal_def v4InV6_def)

theorem observed_source_learned_witness:
  "\<exists>f'. wd_lookupConnQuad (wd_RegisterConn 0 ((undefined :: WindowsInjector)\<lparr>Connections := Map.empty,
       byLocalPort := Map.empty, heap := \<lambda>_. sample_new\<rparr>)) ''192.168.1.2'' 50000 ''104.19.229.21'' 443 = (Some (0, True), f') \<and>
     wd_lookupConnQuad f' ''104.19.229.21'' 443 ''192.168.1.2'' 50000 = (Some (0, False), f')"
proof -
  let ?f = "wd_RegisterConn 0 ((undefined :: WindowsInjector)\<lparr>Connections := Map.empty,
    byLocalPort := Map.empty, heap := \<lambda>_. sample_new\<rparr>)"
  let ?g = "wdp_RegisterConn 0 ((undefined :: WindowsPassiveInjector)\<lparr>Connections := Map.empty,
    byLocalPort := Map.empty, heap := \<lambda>_. sample_new\<rparr>)"
  note w = observed_source_learned [of ?f 0 sample_new ?g 50000 "''192.168.1.2''" "''104.19.229.21''" 443, THEN conjunct1]
  have m: "heap ?f 0 = sample_new" "heap ?g 0 = sample_new" "byLocalPort ?f 50000 = Some 0" "byLocalPort ?g 50000 = Some 0"
    "Connections ?f = [ID sample_new \<mapsto> 0]" "Connections ?g = [ID sample_new \<mapsto> 0]"
    by (simp_all add: wd_RegisterConn_def wdp_RegisterConn_def Let_def sample_new_id)
  have i: "ID sample_new = quad ''10.0.0.2'' 50000 ''104.19.229.21'' 443"
    using sample_new_id by (simp add: id_ok_def)
  show ?thesis
    using w [unfolded m i sample_new_id] ipv4Equal_refl sample_other_source by (auto simp: i)
qed

end
